(* ===== verification/Prelude.thy ===== *)
theory Prelude
  imports Main "HOL-Library.Word" "HOL-Library.Monad_Syntax"
begin

text \<open>
  Shared vocabulary of the development: the fixed-width types of the Go sources, the two ways a
  modelled function can fail to return, the named collections of rewrite rules that the component
  theories fill, and the generic facts on options, lists and words that several components need.

  A function of the model that can hit a Go run-time panic (an index or a slice out of range, a
  nil dereference, an explicit \<^verbatim>\<open>panic\<close>) has an \<open>option\<close> type, and \<open>None\<close> is the panic.
  A function that runs contract code also takes fuel; running out of fuel is the value
  \<open>NoFuel\<close> of type \<open>outcome\<close>, kept apart from panics and from Go's error values.
\<close>

type_synonym byte = "8 word"
type_synonym bytes = "8 word list"
type_synonym uint64 = "64 word"
type_synonym address = "160 word" \<comment> \<open>\<^verbatim>\<open>common.Address\<close>, \<^verbatim>\<open>[20]byte\<close>, read big-endian\<close>
type_synonym hash = "256 word" \<comment> \<open>\<^verbatim>\<open>common.Hash\<close>, \<^verbatim>\<open>[32]byte\<close>, read big-endian\<close>

datatype 'a outcome = NoFuel | Done 'a

named_theorems big_simps \<open>arithmetic of \<^verbatim>\<open>math/big\<close> and package common on its usual domain\<close>
named_theorems instr_defs \<open>definitions of the instruction functions\<close>
named_theorems gas_simps \<open>static gas and stack requirements of the opcodes\<close>
named_theorems state_defs \<open>definitions of the state object and journal operations\<close>

section \<open>Options and outcomes\<close>

lemma bind_eq_SomeE:
  assumes "Option.bind m f = Some y"
  obtains x where "m = Some x" and "f x = Some y"
  using assms by (auto simp: bind_eq_Some_conv)

lemma bind_neq_NoneI:
  "m = Some x \<Longrightarrow> f x \<noteq> None \<Longrightarrow> Option.bind m f \<noteq> None"
  by simp

lemma map_outcome_eq_Done:
  "map_outcome f m = Done y \<longleftrightarrow> (\<exists>x. m = Done x \<and> y = f x)"
  by (cases m) auto

section \<open>Lists\<close>

lemma length_ge_Cons:
  assumes "Suc n \<le> length xs"
  obtains x ys where "xs = x # ys" and "n \<le> length ys"
  using assms by (cases xs) auto

lemma take_append_replicate_eq:
  "length xs \<le> n \<Longrightarrow> length (xs @ replicate (n - length xs) a) = n"
  by simp

lemma list_all_update:
  "list_all P xs \<Longrightarrow> P x \<Longrightarrow> list_all P (xs[i := x])"
  by (induction xs arbitrary: i) (auto split: nat.splits)

lemma list_all_nth_drop:
  "list_all P xs \<Longrightarrow> n < length xs \<Longrightarrow> P (xs ! n)"
  by (simp add: list_all_length)

section \<open>Words\<close>

lemma uint_lt_pow: "uint (w :: 'a::len word) < 2 ^ LENGTH('a)"
  by (rule uint_lt2p)

lemma uint_of_int_small:
  "0 \<le> x \<Longrightarrow> x < 2 ^ LENGTH('a) \<Longrightarrow> uint (word_of_int x :: 'a::len word) = x"
  by (simp add: uint_word_of_int)

lemma unat_of_int_small:
  "0 \<le> x \<Longrightarrow> x < 2 ^ LENGTH('a) \<Longrightarrow> unat (word_of_int x :: 'a::len word) = nat x"
  by (simp add: unat_eq_nat_uint uint_of_int_small)

lemma sint_of_int_small:
  "0 \<le> x \<Longrightarrow> x < 2 ^ 63 \<Longrightarrow> sint (word_of_int x :: 64 word) = x"
  by (simp add: sint_word_ariths signed_take_bit_int_eq_self sint_sbintrunc')

end
