(* ===== verification/Big.thy ===== *)
theory Big
  imports Prelude
begin

text \<open>
  The integers of the sources. \<^verbatim>\<open>math/big.Int\<close> is an unbounded integer, so it is modelled by
  \<^typ>\<open>int\<close>; this theory gives the methods of it that the sources call, and the helpers of
  \<^verbatim>\<open>common/big.go\<close>, \<^verbatim>\<open>common/bytes.go\<close> and \<^verbatim>\<open>common/types.go\<close> on top of them. The lemmas show
  that the byte conversions are inverse to each other on their domain and that the 256-bit helpers
  are reduction modulo \<open>2 ^ 256\<close> and the two's complement reading of a 256-bit word.
\<close>

unbundle bit_operations_syntax

section \<open>Methods of big.Int\<close>

definition big_Sign :: "int \<Rightarrow> int" where
  "big_Sign x = sgn x"

text \<open>\<^verbatim>\<open>Div\<close> and \<^verbatim>\<open>Mod\<close> implement Euclidean division: the remainder is never negative.\<close>

definition big_Div :: "int \<Rightarrow> int \<Rightarrow> int" where
  "big_Div x y = (if 0 < y then x div y else - (x div (- y)))"

definition big_Mod :: "int \<Rightarrow> int \<Rightarrow> int" where
  "big_Mod x y = x mod \<bar>y\<bar>"

text \<open>\<^verbatim>\<open>Exp(x, y, m)\<close> is \<open>x\<^sup>y mod |m|\<close>; with \<open>m = 0\<close> it is \<open>x\<^sup>y\<close>, and 1 for \<open>y \<le> 0\<close>.\<close>

definition big_Exp :: "int \<Rightarrow> int \<Rightarrow> int \<Rightarrow> int" where
  "big_Exp x y m =
     (let z = (if y \<le> 0 then 1 else x ^ nat y) in if m = 0 then z else z mod \<bar>m\<bar>)"

text \<open>\<^verbatim>\<open>Bytes\<close> is the absolute value, big-endian and without leading zeros; \<^verbatim>\<open>SetBytes\<close> reads one.\<close>

function nat_bytes :: "nat \<Rightarrow> bytes" where
  "nat_bytes n = (if n = 0 then [] else nat_bytes (n div 256) @ [word_of_nat (n mod 256)])"
  by pat_completeness auto
termination
  by (relation "measure id") auto

declare nat_bytes.simps [simp del]

definition big_Bytes :: "int \<Rightarrow> bytes" where
  "big_Bytes x = nat_bytes (nat \<bar>x\<bar>)"

definition big_SetBytes :: "bytes \<Rightarrow> int" where
  "big_SetBytes bs = foldl (\<lambda>acc b. acc * 256 + uint b) 0 bs"

text \<open>The low 64 bits of the magnitude; \<^verbatim>\<open>Int64\<close> negates them for a negative number.\<close>

definition big_Uint64 :: "int \<Rightarrow> uint64" where
  "big_Uint64 x = word_of_int \<bar>x\<bar>"

definition big_Int64 :: "int \<Rightarrow> int" where
  "big_Int64 x = (let v = word_of_int \<bar>x\<bar> :: 64 word in sint (if x < 0 then - v else v))"

definition big_IsUint64 :: "int \<Rightarrow> bool" where
  "big_IsUint64 x \<longleftrightarrow> 0 \<le> x \<and> x < 2 ^ 64"

fun nat_BitLen :: "nat \<Rightarrow> nat" where
  "nat_BitLen n = (if n = 0 then 0 else Suc (nat_BitLen (n div 2)))"

declare nat_BitLen.simps [simp del]

definition big_BitLen :: "int \<Rightarrow> nat" where
  "big_BitLen x = nat_BitLen (nat \<bar>x\<bar>)"

section \<open>common/big.go\<close>

definition tt256 :: int where "tt256 = push_bit 256 1"
definition tt256m1 :: int where "tt256m1 = push_bit 256 1 - 1"
definition tt255 :: int where "tt255 = push_bit 255 1"

definition U256 :: "int \<Rightarrow> int" where
  "U256 x = x AND tt256m1"

definition S256 :: "int \<Rightarrow> int" where
  "S256 x = (if x < tt255 then x else x - tt256)"

definition BigPow :: "int \<Rightarrow> int \<Rightarrow> int" where
  "BigPow a b = big_Exp a b 0"

definition BitTest :: "int \<Rightarrow> nat \<Rightarrow> bool" where
  "BitTest num i = bit num i"

definition BigMax :: "int \<Rightarrow> int \<Rightarrow> int" where
  "BigMax x y = (if x < y then y else x)"

definition BigMin :: "int \<Rightarrow> int \<Rightarrow> int" where
  "BigMin x y = (if x > y then y else x)"

definition BigToBytes :: "int \<Rightarrow> nat \<Rightarrow> bytes" where
  "BigToBytes num base =
     (let ret = replicate (base div 8) 0 in
      if length (big_Bytes num) > base div 8 then big_Bytes num
      else take (length ret - length (big_Bytes num)) ret @ big_Bytes num)"

text \<open>The loop of \<^verbatim>\<open>FirstBitSet\<close> counts \<open>i\<close> up to the bit length.\<close>

function FirstBitSet_from :: "int \<Rightarrow> nat \<Rightarrow> nat" where
  "FirstBitSet_from v i =
     (if i < big_BitLen v then (if bit v i then i else FirstBitSet_from v (Suc i))
      else big_BitLen v)"
  by pat_completeness auto
termination
  by (relation "measure (\<lambda>(v, i). big_BitLen v - i)") auto

declare FirstBitSet_from.simps [simp del]

definition FirstBitSet :: "int \<Rightarrow> nat" where
  "FirstBitSet v = FirstBitSet_from v 0"

section \<open>common/bytes.go\<close>

definition RightPadBytes :: "bytes \<Rightarrow> nat \<Rightarrow> bytes" where
  "RightPadBytes s l =
     (if l < length s then s else s @ replicate (l - length s) 0)"

definition LeftPadBytes :: "bytes \<Rightarrow> nat \<Rightarrow> bytes" where
  "LeftPadBytes s l =
     (if l < length s then s else replicate (l - length s) 0 @ s)"

section \<open>common/types.go\<close>

text \<open>
  \<^verbatim>\<open>Hash\<close> and \<^verbatim>\<open>Address\<close> are byte arrays, modelled by the word they spell in big-endian order, so the
  left padding of \<^verbatim>\<open>SetBytes\<close> on a zero array is the value of the word. A longer slice is cut to
  its last 32 (20) bytes.
\<close>

definition BytesToHash :: "bytes \<Rightarrow> hash" where
  "BytesToHash b =
     word_of_int (big_SetBytes (if length b > 32 then drop (length b - 32) b else b))"

definition BigToHash :: "int \<Rightarrow> hash" where
  "BigToHash b = BytesToHash (big_Bytes b)"

definition Hash_Big :: "hash \<Rightarrow> int" where
  "Hash_Big h = uint h"

definition Hash_Bytes :: "hash \<Rightarrow> bytes" where
  "Hash_Bytes h = LeftPadBytes (big_Bytes (uint h)) 32"

definition EmptyHash :: "hash \<Rightarrow> bool" where
  "EmptyHash h \<longleftrightarrow> h = 0"

definition BytesToAddress :: "bytes \<Rightarrow> address" where
  "BytesToAddress b =
     word_of_int (big_SetBytes (if length b > 20 then drop (length b - 20) b else b))"

definition BigToAddress :: "int \<Rightarrow> address" where
  "BigToAddress b = BytesToAddress (big_Bytes b)"

definition Address_Big :: "address \<Rightarrow> int" where
  "Address_Big a = uint a"

definition Address_Bytes :: "address \<Rightarrow> bytes" where
  "Address_Bytes a = LeftPadBytes (big_Bytes (uint a)) 20"

definition EmptyAddress :: "address \<Rightarrow> bool" where
  "EmptyAddress a \<longleftrightarrow> a = 0"

section \<open>Byte strings and numbers\<close>

lemma big_SetBytes_Nil [simp]: "big_SetBytes [] = 0"
  by (simp add: big_SetBytes_def)

lemma big_SetBytes_snoc: "big_SetBytes (xs @ [b]) = big_SetBytes xs * 256 + uint b"
  by (simp add: big_SetBytes_def)

lemma big_SetBytes_append:
  "big_SetBytes (xs @ ys) = big_SetBytes xs * 256 ^ length ys + big_SetBytes ys"
proof (induction ys rule: rev_induct)
  case Nil
  show ?case by simp
next
  case (snoc y ys)
  have "big_SetBytes (xs @ ys @ [y]) = big_SetBytes (xs @ ys) * 256 + uint y"
    using big_SetBytes_snoc [of "xs @ ys" y] by simp
  then show ?case
    by (simp add: snoc.IH big_SetBytes_snoc algebra_simps)
qed

lemma big_SetBytes_nonneg [simp]: "0 \<le> big_SetBytes bs"
  by (induction bs rule: rev_induct) (simp_all add: big_SetBytes_snoc)

lemma big_SetBytes_less: "big_SetBytes bs < 256 ^ length bs"
proof (induction bs rule: rev_induct)
  case Nil
  show ?case by simp
next
  case (snoc b bs)
  have "uint b < 256"
    using uint_lt_pow [of b] by simp
  with snoc.IH have "big_SetBytes bs * 256 + uint b < 256 ^ length bs * 256"
    by linarith
  then show ?case by (simp add: big_SetBytes_snoc algebra_simps)
qed

lemma big_SetBytes_replicate_0 [simp]: "big_SetBytes (replicate n 0) = 0"
  by (induction n) (simp_all add: big_SetBytes_append [of "[0]", simplified] big_SetBytes_def)

lemma big_SetBytes_nat_bytes [simp]: "big_SetBytes (nat_bytes n) = int n"
proof (induction n rule: nat_bytes.induct)
  case (1 n)
  show ?case
  proof (cases "n = 0")
    case True
    then show ?thesis by (simp add: nat_bytes.simps)
  next
    case False
    have "uint (word_of_nat (n mod 256) :: byte) = int (n mod 256)"
      by (simp add: uint_word_of_int_eq unsigned_of_nat take_bit_eq_mod zmod_int)
    with False 1 have "big_SetBytes (nat_bytes n) = int (n div 256) * 256 + int (n mod 256)"
      by (simp only: nat_bytes.simps [of n] big_SetBytes_snoc if_False not_False_eq_True simp_thms)
    also have "\<dots> = int (n div 256 * 256 + n mod 256)"
      by (simp only: of_nat_add of_nat_mult of_nat_numeral)
    finally show ?thesis by (simp only: div_mult_mod_eq)
  qed
qed

lemma big_SetBytes_Bytes [simp]: "big_SetBytes (big_Bytes x) = \<bar>x\<bar>"
  by (simp add: big_Bytes_def)

lemma length_nat_bytes_le: "n < 256 ^ k \<Longrightarrow> length (nat_bytes n) \<le> k"
proof (induction k arbitrary: n)
  case 0
  then show ?case by (simp add: nat_bytes.simps)
next
  case (Suc k)
  then have "n div 256 < 256 ^ k" by (simp add: less_mult_imp_div_less mult.commute)
  then have "length (nat_bytes (n div 256)) \<le> k" by (rule Suc.IH)
  then show ?case by (simp add: nat_bytes.simps [of n])
qed

lemma length_big_Bytes_le: "\<bar>x\<bar> < 256 ^ k \<Longrightarrow> length (big_Bytes x) \<le> k"
  unfolding big_Bytes_def by (rule length_nat_bytes_le) (simp add: nat_less_iff)

lemma big_Bytes_eq_Nil [simp]: "big_Bytes x = [] \<longleftrightarrow> x = 0"
  by (auto simp: big_Bytes_def nat_bytes.simps)

lemma big_SetBytes_drop:
  "big_SetBytes (drop n b) = big_SetBytes b mod 256 ^ (length b - n)"
proof -
  have "big_SetBytes b = big_SetBytes (take n b) * 256 ^ length (drop n b) + big_SetBytes (drop n b)"
    using big_SetBytes_append [of "take n b" "drop n b"] by simp
  then show ?thesis
    using big_SetBytes_less [of "drop n b"] by (simp add: mod_pos_pos_trivial)
qed

lemma big_SetBytes_LeftPad [simp]: "big_SetBytes (LeftPadBytes s l) = big_SetBytes s"
  by (simp add: LeftPadBytes_def big_SetBytes_append)

lemma length_LeftPadBytes: "length (LeftPadBytes s l) = max l (length s)"
  by (simp add: LeftPadBytes_def)

lemma length_RightPadBytes: "length (RightPadBytes s l) = max l (length s)"
  by (simp add: RightPadBytes_def)

text \<open>Cutting to the last bytes is reduction modulo a power of 256.\<close>

lemma uint_BytesToHash: "uint (BytesToHash b) = big_SetBytes b mod 2 ^ 256"
proof -
  have p: "(256::int) ^ 32 = 2 ^ 256" by simp
  have "length b \<le> 32 \<Longrightarrow> big_SetBytes b < 2 ^ 256"
    using big_SetBytes_less [of b] power_increasing [of "length b" 32 "256::int"] p by linarith
  then show ?thesis
    by (auto simp: BytesToHash_def uint_word_of_int big_SetBytes_drop p)
qed

lemma uint_BytesToAddress: "uint (BytesToAddress b) = big_SetBytes b mod 2 ^ 160"
proof -
  have p: "(256::int) ^ 20 = 2 ^ 160" by simp
  have "length b \<le> 20 \<Longrightarrow> big_SetBytes b < 2 ^ 160"
    using big_SetBytes_less [of b] power_increasing [of "length b" 20 "256::int"] p by linarith
  then show ?thesis
    by (auto simp: BytesToAddress_def uint_word_of_int big_SetBytes_drop p)
qed

lemma BigToHash_word [big_simps]: "0 \<le> x \<Longrightarrow> BigToHash x = word_of_int x"
  by (rule word_uint_eqI) (simp add: BigToHash_def uint_BytesToHash uint_word_of_int)

lemma BigToAddress_word [big_simps]: "0 \<le> x \<Longrightarrow> BigToAddress x = word_of_int x"
  by (rule word_uint_eqI) (simp add: BigToAddress_def uint_BytesToAddress uint_word_of_int)

lemma length_Hash_Bytes [simp]: "length (Hash_Bytes h) = 32"
proof -
  have "length (big_Bytes (uint h)) \<le> 32"
    using uint_lt_pow [of h] by (intro length_big_Bytes_le) simp
  then show ?thesis by (simp add: Hash_Bytes_def length_LeftPadBytes)
qed

lemma length_Address_Bytes [simp]: "length (Address_Bytes a) = 20"
proof -
  have "length (big_Bytes (uint a)) \<le> 20"
    using uint_lt_pow [of a] by (intro length_big_Bytes_le) simp
  then show ?thesis by (simp add: Address_Bytes_def length_LeftPadBytes)
qed

lemma BytesToHash_Hash_Bytes [simp]: "BytesToHash (Hash_Bytes h) = h"
  by (rule word_uint_eqI)
    (use uint_lt_pow [of h] in \<open>simp add: uint_BytesToHash Hash_Bytes_def\<close>)

lemma BytesToAddress_Address_Bytes [simp]: "BytesToAddress (Address_Bytes a) = a"
  by (rule word_uint_eqI)
    (use uint_lt_pow [of a] in \<open>simp add: uint_BytesToAddress Address_Bytes_def\<close>)

section \<open>The 256-bit helpers\<close>

lemma tt256_eq [big_simps]: "tt256 = 2 ^ 256"
  by (simp add: tt256_def push_bit_eq_mult)

lemma tt255_eq [big_simps]: "tt255 = 2 ^ 255"
  by (simp add: tt255_def push_bit_eq_mult)

lemma U256_mod [big_simps]: "U256 x = x mod 2 ^ 256"
proof -
  have m: "tt256m1 = mask 256"
    by (simp only: tt256m1_def mask_eq_exp_minus_1 push_bit_eq_mult mult_1_left)
  show ?thesis
    by (simp only: U256_def m take_bit_eq_mask [symmetric] take_bit_eq_mod)
qed

lemma U256_bounds [simp]: "0 \<le> U256 x" "U256 x < 2 ^ 256"
  by (simp_all add: U256_mod)

lemma U256_id: "0 \<le> x \<Longrightarrow> x < 2 ^ 256 \<Longrightarrow> U256 x = x"
  by (simp add: U256_mod)

lemma U256_uint: "U256 x = uint (word_of_int x :: hash)"
  by (simp add: U256_mod uint_word_of_int)

lemma S256_sint:
  assumes "0 \<le> x" "x < 2 ^ 256"
  shows "S256 x = sint (word_of_int x :: hash)"
proof -
  have "sint (word_of_int x :: hash) = signed_take_bit 255 x"
    by (simp add: signed_of_int)
  also have "\<dots> = (if x < 2 ^ 255 then x else x - 2 ^ 256)"
  proof (cases "x < 2 ^ 255")
    case True
    with assms show ?thesis by (simp add: signed_take_bit_int_eq_self)
  next
    case False
    have "signed_take_bit 255 x = signed_take_bit 255 (x - 2 ^ 256)"
      by (rule signed_take_bit_eq_iff_take_bit_eq [THEN iffD2])
        (simp add: take_bit_eq_mod mod_diff_right_eq [symmetric])
    also have "\<dots> = x - 2 ^ 256"
      using False assms by (intro signed_take_bit_int_eq_self) simp_all
    finally show ?thesis using False by simp
  qed
  finally show ?thesis by (simp add: S256_def tt255_eq tt256_eq)
qed

lemma BigMax_max [big_simps]: "BigMax x y = max x y"
  by (simp add: BigMax_def)

lemma BigMin_min [big_simps]: "BigMin x y = min x y"
  by (simp add: BigMin_def)

lemma big_Uint64_small [big_simps]:
  "0 \<le> x \<Longrightarrow> x < 2 ^ 64 \<Longrightarrow> unat (big_Uint64 x) = nat x"
  by (simp add: big_Uint64_def unat_of_int_small)

lemma big_Int64_small [big_simps]: "0 \<le> x \<Longrightarrow> x < 2 ^ 63 \<Longrightarrow> big_Int64 x = x"
  by (simp add: big_Int64_def sint_of_int_small)

lemma length_BigToBytes_256:
  "0 \<le> x \<Longrightarrow> x < 2 ^ 256 \<Longrightarrow> length (BigToBytes x 256) = 32"
  using length_big_Bytes_le [of x 32] by (simp add: BigToBytes_def)

lemma big_SetBytes_BigToBytes: "big_SetBytes (BigToBytes x n) = \<bar>x\<bar>"
  by (simp add: BigToBytes_def Let_def big_SetBytes_append)

lemma big_Sign_eq_0 [simp]: "big_Sign x = 0 \<longleftrightarrow> x = 0"
  by (simp add: big_Sign_def sgn_0_0)

lemma big_Sign_pos [simp]: "0 < big_Sign x \<longleftrightarrow> 0 < x" "big_Sign x < 0 \<longleftrightarrow> x < 0"
  by (simp_all add: big_Sign_def sgn_1_pos sgn_if)

end
