(* ===== verification/Opcodes.thy ===== *)
theory Opcodes
  imports Prelude
begin

text \<open>
  \<^verbatim>\<open>core/vm/opcodes.go\<close>: the opcodes, the conversion of a byte of contract code to an opcode, and the
  two tables that print and parse opcode names. \<^verbatim>\<open>OpCode\<close> is a byte type with named constants; here
  each constant is a constructor, the numbered families \<^verbatim>\<open>PUSH1 .. PUSH32\<close>, \<^verbatim>\<open>DUP1 .. DUP16\<close>,
  \<^verbatim>\<open>SWAP1 .. SWAP16\<close> and \<^verbatim>\<open>LOG0 .. LOG4\<close> are one constructor each with the number as argument, and a
  byte without a constant is \<open>UNDEFINED\<close>. \<open>opcode_byte\<close> is the value of a constant and \<open>OpCode\<close> the
  conversion \<^verbatim>\<open>OpCode(b)\<close>.
\<close>

datatype (plugins only: code size) OpCode =
    STOP | ADD | MUL | SUB | DIV | SDIV | MOD | SMOD | ADDMOD | MULMOD | EXP | SIGNEXTEND | LT
    | GT | SLT | SGT | EQ | ISZERO | AND_op | OR_op | XOR_op | NOT_op | BYTE | SHA3 | ADDRESS
    | BALANCE | ORIGIN | CALLER | CALLVALUE | CALLDATALOAD | CALLDATASIZE | CALLDATACOPY
    | CODESIZE | CODECOPY | GASPRICE | EXTCODESIZE | EXTCODECOPY | RETURNDATASIZE
    | RETURNDATACOPY | BLOCKHASH | COINBASE | TIMESTAMP | NUMBER | DIFFICULTY | GASLIMIT | POP
    | MLOAD | MSTORE | MSTORE8 | SLOAD | SSTORE | JUMP | JUMPI | PC | MSIZE | GAS | JUMPDEST
    | PUSHn nat | DUPn nat | SWAPn nat | LOGn nat | PUSH | DUP | SWAP | CREATE | CALL
    | CALLCODE | RETURN | DELEGATECALL | STATICCALL | REVERT | SUICIDE | UNDEFINED byte

primrec opcode_byte :: "OpCode \<Rightarrow> byte" where
  "opcode_byte STOP = 0x00"
| "opcode_byte ADD = 0x01"
| "opcode_byte MUL = 0x02"
| "opcode_byte SUB = 0x03"
| "opcode_byte DIV = 0x04"
| "opcode_byte SDIV = 0x05"
| "opcode_byte MOD = 0x06"
| "opcode_byte SMOD = 0x07"
| "opcode_byte ADDMOD = 0x08"
| "opcode_byte MULMOD = 0x09"
| "opcode_byte EXP = 0x0a"
| "opcode_byte SIGNEXTEND = 0x0b"
| "opcode_byte LT = 0x10"
| "opcode_byte GT = 0x11"
| "opcode_byte SLT = 0x12"
| "opcode_byte SGT = 0x13"
| "opcode_byte EQ = 0x14"
| "opcode_byte ISZERO = 0x15"
| "opcode_byte AND_op = 0x16"
| "opcode_byte OR_op = 0x17"
| "opcode_byte XOR_op = 0x18"
| "opcode_byte NOT_op = 0x19"
| "opcode_byte BYTE = 0x1a"
| "opcode_byte SHA3 = 0x20"
| "opcode_byte ADDRESS = 0x30"
| "opcode_byte BALANCE = 0x31"
| "opcode_byte ORIGIN = 0x32"
| "opcode_byte CALLER = 0x33"
| "opcode_byte CALLVALUE = 0x34"
| "opcode_byte CALLDATALOAD = 0x35"
| "opcode_byte CALLDATASIZE = 0x36"
| "opcode_byte CALLDATACOPY = 0x37"
| "opcode_byte CODESIZE = 0x38"
| "opcode_byte CODECOPY = 0x39"
| "opcode_byte GASPRICE = 0x3a"
| "opcode_byte EXTCODESIZE = 0x3b"
| "opcode_byte EXTCODECOPY = 0x3c"
| "opcode_byte RETURNDATASIZE = 0x3d"
| "opcode_byte RETURNDATACOPY = 0x3e"
| "opcode_byte BLOCKHASH = 0x40"
| "opcode_byte COINBASE = 0x41"
| "opcode_byte TIMESTAMP = 0x42"
| "opcode_byte NUMBER = 0x43"
| "opcode_byte DIFFICULTY = 0x44"
| "opcode_byte GASLIMIT = 0x45"
| "opcode_byte POP = 0x50"
| "opcode_byte MLOAD = 0x51"
| "opcode_byte MSTORE = 0x52"
| "opcode_byte MSTORE8 = 0x53"
| "opcode_byte SLOAD = 0x54"
| "opcode_byte SSTORE = 0x55"
| "opcode_byte JUMP = 0x56"
| "opcode_byte JUMPI = 0x57"
| "opcode_byte PC = 0x58"
| "opcode_byte MSIZE = 0x59"
| "opcode_byte GAS = 0x5a"
| "opcode_byte JUMPDEST = 0x5b"
| "opcode_byte PUSH = 0xb0"
| "opcode_byte DUP = 0xb1"
| "opcode_byte SWAP = 0xb2"
| "opcode_byte CREATE = 0xf0"
| "opcode_byte CALL = 0xf1"
| "opcode_byte CALLCODE = 0xf2"
| "opcode_byte RETURN = 0xf3"
| "opcode_byte DELEGATECALL = 0xf4"
| "opcode_byte STATICCALL = 0xfa"
| "opcode_byte REVERT = 0xfd"
| "opcode_byte SUICIDE = 0xff"
| "opcode_byte (PUSHn k) = 0x60 + word_of_nat (k - 1)"
| "opcode_byte (DUPn k) = 0x80 + word_of_nat (k - 1)"
| "opcode_byte (SWAPn k) = 0x90 + word_of_nat (k - 1)"
| "opcode_byte (LOGn k) = 0xa0 + word_of_nat k"
| "opcode_byte (UNDEFINED b) = b"

text \<open>Each list is one \<^verbatim>\<open>const\<close> block, whose values count up from its first.\<close>

definition OpCode :: "byte \<Rightarrow> OpCode" where
  "OpCode b =
     (let n = unat b in
      if n \<le> 0x0b
      then [STOP, ADD, MUL, SUB, DIV, SDIV, MOD, SMOD, ADDMOD, MULMOD, EXP, SIGNEXTEND] ! n
      else if 0x10 \<le> n \<and> n \<le> 0x1a
      then [LT, GT, SLT, SGT, EQ, ISZERO, AND_op, OR_op, XOR_op, NOT_op, BYTE] ! (n - 0x10)
      else if n = 0x20 then SHA3
      else if 0x30 \<le> n \<and> n \<le> 0x3e
      then [ADDRESS, BALANCE, ORIGIN, CALLER, CALLVALUE, CALLDATALOAD, CALLDATASIZE,
             CALLDATACOPY, CODESIZE, CODECOPY, GASPRICE, EXTCODESIZE, EXTCODECOPY,
             RETURNDATASIZE, RETURNDATACOPY] ! (n - 0x30)
      else if 0x40 \<le> n \<and> n \<le> 0x45
      then [BLOCKHASH, COINBASE, TIMESTAMP, NUMBER, DIFFICULTY, GASLIMIT] ! (n - 0x40)
      else if 0x50 \<le> n \<and> n \<le> 0x5b
      then [POP, MLOAD, MSTORE, MSTORE8, SLOAD, SSTORE, JUMP, JUMPI, PC, MSIZE, GAS,
             JUMPDEST] ! (n - 0x50)
      else if 0x60 \<le> n \<and> n \<le> 0x7f then PUSHn (n - 0x60 + 1)
      else if 0x80 \<le> n \<and> n \<le> 0x8f then DUPn (n - 0x80 + 1)
      else if 0x90 \<le> n \<and> n \<le> 0x9f then SWAPn (n - 0x90 + 1)
      else if 0xa0 \<le> n \<and> n \<le> 0xa4 then LOGn (n - 0xa0)
      else if 0xb0 \<le> n \<and> n \<le> 0xb2 then [PUSH, DUP, SWAP] ! (n - 0xb0)
      else if 0xf0 \<le> n \<and> n \<le> 0xf4
      then [CREATE, CALL, CALLCODE, RETURN, DELEGATECALL] ! (n - 0xf0)
      else if n = 0xfa then STATICCALL
      else if n = 0xfd then REVERT
      else if n = 0xff then SUICIDE
      else UNDEFINED b)"

text \<open>The opcodes that a byte can denote: the numbered families in their range.\<close>

definition real_opcode :: "OpCode \<Rightarrow> bool" where
  "real_opcode op =
     (case op of
        PUSHn k \<Rightarrow> 1 \<le> k \<and> k \<le> 32
      | DUPn k \<Rightarrow> 1 \<le> k \<and> k \<le> 16
      | SWAPn k \<Rightarrow> 1 \<le> k \<and> k \<le> 16
      | LOGn k \<Rightarrow> k \<le> 4
      | UNDEFINED b \<Rightarrow> OpCode b = UNDEFINED b
      | _ \<Rightarrow> True)"

definition IsPush :: "OpCode \<Rightarrow> bool" where
  "IsPush op = (case op of PUSHn k \<Rightarrow> True | _ \<Rightarrow> False)"

definition IsStaticJump :: "OpCode \<Rightarrow> bool" where
  "IsStaticJump op \<longleftrightarrow> op = JUMP"

definition opCodeToString :: "(OpCode \<times> string) list" where
  "opCodeToString = [
   (STOP, ''STOP''), (ADD, ''ADD''), (MUL, ''MUL''), (SUB, ''SUB''), (DIV, ''DIV''),
   (SDIV, ''SDIV''), (MOD, ''MOD''), (SMOD, ''SMOD''), (EXP, ''EXP''), (NOT_op, ''NOT''),
   (LT, ''LT''), (GT, ''GT''), (SLT, ''SLT''), (SGT, ''SGT''), (EQ, ''EQ''),
   (ISZERO, ''ISZERO''), (SIGNEXTEND, ''SIGNEXTEND''), (AND_op, ''AND''), (OR_op, ''OR''),
   (XOR_op, ''XOR''), (BYTE, ''BYTE''), (ADDMOD, ''ADDMOD''), (MULMOD, ''MULMOD''),
   (SHA3, ''SHA3''), (ADDRESS, ''ADDRESS''), (BALANCE, ''BALANCE''), (ORIGIN, ''ORIGIN''),
   (CALLER, ''CALLER''), (CALLVALUE, ''CALLVALUE''), (CALLDATALOAD, ''CALLDATALOAD''),
   (CALLDATASIZE, ''CALLDATASIZE''), (CALLDATACOPY, ''CALLDATACOPY''),
   (CODESIZE, ''CODESIZE''), (CODECOPY, ''CODECOPY''), (GASPRICE, ''TXGASPRICE''),
   (RETURNDATASIZE, ''RETURNDATASIZE''), (RETURNDATACOPY, ''RETURNDATACOPY''),
   (BLOCKHASH, ''BLOCKHASH''), (COINBASE, ''COINBASE''), (TIMESTAMP, ''TIMESTAMP''),
   (NUMBER, ''NUMBER''), (DIFFICULTY, ''DIFFICULTY''), (GASLIMIT, ''GASLIMIT''),
   (EXTCODESIZE, ''EXTCODESIZE''), (EXTCODECOPY, ''EXTCODECOPY''), (POP, ''POP''),
   (MLOAD, ''MLOAD''), (MSTORE, ''MSTORE''), (MSTORE8, ''MSTORE8''), (SLOAD, ''SLOAD''),
   (SSTORE, ''SSTORE''), (JUMP, ''JUMP''), (JUMPI, ''JUMPI''), (PC, ''PC''),
   (MSIZE, ''MSIZE''), (GAS, ''GAS''), (JUMPDEST, ''JUMPDEST''), (PUSHn 1, ''PUSH1''),
   (PUSHn 2, ''PUSH2''), (PUSHn 3, ''PUSH3''), (PUSHn 4, ''PUSH4''), (PUSHn 5, ''PUSH5''),
   (PUSHn 6, ''PUSH6''), (PUSHn 7, ''PUSH7''), (PUSHn 8, ''PUSH8''), (PUSHn 9, ''PUSH9''),
   (PUSHn 10, ''PUSH10''), (PUSHn 11, ''PUSH11''), (PUSHn 12, ''PUSH12''),
   (PUSHn 13, ''PUSH13''), (PUSHn 14, ''PUSH14''), (PUSHn 15, ''PUSH15''),
   (PUSHn 16, ''PUSH16''), (PUSHn 17, ''PUSH17''), (PUSHn 18, ''PUSH18''),
   (PUSHn 19, ''PUSH19''), (PUSHn 20, ''PUSH20''), (PUSHn 21, ''PUSH21''),
   (PUSHn 22, ''PUSH22''), (PUSHn 23, ''PUSH23''), (PUSHn 24, ''PUSH24''),
   (PUSHn 25, ''PUSH25''), (PUSHn 26, ''PUSH26''), (PUSHn 27, ''PUSH27''),
   (PUSHn 28, ''PUSH28''), (PUSHn 29, ''PUSH29''), (PUSHn 30, ''PUSH30''),
   (PUSHn 31, ''PUSH31''), (PUSHn 32, ''PUSH32''), (DUPn 1, ''DUP1''), (DUPn 2, ''DUP2''),
   (DUPn 3, ''DUP3''), (DUPn 4, ''DUP4''), (DUPn 5, ''DUP5''), (DUPn 6, ''DUP6''),
   (DUPn 7, ''DUP7''), (DUPn 8, ''DUP8''), (DUPn 9, ''DUP9''), (DUPn 10, ''DUP10''),
   (DUPn 11, ''DUP11''), (DUPn 12, ''DUP12''), (DUPn 13, ''DUP13''), (DUPn 14, ''DUP14''),
   (DUPn 15, ''DUP15''), (DUPn 16, ''DUP16''), (SWAPn 1, ''SWAP1''), (SWAPn 2, ''SWAP2''),
   (SWAPn 3, ''SWAP3''), (SWAPn 4, ''SWAP4''), (SWAPn 5, ''SWAP5''), (SWAPn 6, ''SWAP6''),
   (SWAPn 7, ''SWAP7''), (SWAPn 8, ''SWAP8''), (SWAPn 9, ''SWAP9''), (SWAPn 10, ''SWAP10''),
   (SWAPn 11, ''SWAP11''), (SWAPn 12, ''SWAP12''), (SWAPn 13, ''SWAP13''),
   (SWAPn 14, ''SWAP14''), (SWAPn 15, ''SWAP15''), (SWAPn 16, ''SWAP16''), (LOGn 0, ''LOG0''),
   (LOGn 1, ''LOG1''), (LOGn 2, ''LOG2''), (LOGn 3, ''LOG3''), (LOGn 4, ''LOG4''),
   (CREATE, ''CREATE''), (CALL, ''CALL''), (RETURN, ''RETURN''), (CALLCODE, ''CALLCODE''),
   (DELEGATECALL, ''DELEGATECALL''), (STATICCALL, ''STATICCALL''), (REVERT, ''REVERT''),
   (SUICIDE, ''SUICIDE''), (PUSH, ''PUSH''), (DUP, ''DUP''), (SWAP, ''SWAP'')]"

definition stringToOp :: "(string \<times> OpCode) list" where
  "stringToOp = [
   (''STOP'', STOP), (''ADD'', ADD), (''MUL'', MUL), (''SUB'', SUB), (''DIV'', DIV),
   (''SDIV'', SDIV), (''MOD'', MOD), (''SMOD'', SMOD), (''EXP'', EXP), (''NOT'', NOT_op),
   (''LT'', LT), (''GT'', GT), (''SLT'', SLT), (''SGT'', SGT), (''EQ'', EQ),
   (''ISZERO'', ISZERO), (''SIGNEXTEND'', SIGNEXTEND), (''AND'', AND_op), (''OR'', OR_op),
   (''XOR'', XOR_op), (''BYTE'', BYTE), (''ADDMOD'', ADDMOD), (''MULMOD'', MULMOD),
   (''SHA3'', SHA3), (''ADDRESS'', ADDRESS), (''BALANCE'', BALANCE), (''ORIGIN'', ORIGIN),
   (''CALLER'', CALLER), (''CALLVALUE'', CALLVALUE), (''CALLDATALOAD'', CALLDATALOAD),
   (''CALLDATASIZE'', CALLDATASIZE), (''CALLDATACOPY'', CALLDATACOPY),
   (''DELEGATECALL'', DELEGATECALL), (''CODESIZE'', CODESIZE), (''CODECOPY'', CODECOPY),
   (''GASPRICE'', GASPRICE), (''BLOCKHASH'', BLOCKHASH), (''COINBASE'', COINBASE),
   (''TIMESTAMP'', TIMESTAMP), (''NUMBER'', NUMBER), (''DIFFICULTY'', DIFFICULTY),
   (''GASLIMIT'', GASLIMIT), (''EXTCODESIZE'', EXTCODESIZE), (''EXTCODECOPY'', EXTCODECOPY),
   (''RETURNDATASIZE'', RETURNDATASIZE), (''RETURNDATACOPY'', RETURNDATACOPY), (''POP'', POP),
   (''MLOAD'', MLOAD), (''MSTORE'', MSTORE), (''MSTORE8'', MSTORE8), (''SLOAD'', SLOAD),
   (''SSTORE'', SSTORE), (''JUMP'', JUMP), (''JUMPI'', JUMPI), (''PC'', PC),
   (''MSIZE'', MSIZE), (''GAS'', GAS), (''JUMPDEST'', JUMPDEST), (''PUSH1'', PUSHn 1),
   (''PUSH2'', PUSHn 2), (''PUSH3'', PUSHn 3), (''PUSH4'', PUSHn 4), (''PUSH5'', PUSHn 5),
   (''PUSH6'', PUSHn 6), (''PUSH7'', PUSHn 7), (''PUSH8'', PUSHn 8), (''PUSH9'', PUSHn 9),
   (''PUSH10'', PUSHn 10), (''PUSH11'', PUSHn 11), (''PUSH12'', PUSHn 12),
   (''PUSH13'', PUSHn 13), (''PUSH14'', PUSHn 14), (''PUSH15'', PUSHn 15),
   (''PUSH16'', PUSHn 16), (''PUSH17'', PUSHn 17), (''PUSH18'', PUSHn 18),
   (''PUSH19'', PUSHn 19), (''PUSH20'', PUSHn 20), (''PUSH21'', PUSHn 21),
   (''PUSH22'', PUSHn 22), (''PUSH23'', PUSHn 23), (''PUSH24'', PUSHn 24),
   (''PUSH25'', PUSHn 25), (''PUSH26'', PUSHn 26), (''PUSH27'', PUSHn 27),
   (''PUSH28'', PUSHn 28), (''PUSH29'', PUSHn 29), (''PUSH30'', PUSHn 30),
   (''PUSH31'', PUSHn 31), (''PUSH32'', PUSHn 32), (''DUP1'', DUPn 1), (''DUP2'', DUPn 2),
   (''DUP3'', DUPn 3), (''DUP4'', DUPn 4), (''DUP5'', DUPn 5), (''DUP6'', DUPn 6),
   (''DUP7'', DUPn 7), (''DUP8'', DUPn 8), (''DUP9'', DUPn 9), (''DUP10'', DUPn 10),
   (''DUP11'', DUPn 11), (''DUP12'', DUPn 12), (''DUP13'', DUPn 13), (''DUP14'', DUPn 14),
   (''DUP15'', DUPn 15), (''DUP16'', DUPn 16), (''SWAP1'', SWAPn 1), (''SWAP2'', SWAPn 2),
   (''SWAP3'', SWAPn 3), (''SWAP4'', SWAPn 4), (''SWAP5'', SWAPn 5), (''SWAP6'', SWAPn 6),
   (''SWAP7'', SWAPn 7), (''SWAP8'', SWAPn 8), (''SWAP9'', SWAPn 9), (''SWAP10'', SWAPn 10),
   (''SWAP11'', SWAPn 11), (''SWAP12'', SWAPn 12), (''SWAP13'', SWAPn 13),
   (''SWAP14'', SWAPn 14), (''SWAP15'', SWAPn 15), (''SWAP16'', SWAPn 16), (''LOG0'', LOGn 0),
   (''LOG1'', LOGn 1), (''LOG2'', LOGn 2), (''LOG3'', LOGn 3), (''LOG4'', LOGn 4),
   (''CREATE'', CREATE), (''CALL'', CALL), (''RETURN'', RETURN), (''CALLCODE'', CALLCODE),
   (''STATICCALL'', STATICCALL), (''REVERT'', REVERT), (''SUICIDE'', SUICIDE)]"

text \<open>
  \<^verbatim>\<open>String\<close> prints \<^verbatim>\<open>"Missing opcode 0x.."\<close> for an opcode without a name. A key missing from the map
  \<^verbatim>\<open>stringToOp\<close> gives the zero value of \<^verbatim>\<open>OpCode\<close>, which is \<^verbatim>\<open>STOP\<close>.
\<close>

definition hex_digit :: "nat \<Rightarrow> char" where
  "hex_digit n = ''0123456789abcdef'' ! n"

definition hex_string :: "nat \<Rightarrow> string" where
  "hex_string n = (if n < 16 then [hex_digit n] else [hex_digit (n div 16 mod 16), hex_digit (n mod 16)])"

definition OpCode_String :: "OpCode \<Rightarrow> string" where
  "OpCode_String op =
     (case map_of opCodeToString op of
        Some str \<Rightarrow> str
      | None \<Rightarrow> ''Missing opcode 0x'' @ hex_string (unat (opcode_byte op)))"

definition StringToOp :: "string \<Rightarrow> OpCode" where
  "StringToOp str = (case map_of stringToOp str of Some op \<Rightarrow> op | None \<Rightarrow> STOP)"

end
