(* ===== verification/Vm_Types.thy ===== *)
theory Vm_Types
  imports Big Opcodes
begin

text \<open>
  The data of \<^verbatim>\<open>core/vm\<close>: the error values of the virtual machine, the gas table and rule set of a
  chain, logs, precompiled accounts, contracts (\<^verbatim>\<open>contract.go\<close>), and the two interfaces the machine is
  written against (\<^verbatim>\<open>environment.go\<close>). A Go interface is a record of its methods: \<open>Database\<close> is the
  method table of \<^verbatim>\<open>vm.Database\<close>, \<^verbatim>\<open>vm.Account\<close> and the snapshot methods of \<^verbatim>\<open>vm.Environment\<close>, over a
  state of type \<open>'d\<close>. A getter returns the state as well, because the implementation caches what it
  loads. \<open>Environment\<close> holds the block context, the state and the mutable fields of \<^verbatim>\<open>VMEnv\<close> and \<^verbatim>\<open>EVM\<close>.
\<close>

section \<open>Errors\<close>

datatype vm_error =
    OutOfGasError
  | CodeStoreOutOfGasError
  | ErrRevert
  | StackUnderflow nat nat
  | StackLimitExceeded nat
  | InvalidOpcode OpCode
  | ErrWriteProtection
  | ErrReturnDataOutOfBounds
  | ErrInvalidJump
  | ErrCallCreateDepth
  | ErrMaxCodeSizeExceeded
  | ErrContractAddressCollision
  | ValueTransferError int int
  | ErrBadPairingInput
  | PrecompileError string

section \<open>Gas table and rule set\<close>

text \<open>\<^verbatim>\<open>CreateBySuicide\<close> may be nil, which means it is not charged.\<close>

record GasTable =
  ExtcodeSize :: int
  ExtcodeCopy :: int
  BalanceGas :: int
  SLoad :: int
  Calls :: int
  SuicideGas :: int
  ExpByte :: int
  CreateBySuicide :: "int option"

record RuleSet =
  IsHomestead :: "int \<Rightarrow> bool"
  IsAtlantis :: "int \<Rightarrow> bool"
  IsHardfork2 :: "int \<Rightarrow> bool"
  RuleSet_GasTable :: "int \<Rightarrow> GasTable"

section \<open>Logs\<close>

record Log =
  Log_Address :: address
  Topics :: "hash list"
  Data :: bytes
  Log_BlockNumber :: uint64
  TxHash :: hash
  TxIndex :: nat
  BlockHash :: hash
  Log_Index :: nat

definition NewLog :: "address \<Rightarrow> hash list \<Rightarrow> bytes \<Rightarrow> uint64 \<Rightarrow> Log" where
  "NewLog addr topics data number =
     \<lparr>Log_Address = addr, Topics = topics, Data = data, Log_BlockNumber = number,
      TxHash = 0, TxIndex = 0, BlockHash = 0, Log_Index = 0\<rparr>"

section \<open>Precompiled accounts\<close>

record PrecompiledAccount =
  Precompiled_Gas :: "bytes \<Rightarrow> int"
  Precompiled_fn :: "bytes \<Rightarrow> (bytes \<times> vm_error option) option"

definition Precompiled_Call :: "PrecompiledAccount \<Rightarrow> bytes \<Rightarrow> (bytes \<times> vm_error option) option" where
  "Precompiled_Call p input = Precompiled_fn p input"

section \<open>Contracts\<close>

text \<open>
  \<^verbatim>\<open>Contract\<close>. The pointer to the caller is not a field: the functions that create a contract hold the
  caller and give it its gas back when the contract is finished. \<^verbatim>\<open>self\<close> is used for its address
  only. The field \<^verbatim>\<open>Args\<close> is never read.
\<close>

record Contract =
  CallerAddress :: address
  self_Address :: address
  c_jumpdests :: "hash \<rightharpoonup> bytes"
  Code :: bytes
  CodeHash :: hash
  CodeAddr :: "address option"
  Input :: bytes
  c_value :: int
  Gas :: int
  UsedGas :: int
  Price :: int
  c_DelegateCall :: bool

text \<open>A \<^verbatim>\<open>ContractRef\<close> is an account (a state object) or a running contract.\<close>

datatype ContractRef = AccountRef address | ParentRef Contract

fun Ref_Address :: "ContractRef \<Rightarrow> address" where
  "Ref_Address (AccountRef a) = a"
| "Ref_Address (ParentRef c) = self_Address c"

text \<open>\<^verbatim>\<open>Value\<close> panics on a state object.\<close>

fun Ref_Value :: "ContractRef \<Rightarrow> int option" where
  "Ref_Value (AccountRef a) = None"
| "Ref_Value (ParentRef c) = Some (c_value c)"

definition useGas :: "int \<Rightarrow> int \<Rightarrow> (bool \<times> int)" where
  "useGas gas amount = (if gas < amount then (False, gas) else (True, gas - amount))"

definition UseGas :: "Contract \<Rightarrow> int \<Rightarrow> bool \<times> Contract" where
  "UseGas c gas =
     (case useGas (Gas c) gas of
        (ok, left) \<Rightarrow>
          (ok, if ok then c\<lparr>Gas := left, UsedGas := UsedGas c + gas\<rparr> else c\<lparr>Gas := left\<rparr>))"

text \<open>
  \<^verbatim>\<open>c.UseGas(c.Gas)\<close> passes the contract's own gas counter as the amount. Both names denote one
  \<^verbatim>\<open>big.Int\<close>: after the subtraction the amount itself is 0, and 0 is added to \<^verbatim>\<open>UsedGas\<close>.
\<close>

definition UseAllGas :: "Contract \<Rightarrow> Contract" where
  "UseAllGas c =
     (case useGas (Gas c) (Gas c) of (ok, left) \<Rightarrow>
        if ok then c\<lparr>Gas := left, UsedGas := UsedGas c + left\<rparr> else c\<lparr>Gas := left\<rparr>)"

definition ReturnGas :: "Contract \<Rightarrow> int \<Rightarrow> Contract" where
  "ReturnGas c gas = c\<lparr>Gas := Gas c + gas, UsedGas := UsedGas c - gas\<rparr>"

text \<open>Returning gas to a state object does nothing.\<close>

fun Ref_ReturnGas :: "ContractRef \<Rightarrow> int \<Rightarrow> ContractRef" where
  "Ref_ReturnGas (AccountRef a) gas = AccountRef a"
| "Ref_ReturnGas (ParentRef c) gas = ParentRef (ReturnGas c gas)"

definition NewContract :: "ContractRef \<Rightarrow> address \<Rightarrow> int \<Rightarrow> int \<Rightarrow> int \<Rightarrow> Contract" where
  "NewContract caller object v gas price =
     \<lparr>CallerAddress = Ref_Address caller, self_Address = object,
      c_jumpdests = (case caller of ParentRef p \<Rightarrow> c_jumpdests p | AccountRef a \<Rightarrow> Map.empty),
      Code = [], CodeHash = 0, CodeAddr = None, Input = [],
      c_value = v, Gas = gas, UsedGas = 0, Price = price, c_DelegateCall = False\<rparr>"

text \<open>\<^verbatim>\<open>AsDelegate\<close> asserts that the caller is a contract, and panics otherwise.\<close>

fun AsDelegate :: "ContractRef \<Rightarrow> Contract \<Rightarrow> Contract option" where
  "AsDelegate (AccountRef a) c = None"
| "AsDelegate (ParentRef p) c = Some (c\<lparr>c_DelegateCall := True, CallerAddress := CallerAddress p\<rparr>)"

definition SetCallCode :: "Contract \<Rightarrow> address option \<Rightarrow> hash \<Rightarrow> bytes \<Rightarrow> Contract" where
  "SetCallCode c addr h code = c\<lparr>Code := code, CodeHash := h, CodeAddr := addr\<rparr>"

text \<open>
  \<^verbatim>\<open>Finalise\<close> returns the gas that is left to the caller. The jump destination map is one Go map
  shared with a calling contract, so what the callee added to it is there for the caller too.
\<close>

fun Finalise :: "ContractRef \<Rightarrow> Contract \<Rightarrow> ContractRef" where
  "Finalise (AccountRef a) c = AccountRef a"
| "Finalise (ParentRef p) c = ParentRef (ReturnGas (p\<lparr>c_jumpdests := c_jumpdests c\<rparr>) (Gas c))"

definition GetByte :: "Contract \<Rightarrow> uint64 \<Rightarrow> byte" where
  "GetByte c n = (if unat n < length (Code c) then Code c ! unat n else 0)"

definition GetOp :: "Contract \<Rightarrow> uint64 \<Rightarrow> OpCode" where
  "GetOp c n = OpCode (GetByte c n)"

section \<open>The interfaces of environment.go\<close>

record 'd Database =
  db_GetBalance :: "'d \<Rightarrow> address \<Rightarrow> int \<times> 'd"
  db_AddBalance :: "'d \<Rightarrow> address \<Rightarrow> int \<Rightarrow> 'd"
  db_GetNonce :: "'d \<Rightarrow> address \<Rightarrow> uint64 \<times> 'd"
  db_SetNonce :: "'d \<Rightarrow> address \<Rightarrow> uint64 \<Rightarrow> 'd"
  db_GetCodeHash :: "'d \<Rightarrow> address \<Rightarrow> hash \<times> 'd"
  db_GetCodeSize :: "'d \<Rightarrow> address \<Rightarrow> nat \<times> 'd"
  db_GetCode :: "'d \<Rightarrow> address \<Rightarrow> bytes \<times> 'd"
  db_SetCode :: "'d \<Rightarrow> address \<Rightarrow> bytes \<Rightarrow> 'd"
  db_AddRefund :: "'d \<Rightarrow> int \<Rightarrow> 'd"
  db_GetRefund :: "'d \<Rightarrow> int"
  db_GetState :: "'d \<Rightarrow> address \<Rightarrow> hash \<Rightarrow> hash \<times> 'd"
  db_SetState :: "'d \<Rightarrow> address \<Rightarrow> hash \<Rightarrow> hash \<Rightarrow> 'd"
  db_Suicide :: "'d \<Rightarrow> address \<Rightarrow> bool \<times> 'd"
  db_HasSuicided :: "'d \<Rightarrow> address \<Rightarrow> bool \<times> 'd"
  db_Exist :: "'d \<Rightarrow> address \<Rightarrow> bool \<times> 'd"
  db_Empty :: "'d \<Rightarrow> address \<Rightarrow> bool \<times> 'd"
  db_CreateAccount :: "'d \<Rightarrow> address \<Rightarrow> 'd"
  acct_SubBalance :: "'d \<Rightarrow> address \<Rightarrow> int \<Rightarrow> 'd option"
  acct_AddBalance :: "'d \<Rightarrow> address \<Rightarrow> int \<Rightarrow> 'd option"
  db_AddLog :: "'d \<Rightarrow> Log \<Rightarrow> 'd"
  db_Snapshot :: "'d \<Rightarrow> nat \<times> 'd"
  db_RevertToSnapshot :: "'d \<Rightarrow> nat \<Rightarrow> 'd option"

text \<open>
  \<^verbatim>\<open>env_Keccak256\<close>, \<^verbatim>\<open>env_CreateAddress\<close> and the two precompile tables stand for package crypto and
  \<^verbatim>\<open>contracts.go\<close>; they are fixed for a run, as are the block fields.
\<close>

record 'd Environment =
  env_RuleSet :: RuleSet
  env_Ops :: "'d Database"
  env_Keccak256 :: "bytes \<Rightarrow> hash"
  env_CreateAddress :: "address \<Rightarrow> uint64 \<Rightarrow> address"
  env_PrecompiledPreAtlantis :: "address \<rightharpoonup> PrecompiledAccount"
  env_PrecompiledAtlantis :: "address \<rightharpoonup> PrecompiledAccount"
  env_StartingNonce :: uint64
  env_Origin :: address
  env_BlockNumber :: int
  env_GetHash :: "uint64 \<Rightarrow> hash"
  env_Coinbase :: address
  env_Time :: int
  env_Difficulty :: int
  env_GasLimit :: int
  env_Db :: 'd
  env_Depth :: int
  env_ReturnData :: bytes
  evm_readOnly :: bool

abbreviation isHardfork2 :: "'d Environment \<Rightarrow> bool" where
  "isHardfork2 env \<equiv> IsHardfork2 (env_RuleSet env) (env_BlockNumber env)"

abbreviation isHomestead :: "'d Environment \<Rightarrow> bool" where
  "isHomestead env \<equiv> IsHomestead (env_RuleSet env) (env_BlockNumber env)"

abbreviation evm_gasTable :: "'d Environment \<Rightarrow> GasTable" where
  "evm_gasTable env \<equiv> RuleSet_GasTable (env_RuleSet env) (env_BlockNumber env)"

text \<open>\<^verbatim>\<open>CanTransfer\<close> of \<^verbatim>\<open>core/vm_env.go\<close>.\<close>

definition CanTransfer :: "'d Environment \<Rightarrow> address \<Rightarrow> int \<Rightarrow> bool \<times> 'd Environment" where
  "CanTransfer env from amount =
     (let (bal, d) = db_GetBalance (env_Ops env) (env_Db env) from
      in (bal \<ge> amount, env\<lparr>env_Db := d\<rparr>))"

section \<open>Basic facts on gas\<close>

lemma UseGas_False: "UseGas c gas = (False, c') \<Longrightarrow> Gas c < gas \<and> c' = c"
  by (auto simp: UseGas_def useGas_def split: if_splits)

lemma UseGas_True:
  "UseGas c gas = (True, c') \<Longrightarrow>
     gas \<le> Gas c \<and> c' = c\<lparr>Gas := Gas c - gas, UsedGas := UsedGas c + gas\<rparr>"
  by (auto simp: UseGas_def useGas_def split: if_splits)

lemma UseAllGas_eq [simp]: "UseAllGas c = c\<lparr>Gas := 0\<rparr>"
  by (simp add: UseAllGas_def useGas_def)

end
