(* ===== verification/Vm_Stack.thy ===== *)
theory Vm_Stack
  imports Vm_Types
begin

text \<open>
  \<^verbatim>\<open>core/vm/stack.go\<close>. The slice \<^verbatim>\<open>data\<close> grows at its end; here the stack is the reversed slice, so the
  head of the list is the top and \<^verbatim>\<open>data[len-1-i]\<close> is element \<open>i\<close>. An access below the bottom is an
  index out of range in Go, which is \<open>None\<close>. The lemmas say when an operation is defined and what
  it does to the length and to a bound on the elements.
\<close>

type_synonym stack = "int list"

definition newstack :: stack where
  "newstack = []"

definition stack_push :: "stack \<Rightarrow> int \<Rightarrow> stack" where
  "stack_push st d = d # st"

definition stack_pop :: "stack \<Rightarrow> (int \<times> stack) option" where
  "stack_pop st = (case st of [] \<Rightarrow> None | x # xs \<Rightarrow> Some (x, xs))"

definition stack_len :: "stack \<Rightarrow> nat" where
  "stack_len st = length st"

definition stack_swap :: "stack \<Rightarrow> nat \<Rightarrow> stack option" where
  "stack_swap st n =
     (if 1 \<le> n \<and> n \<le> length st then Some (st[n - 1 := st ! 0, 0 := st ! (n - 1)]) else None)"

definition stack_dup :: "stack \<Rightarrow> nat \<Rightarrow> stack option" where
  "stack_dup st n = (if 1 \<le> n \<and> n \<le> length st then Some (stack_push st (st ! (n - 1))) else None)"

definition stack_peek :: "stack \<Rightarrow> int option" where
  "stack_peek st = (case st of [] \<Rightarrow> None | x # xs \<Rightarrow> Some x)"

definition stack_back :: "stack \<Rightarrow> nat \<Rightarrow> int option" where
  "stack_back st n = (if n < length st then Some (st ! n) else None)"

definition stack_require :: "stack \<Rightarrow> nat \<Rightarrow> vm_error option" where
  "stack_require st n = (if length st < n then Some (StackUnderflow (length st) n) else None)"

text \<open>\<^verbatim>\<open>stack.data[stack.len()-1] = x\<close>, an assignment to the top element.\<close>

definition stack_set_top :: "stack \<Rightarrow> int \<Rightarrow> stack option" where
  "stack_set_top st x = (case st of [] \<Rightarrow> None | y # ys \<Rightarrow> Some (x # ys))"

lemma stack_pop_Cons [simp]: "stack_pop (x # xs) = Some (x, xs)"
  by (simp add: stack_pop_def)

lemma stack_pop_eq_Some [simp]: "stack_pop st = Some (x, st') \<longleftrightarrow> st = x # st'"
  by (cases st) (auto simp: stack_pop_def)

lemma stack_set_top_Cons [simp]: "stack_set_top (y # ys) x = Some (x # ys)"
  by (simp add: stack_set_top_def)

lemma stack_set_top_eq_Some: "stack_set_top st x = Some st' \<longleftrightarrow> (\<exists>y ys. st = y # ys \<and> st' = x # ys)"
  by (cases st) (auto simp: stack_set_top_def)

lemma stack_swap_Some:
  assumes "1 \<le> n" "n \<le> length st"
  shows "stack_swap st n = Some (map (\<lambda>i. st ! (if i = 0 then n - 1 else if i = n - 1 then 0 else i)) [0..<length st])"
proof -
  have "st[n - 1 := st ! 0, 0 := st ! (n - 1)] =
      map (\<lambda>i. st ! (if i = 0 then n - 1 else if i = n - 1 then 0 else i)) [0..<length st]"
    using assms by (intro nth_equalityI) (auto simp: nth_list_update)
  then show ?thesis using assms by (simp add: stack_swap_def)
qed

lemma stack_swap_length: "stack_swap st n = Some st' \<Longrightarrow> length st' = length st"
  by (auto simp: stack_swap_def split: if_splits)

lemma stack_swap_all:
  assumes "stack_swap st n = Some st'" "list_all P st"
  shows "list_all P st'"
proof -
  from assms(1) have "1 \<le> n" "n \<le> length st"
    by (auto simp: stack_swap_def split: if_splits)
  with assms(2) have "P (st ! 0)" "P (st ! (n - 1))"
    by (auto intro: list_all_nth_drop)
  with assms \<open>1 \<le> n\<close> \<open>n \<le> length st\<close> show ?thesis
    by (auto simp: stack_swap_Some list_all_length)
qed

lemma stack_dup_all:
  "stack_dup st n = Some st' \<Longrightarrow> list_all P st \<Longrightarrow> list_all P st'"
  by (auto simp: stack_dup_def stack_push_def list_all_nth_drop split: if_splits)

end
