(* ===== verification/Vm_Memory.thy ===== *)
theory Vm_Memory
  imports Vm_Types
begin

text \<open>
  \<^verbatim>\<open>core/vm/memory.go\<close> and the memory helpers of \<^verbatim>\<open>core/vm/common.go\<close>. The memory is the byte slice
  \<^verbatim>\<open>store\<close>. A slice expression beyond its length is taken as a panic (\<open>None\<close>): Go allows it up to the
  slice's capacity, which the sources never rely on, and the theorems on the interpreter show that
  it does not occur. The lemmas are read-over-write laws and the sizes that \<^verbatim>\<open>Resize\<close> establishes.
\<close>

type_synonym memory = bytes

definition NewMemory :: memory where
  "NewMemory = []"

text \<open>Go's \<^verbatim>\<open>copy(dst[off:], src)\<close> for a source that fits.\<close>

definition overwrite :: "bytes \<Rightarrow> nat \<Rightarrow> bytes \<Rightarrow> bytes" where
  "overwrite dst off src = take off dst @ src @ drop (off + length src) dst"

definition mem_Set :: "memory \<Rightarrow> uint64 \<Rightarrow> uint64 \<Rightarrow> bytes \<Rightarrow> memory option" where
  "mem_Set store offset sz v =
     (if unat sz > length store then None
      else if sz > 0 then
        (let hi = offset + sz in
         if offset \<le> hi \<and> unat hi \<le> length store
         then Some (overwrite store (unat offset) (take (unat sz) v)) else None)
      else Some store)"

definition mem_Resize :: "memory \<Rightarrow> uint64 \<Rightarrow> memory" where
  "mem_Resize store sz =
     (if length store < unat sz then store @ replicate (unat sz - length store) 0 else store)"

definition mem_Get :: "memory \<Rightarrow> int \<Rightarrow> int \<Rightarrow> bytes option" where
  "mem_Get store offset sz =
     (if sz = 0 then Some []
      else if int (length store) > offset then
        (if 0 \<le> sz \<and> 0 \<le> offset \<and> offset + sz \<le> int (length store)
         then Some (take (nat sz) (drop (nat offset) store)) else None)
      else Some [])"

text \<open>\<^verbatim>\<open>GetPtr\<close> returns the bytes without copying them; its result is only used when execution stops.\<close>

definition mem_GetPtr :: "memory \<Rightarrow> int \<Rightarrow> int \<Rightarrow> bytes option" where
  "mem_GetPtr store offset sz =
     (if sz = 0 then Some []
      else if int (length store) > offset then
        (if 0 \<le> sz \<and> 0 \<le> offset \<and> offset + sz \<le> int (length store)
         then Some (take (nat sz) (drop (nat offset) store)) else None)
      else Some [])"

text \<open>\<^verbatim>\<open>memory.store[off] = b\<close>.\<close>

definition mem_Set8 :: "memory \<Rightarrow> int \<Rightarrow> byte \<Rightarrow> memory option" where
  "mem_Set8 store off b =
     (if 0 \<le> off \<and> off < int (length store) then Some (store[nat off := b]) else None)"

section \<open>Helpers of common.go\<close>

definition calcMemSize :: "int \<Rightarrow> int \<Rightarrow> int" where
  "calcMemSize off l = (if l = 0 then 0 else off + l)"

definition toWordSize :: "int \<Rightarrow> int" where
  "toWordSize sz = big_Div (sz + 31) 32"

text \<open>\<^verbatim>\<open>quadMemGas\<close> updates both the memory size (rounded up to words) and the gas in place.\<close>

definition quadMemGas :: "memory \<Rightarrow> int \<Rightarrow> int \<Rightarrow> int \<times> int" where
  "quadMemGas mem newMemSize gas =
     (if newMemSize > 0 then
        (let newMemSizeWords = toWordSize newMemSize;
             newMemSize = newMemSizeWords * 32
         in if newMemSize > int (length mem) then
              (let oldSize = toWordSize (int (length mem));
                   pow = big_Exp oldSize 2 0;
                   linCoef = oldSize * 3;
                   quadCoef = big_Div pow 512;
                   oldTotalFee = linCoef + quadCoef;
                   pow = big_Exp newMemSizeWords 2 0;
                   linCoef = newMemSizeWords * 3;
                   quadCoef = big_Div pow 512;
                   newTotalFee = linCoef + quadCoef;
                   fee = newTotalFee - oldTotalFee
               in (newMemSize, gas + fee))
            else (newMemSize, gas))
      else (newMemSize, gas))"

text \<open>
  \<^verbatim>\<open>getData\<close>: the two bounds are at most the length of the data, and the slice expression panics if
  they are negative or out of order. The padding length is \<^verbatim>\<open>int(size.Uint64())\<close>; \<^verbatim>\<open>make\<close> panics on a
  negative one.
\<close>

definition getData :: "bytes \<Rightarrow> int \<Rightarrow> int \<Rightarrow> bytes option" where
  "getData data start sz =
     (let dlen = int (length data);
          s = BigMin start dlen;
          e = BigMin (s + sz) dlen;
          lo = unat (big_Uint64 s);
          hi = unat (big_Uint64 e);
          l = sint (big_Uint64 sz)
      in if lo \<le> hi \<and> hi \<le> length data \<and> (0 \<le> l \<or> l < int (hi - lo))
         then Some (RightPadBytes (take (hi - lo) (drop lo data)) (nat l)) else None)"

definition allZero :: "bytes \<Rightarrow> bool" where
  "allZero b = list_all (\<lambda>x. x = 0) b"

section \<open>Reading and writing\<close>

definition small :: "bytes \<Rightarrow> bool" where
  "small b \<longleftrightarrow> length b < 2 ^ 62"

lemma small_Nil [simp]: "small []"
  by (simp add: small_def)

text \<open>The bytes \<open>[off, off + l)\<close> are inside the memory; nothing is needed for no bytes.\<close>

definition covered :: "memory \<Rightarrow> int \<Rightarrow> int \<Rightarrow> bool" where
  "covered mem off l \<longleftrightarrow> 0 \<le> off \<and> 0 \<le> l \<and> (l = 0 \<or> off + l \<le> int (length mem))"

lemma uint_big_Uint64_small: "0 \<le> x \<Longrightarrow> x < 2 ^ 64 \<Longrightarrow> uint (big_Uint64 x) = x"
  by (simp add: big_Uint64_def uint_of_int_small)

lemma big_Int64_covered:
  assumes "covered mem off l" "small mem"
  shows "big_Int64 l = l" "l \<noteq> 0 \<Longrightarrow> big_Int64 off = off" "l \<noteq> 0 \<Longrightarrow> uint (big_Uint64 off) = off"
    "uint (big_Uint64 l) = l"
  using assms by (auto simp: covered_def small_def intro!: big_Int64_small uint_big_Uint64_small)

lemma length_overwrite: "off + length src \<le> length dst \<Longrightarrow> length (overwrite dst off src) = length dst"
  by (simp add: overwrite_def)

lemma mem_Get_covered:
  assumes "covered mem off l" "small mem"
  shows "mem_Get mem (big_Int64 off) (big_Int64 l) = Some (if l = 0 then [] else take (nat l) (drop (nat off) mem))"
  using assms big_Int64_covered [OF assms] by (auto simp: mem_Get_def covered_def)

lemma mem_GetPtr_eq: "mem_GetPtr = mem_Get"
  by (simp add: mem_Get_def mem_GetPtr_def fun_eq_iff)

lemma mem_Set_covered:
  assumes cov: "covered mem off l" and sm: "small mem"
  shows "mem_Set mem (big_Uint64 off) (big_Uint64 l) v =
    Some (if l = 0 then mem else overwrite mem (nat off) (take (nat l) v))"
proof (cases "l = 0")
  case True
  then show ?thesis by (simp add: mem_Set_def big_Uint64_def)
next
  case False
  note u = big_Int64_covered [OF cov sm]
  have b: "0 \<le> off" "0 < l" "off + l \<le> int (length mem)" "int (length mem) < 2 ^ 62"
    using cov sm False by (auto simp: covered_def small_def)
  have un: "unat (big_Uint64 off) = nat off" "unat (big_Uint64 l) = nat l"
    using u(3,4) False by (simp_all add: unat_eq_nat_uint)
  have sum: "uint (big_Uint64 off + big_Uint64 l) = off + l"
    using u(3,4) False b by (simp add: uint_word_ariths)
  then have un2: "unat (big_Uint64 off + big_Uint64 l) = nat (off + l)" by (simp add: unat_eq_nat_uint)
  have "big_Uint64 l > 0" "big_Uint64 off \<le> big_Uint64 off + big_Uint64 l"
    using u(3,4) False b sum by (simp_all add: word_less_def word_le_def)
  then show ?thesis using False b un un2 by (simp add: mem_Set_def Let_def nat_le_iff)
qed

lemma mem_Set_length:
  assumes "covered mem off l" "small mem" "mem_Set mem (big_Uint64 off) (big_Uint64 l) v = Some mem'"
  shows "length mem' = length mem"
  using assms(3) assms(1) unfolding mem_Set_covered [OF assms(1,2)]
  by (auto simp: covered_def length_overwrite split: if_splits)

text \<open>What was stored is read back, and other bytes are unchanged.\<close>

lemma mem_Get_Set_same:
  assumes "covered mem off l" "small mem" "length v = nat l"
    and "mem_Set mem (big_Uint64 off) (big_Uint64 l) v = Some mem'"
  shows "mem_Get mem' (big_Int64 off) (big_Int64 l) = Some v"
proof -
  have len: "length mem' = length mem" by (rule mem_Set_length [OF assms(1,2,4)])
  then have cov: "covered mem' off l" "small mem'" using assms(1,2) by (simp_all add: covered_def small_def)
  from assms show ?thesis
    unfolding mem_Get_covered [OF cov] mem_Set_covered [OF assms(1,2)]
    by (auto simp: overwrite_def covered_def split: if_splits)
qed

lemma mem_Set_other:
  assumes "covered mem off l" "small mem" "mem_Set mem (big_Uint64 off) (big_Uint64 l) v = Some mem'"
    "length v = nat l" "int i < off \<or> off + l \<le> int i"
  shows "mem' ! i = mem ! i"
  using assms(3,4,5,1) unfolding mem_Set_covered [OF assms(1,2)]
  by (auto simp: overwrite_def covered_def nth_append split: if_splits) 

lemma getData_small:
  assumes "small data" "0 \<le> start" "0 \<le> sz" "sz < 2 ^ 62"
  shows "getData data start sz =
    Some (RightPadBytes (take (nat sz) (drop (nat start) data)) (nat sz))"
proof -
  let ?s = "BigMin start (int (length data))"
  let ?e = "BigMin (?s + sz) (int (length data))"
  have s: "0 \<le> ?s" "?s \<le> int (length data)" "?s \<le> ?e" "?e \<le> int (length data)"
    using assms by (auto simp: BigMin_min)
  then have "uint (big_Uint64 ?s) = ?s" "uint (big_Uint64 ?e) = ?e"
    using assms(1) by (auto simp: small_def intro!: uint_big_Uint64_small)
  then have un: "unat (big_Uint64 ?s) = nat ?s" "unat (big_Uint64 ?e) = nat ?e"
    by (simp_all add: unat_eq_nat_uint)
  have l: "sint (big_Uint64 sz) = sz"
    using assms(3,4) by (simp add: big_Uint64_def sint_of_int_small)
  have "take (nat ?e - nat ?s) (drop (nat ?s) data) = take (nat sz) (drop (nat start) data)"
    using assms(2,3) by (auto simp: BigMin_min min_def nat_le_iff nat_diff_distrib' nat_add_distrib)
  then show ?thesis
    using s un l assms(3) by (simp add: getData_def Let_def nat_mono nat_le_iff)
qed

end
