(* ===== verification/Vm_Gas.thy ===== *)
theory Vm_Gas
  imports Vm_Stack Vm_Memory
begin

text \<open>
  \<^verbatim>\<open>core/vm/gas.go\<close>: the static price and stack requirement of each opcode, the check of both, and the
  gas a call may pass on.
\<close>

definition GasQuickStep :: int where "GasQuickStep = 2"
definition GasFastestStep :: int where "GasFastestStep = 3"
definition GasFastStep :: int where "GasFastStep = 5"
definition GasMidStep :: int where "GasMidStep = 8"
definition GasSlowStep :: int where "GasSlowStep = 10"
definition GasExtStep :: int where "GasExtStep = 20"

lemmas gas_step_defs [gas_simps] =
  GasQuickStep_def GasFastestStep_def GasFastStep_def GasMidStep_def GasSlowStep_def GasExtStep_def

definition StackLimit :: nat where "StackLimit = 1024"

definition callGas :: "GasTable \<Rightarrow> int \<Rightarrow> int \<Rightarrow> int \<Rightarrow> int" where
  "callGas gasTable availableGas base callCost =
     (case CreateBySuicide gasTable of
        Some _ \<Rightarrow>
          (let availableGas = availableGas - base;
               g = big_Div availableGas 64;
               g = availableGas - g
           in if g < callCost then g else callCost)
      | None \<Rightarrow> callCost)"

record req =
  stackPop :: nat
  req_gas :: int
  stackPush :: nat

abbreviation mk_req :: "nat \<Rightarrow> int \<Rightarrow> nat \<Rightarrow> req option" where
  "mk_req p g q \<equiv> Some \<lparr>stackPop = p, req_gas = g, stackPush = q\<rparr>"

text \<open>The map \<^verbatim>\<open>_baseCheck\<close>; \<^verbatim>\<open>PUSH1\<close> and \<^verbatim>\<open>DUP1\<close> stand for their families.\<close>

definition base_req :: "OpCode \<Rightarrow> req option" where
  "base_req op = (case op of
     ADD \<Rightarrow> mk_req 2 GasFastestStep 1
   | LT \<Rightarrow> mk_req 2 GasFastestStep 1
   | GT \<Rightarrow> mk_req 2 GasFastestStep 1
   | SLT \<Rightarrow> mk_req 2 GasFastestStep 1
   | SGT \<Rightarrow> mk_req 2 GasFastestStep 1
   | EQ \<Rightarrow> mk_req 2 GasFastestStep 1
   | ISZERO \<Rightarrow> mk_req 1 GasFastestStep 1
   | SUB \<Rightarrow> mk_req 2 GasFastestStep 1
   | AND_op \<Rightarrow> mk_req 2 GasFastestStep 1
   | OR_op \<Rightarrow> mk_req 2 GasFastestStep 1
   | XOR_op \<Rightarrow> mk_req 2 GasFastestStep 1
   | NOT_op \<Rightarrow> mk_req 1 GasFastestStep 1
   | BYTE \<Rightarrow> mk_req 2 GasFastestStep 1
   | CALLDATALOAD \<Rightarrow> mk_req 1 GasFastestStep 1
   | CALLDATACOPY \<Rightarrow> mk_req 3 GasFastestStep 1
   | MLOAD \<Rightarrow> mk_req 1 GasFastestStep 1
   | MSTORE \<Rightarrow> mk_req 2 GasFastestStep 0
   | MSTORE8 \<Rightarrow> mk_req 2 GasFastestStep 0
   | CODECOPY \<Rightarrow> mk_req 3 GasFastestStep 0
   | MUL \<Rightarrow> mk_req 2 GasFastStep 1
   | DIV \<Rightarrow> mk_req 2 GasFastStep 1
   | SDIV \<Rightarrow> mk_req 2 GasFastStep 1
   | MOD \<Rightarrow> mk_req 2 GasFastStep 1
   | SMOD \<Rightarrow> mk_req 2 GasFastStep 1
   | SIGNEXTEND \<Rightarrow> mk_req 2 GasFastStep 1
   | ADDMOD \<Rightarrow> mk_req 3 GasMidStep 1
   | MULMOD \<Rightarrow> mk_req 3 GasMidStep 1
   | JUMP \<Rightarrow> mk_req 1 GasMidStep 0
   | JUMPI \<Rightarrow> mk_req 2 GasSlowStep 0
   | EXP \<Rightarrow> mk_req 2 GasSlowStep 1
   | ADDRESS \<Rightarrow> mk_req 0 GasQuickStep 1
   | ORIGIN \<Rightarrow> mk_req 0 GasQuickStep 1
   | CALLER \<Rightarrow> mk_req 0 GasQuickStep 1
   | CALLVALUE \<Rightarrow> mk_req 0 GasQuickStep 1
   | CODESIZE \<Rightarrow> mk_req 0 GasQuickStep 1
   | GASPRICE \<Rightarrow> mk_req 0 GasQuickStep 1
   | COINBASE \<Rightarrow> mk_req 0 GasQuickStep 1
   | TIMESTAMP \<Rightarrow> mk_req 0 GasQuickStep 1
   | NUMBER \<Rightarrow> mk_req 0 GasQuickStep 1
   | CALLDATASIZE \<Rightarrow> mk_req 0 GasQuickStep 1
   | DIFFICULTY \<Rightarrow> mk_req 0 GasQuickStep 1
   | GASLIMIT \<Rightarrow> mk_req 0 GasQuickStep 1
   | POP \<Rightarrow> mk_req 1 GasQuickStep 0
   | PC \<Rightarrow> mk_req 0 GasQuickStep 1
   | MSIZE \<Rightarrow> mk_req 0 GasQuickStep 1
   | GAS \<Rightarrow> mk_req 0 GasQuickStep 1
   | RETURNDATASIZE \<Rightarrow> mk_req 0 GasQuickStep 1
   | BLOCKHASH \<Rightarrow> mk_req 1 GasExtStep 1
   | BALANCE \<Rightarrow> mk_req 1 0 1
   | EXTCODESIZE \<Rightarrow> mk_req 1 0 1
   | EXTCODECOPY \<Rightarrow> mk_req 4 0 0
   | SLOAD \<Rightarrow> mk_req 1 50 1
   | SSTORE \<Rightarrow> mk_req 2 0 0
   | SHA3 \<Rightarrow> mk_req 2 30 1
   | CREATE \<Rightarrow> mk_req 3 32000 1
   | CALL \<Rightarrow> mk_req 7 0 1
   | CALLCODE \<Rightarrow> mk_req 7 0 1
   | DELEGATECALL \<Rightarrow> mk_req 6 0 1
   | STATICCALL \<Rightarrow> mk_req 6 0 1
   | REVERT \<Rightarrow> mk_req 2 0 0
   | RETURNDATACOPY \<Rightarrow> mk_req 3 0 0
   | SUICIDE \<Rightarrow> mk_req 1 0 0
   | JUMPDEST \<Rightarrow> mk_req 0 1 0
   | RETURN \<Rightarrow> mk_req 2 0 0
   | PUSHn k \<Rightarrow> mk_req 0 GasFastestStep 1
   | DUPn k \<Rightarrow> mk_req 0 0 1
   | _ \<Rightarrow> None)"

text \<open>\<^verbatim>\<open>baseCheck\<close> adds the static price to \<^verbatim>\<open>gas\<close>, which the caller passes as 0; here it is the result.\<close>

definition baseCheck :: "OpCode \<Rightarrow> stack \<Rightarrow> vm_error + int" where
  "baseCheck op st =
     (case base_req op of
        Some r \<Rightarrow>
          (case stack_require st (stackPop r) of
             Some err \<Rightarrow> Inl err
           | None \<Rightarrow>
               if stackPush r > 0 \<and> stack_len st - stackPop r + stackPush r > StackLimit
               then Inl (StackLimitExceeded (stack_len st))
               else Inr (req_gas r))
      | None \<Rightarrow> Inr 0)"

end
