(* ===== verification/Vm_Analysis.thy ===== *)
theory Vm_Analysis
  imports Vm_Types
begin

text \<open>
  \<^verbatim>\<open>core/vm/analysis.go\<close>: the bit map of valid jump destinations of a code, computed in one pass that
  skips the data of push instructions, and the cache of these maps by code hash. The specification
  is \<open>instr_start\<close>: the positions at which an instruction begins when the code is read from its start.
\<close>

unbundle bit_operations_syntax

text \<open>\<^verbatim>\<open>m[pc/8] |= 1 << (pc % 8)\<close>\<close>

definition set_bit_at :: "bytes \<Rightarrow> nat \<Rightarrow> bytes" where
  "set_bit_at m i = m[i div 8 := (m ! (i div 8)) OR push_bit (i mod 8) 1]"

text \<open>\<^verbatim>\<open>m[i/8] & (1 << (i % 8)) != 0\<close>; the read panics beyond the end of \<^verbatim>\<open>m\<close>.\<close>

definition test_bit_at :: "bytes \<Rightarrow> nat \<Rightarrow> bool option" where
  "test_bit_at m i =
     (if i div 8 < length m then Some ((m ! (i div 8)) AND push_bit (i mod 8) 1 \<noteq> 0) else None)"

text \<open>The number of data bytes that follow an opcode.\<close>

definition push_size :: "OpCode \<Rightarrow> nat" where
  "push_size op = (case op of PUSHn k \<Rightarrow> k | _ \<Rightarrow> 0)"

function jumpdests_loop :: "bytes \<Rightarrow> nat \<Rightarrow> bytes \<Rightarrow> bytes" where
  "jumpdests_loop code pc m =
     (if pc < length code then
        (let op = OpCode (code ! pc) in
         if op = JUMPDEST then jumpdests_loop code (pc + 1) (set_bit_at m pc)
         else jumpdests_loop code (pc + push_size op + 1) m)
      else m)"
  by pat_completeness auto
termination
  by (relation "measure (\<lambda>(code, pc, m). length code - pc)") auto

declare jumpdests_loop.simps [simp del]

definition jumpdests :: "bytes \<Rightarrow> bytes" where
  "jumpdests code = jumpdests_loop code 0 (replicate (length code div 8 + 1) 0)"

definition destinations_has ::
  "(hash \<rightharpoonup> bytes) \<Rightarrow> hash \<Rightarrow> bytes \<Rightarrow> int \<Rightarrow> (bool \<times> (hash \<rightharpoonup> bytes)) option" where
  "destinations_has d codehash code dest =
     (let udest = big_Uint64 dest in
      if big_BitLen dest \<ge> 63 \<or> unat udest \<ge> length code then Some (False, d)
      else
        (let (m, d') = (case d codehash of
                          Some m \<Rightarrow> (m, d)
                        | None \<Rightarrow> (jumpdests code, d(codehash \<mapsto> jumpdests code)))
         in map_option (\<lambda>v. (v, d')) (test_bit_at m (unat udest))))"

section \<open>Specification\<close>

inductive instr_from :: "bytes \<Rightarrow> nat \<Rightarrow> nat \<Rightarrow> bool" for code p where
  here: "instr_from code p p"
| step: "instr_from code p q \<Longrightarrow> q < length code \<Longrightarrow>
    instr_from code p (Suc (q + push_size (OpCode (code ! q))))"

abbreviation instr_start :: "bytes \<Rightarrow> nat \<Rightarrow> bool" where
  "instr_start code i \<equiv> instr_from code 0 i"

definition valid_jumpdest :: "bytes \<Rightarrow> nat \<Rightarrow> bool" where
  "valid_jumpdest code i \<longleftrightarrow> i < length code \<and> OpCode (code ! i) = JUMPDEST \<and> instr_start code i"

text \<open>Reading on from \<open>p\<close> is staying at \<open>p\<close> or reading on from the next instruction.\<close>

lemma instr_from_first:
  assumes "instr_from code (Suc (p + push_size (OpCode (code ! p)))) i" "p < length code"
  shows "instr_from code p i"
  using assms
proof (induction rule: instr_from.induct)
  case here
  then show ?case by (rule instr_from.step [OF instr_from.here])
next
  case (step q)
  then show ?case by (blast intro: instr_from.step)
qed

lemma instr_from_unfold:
  "instr_from code p i \<longleftrightarrow>
     i = p \<or> p < length code \<and> instr_from code (Suc (p + push_size (OpCode (code ! p)))) i"
proof
  assume "instr_from code p i"
  then show "i = p \<or> p < length code \<and> instr_from code (Suc (p + push_size (OpCode (code ! p)))) i"
    by (induction rule: instr_from.induct) (auto intro: instr_from.intros)
qed (auto intro: instr_from.here instr_from_first)

section \<open>The bit map computed is the specified set\<close>

definition bit_at :: "bytes \<Rightarrow> nat \<Rightarrow> bool" where
  "bit_at m i \<longleftrightarrow> bit (m ! (i div 8)) (i mod 8)"

lemma test_bit_at_eq: "i div 8 < length m \<Longrightarrow> test_bit_at m i = Some (bit_at m i)"
  by (simp only: test_bit_at_def bit_at_def bit_iff_and_push_bit_not_eq_0 if_True)

lemma bit_at_set_bit_at:
  "j div 8 < length m \<Longrightarrow> bit_at (set_bit_at m j) i \<longleftrightarrow> i = j \<or> bit_at m i"
proof -
  assume "j div 8 < length m"
  moreover have "i div 8 = j div 8 \<and> i mod 8 = j mod 8 \<longleftrightarrow> i = j"
    by (metis div_mult_mod_eq)
  ultimately show ?thesis
    by (auto simp: bit_at_def set_bit_at_def nth_list_update bit_simps)
qed

lemma length_set_bit_at [simp]: "length (set_bit_at m i) = length m"
  by (simp add: set_bit_at_def)

lemma length_jumpdests_loop: "length (jumpdests_loop code pc m) = length m"
  by (induction code pc m rule: jumpdests_loop.induct)
    (subst jumpdests_loop.simps, auto simp: Let_def)

lemma push_size_JUMPDEST [simp]: "push_size JUMPDEST = 0"
  by (simp add: push_size_def)

lemma bit_at_jumpdests_loop:
  assumes "length m = length code div 8 + 1"
  shows "bit_at (jumpdests_loop code pc m) i \<longleftrightarrow>
    bit_at m i \<or> i < length code \<and> OpCode (code ! i) = JUMPDEST \<and> instr_from code pc i"
  using assms
proof (induction code pc m rule: jumpdests_loop.induct)
  case (1 code pc m)
  show ?case
  proof (cases "pc < length code")
    case False
    then show ?thesis
      by (subst jumpdests_loop.simps, subst instr_from_unfold) auto
  next
    case True
    then have "pc div 8 < length m"
      using "1.prems" by (simp add: div_le_mono less_Suc_eq_le)
    then show ?thesis
      using 1 True
      by (subst jumpdests_loop.simps, subst instr_from_unfold)
        (auto simp: Let_def bit_at_set_bit_at)
  qed
qed

lemma bit_at_replicate: "i div 8 < n \<Longrightarrow> \<not> bit_at (replicate n 0) i"
  by (simp add: bit_at_def)

lemma length_jumpdests: "length (jumpdests code) = length code div 8 + 1"
  by (simp add: jumpdests_def length_jumpdests_loop)

lemma bit_at_jumpdests:
  assumes "i < length code"
  shows "bit_at (jumpdests code) i = valid_jumpdest code i"
proof -
  have "i div 8 < length code div 8 + 1"
    using assms by (simp add: div_le_mono less_Suc_eq_le)
  with assms show ?thesis
    unfolding jumpdests_def
    by (subst bit_at_jumpdests_loop) (simp_all add: valid_jumpdest_def bit_at_replicate del: replicate_Suc)
qed

lemma test_bit_at_jumpdests:
  "i < length code \<Longrightarrow> test_bit_at (jumpdests code) i = Some (valid_jumpdest code i)"
  by (simp add: test_bit_at_eq length_jumpdests bit_at_jumpdests div_le_mono less_Suc_eq_le)

section \<open>The cache\<close>

text \<open>A cache is coherent for a code and its hash if its entry for the hash, if any, is that code's map.\<close>

definition coherent :: "(hash \<rightharpoonup> bytes) \<Rightarrow> hash \<Rightarrow> bytes \<Rightarrow> bool" where
  "coherent d codehash code \<longleftrightarrow> (\<forall>m. d codehash = Some m \<longrightarrow> m = jumpdests code)"

lemma nat_BitLen_bound: "nat_BitLen n \<le> k \<longleftrightarrow> n < 2 ^ k"
proof (induction n arbitrary: k rule: nat_BitLen.induct)
  case (1 n)
  show ?case
  proof (cases "n = 0")
    case False
    show ?thesis
    proof (cases k)
      case 0
      with False show ?thesis by (simp add: nat_BitLen.simps [of n])
    next
      case (Suc j)
      have "nat_BitLen n \<le> Suc j \<longleftrightarrow> nat_BitLen (n div 2) \<le> j"
        using False by (simp add: nat_BitLen.simps [of n])
      also have "\<dots> \<longleftrightarrow> n div 2 < 2 ^ j"
        using False 1 by simp
      also have "\<dots> \<longleftrightarrow> n < 2 ^ Suc j"
        by (simp add: div_less_iff_less_mult mult.commute)
      finally show ?thesis using Suc by simp
    qed
  qed (simp add: nat_BitLen.simps)
qed

lemma destinations_has_correct:
  assumes "coherent d codehash code" "0 \<le> dest" "length code < 2 ^ 62"
  shows "\<exists>d'. destinations_has d codehash code dest = Some (valid_jumpdest code (nat dest), d') \<and>
    coherent d' codehash code"
proof (cases "dest < int (length code)")
  case True
  have small: "dest < 2 ^ 62" using True assms(3) by (metis less_trans of_nat_less_numeral_power_cancel_iff)
  then have "\<not> big_BitLen dest \<ge> 63"
    using nat_BitLen_bound [of "nat dest" 62] assms(2) by (simp add: big_BitLen_def nat_less_iff)
  moreover have "unat (big_Uint64 dest) = nat dest"
    using small assms(2) by (simp add: big_Uint64_small)
  moreover have "nat dest < length code" using True assms(2) by linarith
  ultimately show ?thesis
    using assms(1) by (auto simp: destinations_has_def Let_def coherent_def test_bit_at_jumpdests
        split: option.splits)
next
  case False
  have "unat (big_Uint64 dest) \<ge> length code" if "\<not> big_BitLen dest \<ge> 63"
  proof -
    have "dest < 2 ^ 62"
      using that nat_BitLen_bound [of "nat dest" 62] assms(2) by (simp add: big_BitLen_def nat_less_iff)
    then show ?thesis using False assms(2) by (simp add: big_Uint64_small nat_le_iff)
  qed
  then have "destinations_has d codehash code dest = Some (False, d)"
    by (auto simp: destinations_has_def Let_def)
  moreover have "\<not> valid_jumpdest code (nat dest)"
    using False assms(2) by (simp add: valid_jumpdest_def nat_less_iff)
  ultimately show ?thesis using assms(1) by auto
qed

end
