(* ===== verification/Vm_Instructions.thy ===== *)
theory Vm_Instructions
  imports Vm_Gas Vm_Analysis
begin

text \<open>
  \<^verbatim>\<open>core/vm/instructions.go\<close>: one definition per instruction function. An instruction works on a
  \<open>frame\<close>, which holds what the Go function reaches through its pointer arguments: the program
  counter, the environment, the contract, the memory and the stack. It returns the bytes and the
  error of the Go function and the changed frame; \<open>None\<close> is a panic. The call and create
  instructions run other contracts through the environment, whose five methods are the record
  \<open>Calls\<close>; these may also run out of fuel.
\<close>

unbundle bit_operations_syntax

record 'd frame =
  pc :: uint64
  f_env :: "'d Environment"
  f_contract :: Contract
  f_memory :: memory
  f_stack :: stack

text \<open>
  What a call gives back: the returned bytes, the error, the environment, the caller (its gas and its
  jump destination cache change) and the value left in the gas counter that was passed.
\<close>

type_synonym 'd call_result =
  "bytes \<times> vm_error option \<times> 'd Environment \<times> ContractRef \<times> int"

type_synonym 'd create_result =
  "bytes \<times> address \<times> vm_error option \<times> 'd Environment \<times> ContractRef \<times> int"

record 'd Calls =
  env_Call :: "'d Environment \<Rightarrow> ContractRef \<Rightarrow> address \<Rightarrow> bytes \<Rightarrow> int \<Rightarrow> int \<Rightarrow> int \<Rightarrow>
    'd call_result outcome option"
  env_CallCode :: "'d Environment \<Rightarrow> ContractRef \<Rightarrow> address \<Rightarrow> bytes \<Rightarrow> int \<Rightarrow> int \<Rightarrow> int \<Rightarrow>
    'd call_result outcome option"
  env_DelegateCall :: "'d Environment \<Rightarrow> ContractRef \<Rightarrow> address \<Rightarrow> bytes \<Rightarrow> int \<Rightarrow> int \<Rightarrow>
    'd call_result outcome option"
  env_StaticCall :: "'d Environment \<Rightarrow> ContractRef \<Rightarrow> address \<Rightarrow> bytes \<Rightarrow> int \<Rightarrow> int \<Rightarrow>
    'd call_result outcome option"
  env_Create :: "'d Environment \<Rightarrow> ContractRef \<Rightarrow> bytes \<Rightarrow> int \<Rightarrow> int \<Rightarrow> int \<Rightarrow>
    'd create_result outcome option"

type_synonym 'd instr_result = "(bytes \<times> vm_error option \<times> 'd frame) outcome option"
type_synonym 'd instrFn = "'d Calls \<Rightarrow> 'd frame \<Rightarrow> 'd instr_result"

abbreviation instr_ok :: "'d frame \<Rightarrow> 'd instr_result" where
  "instr_ok f \<equiv> Some (Done ([], None, f))"

abbreviation instr_ret :: "bytes \<Rightarrow> 'd frame \<Rightarrow> 'd instr_result" where
  "instr_ret ret f \<equiv> Some (Done (ret, None, f))"

abbreviation instr_err :: "vm_error \<Rightarrow> 'd frame \<Rightarrow> 'd instr_result" where
  "instr_err e f \<equiv> Some (Done ([], Some e, f))"

abbreviation set_stack :: "'d frame \<Rightarrow> stack \<Rightarrow> 'd frame" where
  "set_stack f st \<equiv> f\<lparr>f_stack := st\<rparr>"

abbreviation f_ops :: "'d frame \<Rightarrow> 'd Database" where
  "f_ops f \<equiv> env_Ops (f_env f)"

abbreviation f_db :: "'d frame \<Rightarrow> 'd" where
  "f_db f \<equiv> env_Db (f_env f)"

abbreviation set_db :: "'d frame \<Rightarrow> 'd \<Rightarrow> 'd frame" where
  "set_db f d \<equiv> f\<lparr>f_env := (f_env f)\<lparr>env_Db := d\<rparr>\<rparr>"

abbreviation f_Address :: "'d frame \<Rightarrow> address" where
  "f_Address f \<equiv> self_Address (f_contract f)"

definition callStipend :: int where "callStipend = 2300"
definition Pow256 :: int where "Pow256 = BigPow 2 256"

section \<open>Arithmetic, comparison and bits\<close>

definition opAdd :: "'d instrFn" where
  "opAdd calls f = do {
     (x, st) \<leftarrow> stack_pop (f_stack f);
     (y, st) \<leftarrow> stack_pop st;
     instr_ok (set_stack f (stack_push st (U256 (x + y))))
   }"

definition opSub :: "'d instrFn" where
  "opSub calls f = do {
     (x, st) \<leftarrow> stack_pop (f_stack f);
     (y, st) \<leftarrow> stack_pop st;
     instr_ok (set_stack f (stack_push st (U256 (x - y))))
   }"

definition opMul :: "'d instrFn" where
  "opMul calls f = do {
     (x, st) \<leftarrow> stack_pop (f_stack f);
     (y, st) \<leftarrow> stack_pop st;
     instr_ok (set_stack f (stack_push st (U256 (x * y))))
   }"

definition opDiv :: "'d instrFn" where
  "opDiv calls f = do {
     (x, st) \<leftarrow> stack_pop (f_stack f);
     (y, st) \<leftarrow> stack_pop st;
     instr_ok (set_stack f (stack_push st (if big_Sign y \<noteq> 0 then U256 (big_Div x y) else 0)))
   }"

definition opSdiv :: "'d instrFn" where
  "opSdiv calls f = do {
     (x, st) \<leftarrow> stack_pop (f_stack f);
     (y, st) \<leftarrow> stack_pop st;
     let x = S256 x; y = S256 y in
     if big_Sign y = 0 then instr_ok (set_stack f (stack_push st 0))
     else
       (let n = (if big_Sign (x * y) < 0 then -1 else 1);
            res = big_Div \<bar>x\<bar> \<bar>y\<bar>
        in instr_ok (set_stack f (stack_push st (U256 (res * n)))))
   }"

definition opMod :: "'d instrFn" where
  "opMod calls f = do {
     (x, st) \<leftarrow> stack_pop (f_stack f);
     (y, st) \<leftarrow> stack_pop st;
     instr_ok (set_stack f (stack_push st (if big_Sign y = 0 then 0 else U256 (big_Mod x y))))
   }"

definition opSmod :: "'d instrFn" where
  "opSmod calls f = do {
     (x, st) \<leftarrow> stack_pop (f_stack f);
     (y, st) \<leftarrow> stack_pop st;
     let x = S256 x; y = S256 y in
     if big_Sign y = 0 then instr_ok (set_stack f (stack_push st 0))
     else
       (let n = (if big_Sign x < 0 then -1 else 1);
            res = big_Mod \<bar>x\<bar> \<bar>y\<bar>
        in instr_ok (set_stack f (stack_push st (U256 (res * n)))))
   }"

definition opExp :: "'d instrFn" where
  "opExp calls f = do {
     (x, st) \<leftarrow> stack_pop (f_stack f);
     (y, st) \<leftarrow> stack_pop st;
     instr_ok (set_stack f (stack_push st (U256 (big_Exp x y Pow256))))
   }"

text \<open>Beyond the last byte the operand stays on the stack as it is.\<close>

definition opSignExtend :: "'d instrFn" where
  "opSignExtend calls f = do {
     (back, st) \<leftarrow> stack_pop (f_stack f);
     if back < 31 then do {
       let bit_no = unat (big_Uint64 back * 8 + 7);
       (num, st) \<leftarrow> stack_pop st;
       let msk = push_bit bit_no 1 - 1;
       let num = (if BitTest num bit_no then num OR (NOT msk) else num AND msk);
       instr_ok (set_stack f (stack_push st (U256 num)))
     }
     else instr_ok (set_stack f st)
   }"

definition opNot :: "'d instrFn" where
  "opNot calls f = do {
     (x, st) \<leftarrow> stack_pop (f_stack f);
     instr_ok (set_stack f (stack_push st (U256 (NOT x))))
   }"

definition opLt :: "'d instrFn" where
  "opLt calls f = do {
     (x, st) \<leftarrow> stack_pop (f_stack f);
     (y, st) \<leftarrow> stack_pop st;
     instr_ok (set_stack f (stack_push st (if x < y then 1 else 0)))
   }"

definition opGt :: "'d instrFn" where
  "opGt calls f = do {
     (x, st) \<leftarrow> stack_pop (f_stack f);
     (y, st) \<leftarrow> stack_pop st;
     instr_ok (set_stack f (stack_push st (if x > y then 1 else 0)))
   }"

definition opSlt :: "'d instrFn" where
  "opSlt calls f = do {
     (x, st) \<leftarrow> stack_pop (f_stack f);
     (y, st) \<leftarrow> stack_pop st;
     instr_ok (set_stack f (stack_push st (if S256 x < S256 (S256 y) then 1 else 0)))
   }"

definition opSgt :: "'d instrFn" where
  "opSgt calls f = do {
     (x, st) \<leftarrow> stack_pop (f_stack f);
     (y, st) \<leftarrow> stack_pop st;
     instr_ok (set_stack f (stack_push st (if S256 x > S256 y then 1 else 0)))
   }"

definition opEq :: "'d instrFn" where
  "opEq calls f = do {
     (x, st) \<leftarrow> stack_pop (f_stack f);
     (y, st) \<leftarrow> stack_pop st;
     instr_ok (set_stack f (stack_push st (if x = y then 1 else 0)))
   }"

definition opIszero :: "'d instrFn" where
  "opIszero calls f = do {
     (x, st) \<leftarrow> stack_pop (f_stack f);
     instr_ok (set_stack f (stack_push st (if big_Sign x \<noteq> 0 then 0 else 1)))
   }"

definition opAnd :: "'d instrFn" where
  "opAnd calls f = do {
     (x, st) \<leftarrow> stack_pop (f_stack f);
     (y, st) \<leftarrow> stack_pop st;
     instr_ok (set_stack f (stack_push st (x AND y)))
   }"

definition opOr :: "'d instrFn" where
  "opOr calls f = do {
     (x, st) \<leftarrow> stack_pop (f_stack f);
     (y, st) \<leftarrow> stack_pop st;
     instr_ok (set_stack f (stack_push st (x OR y)))
   }"

definition opXor :: "'d instrFn" where
  "opXor calls f = do {
     (x, st) \<leftarrow> stack_pop (f_stack f);
     (y, st) \<leftarrow> stack_pop st;
     instr_ok (set_stack f (stack_push st (x XOR y)))
   }"

definition opByte :: "'d instrFn" where
  "opByte calls f = do {
     (th, st) \<leftarrow> stack_pop (f_stack f);
     (val, st) \<leftarrow> stack_pop st;
     if th < 32 then
       (let bs = LeftPadBytes (big_Bytes val) 32; i = big_Int64 th in
        if 0 \<le> i \<and> i < int (length bs)
        then instr_ok (set_stack f (stack_push st (uint (bs ! nat i))))
        else None)
     else instr_ok (set_stack f (stack_push st 0))
   }"

definition opAddmod :: "'d instrFn" where
  "opAddmod calls f = do {
     (x, st) \<leftarrow> stack_pop (f_stack f);
     (y, st) \<leftarrow> stack_pop st;
     (z, st) \<leftarrow> stack_pop st;
     instr_ok (set_stack f (stack_push st (if big_Sign z > 0 then U256 (big_Mod (x + y) z) else 0)))
   }"

definition opMulmod :: "'d instrFn" where
  "opMulmod calls f = do {
     (x, st) \<leftarrow> stack_pop (f_stack f);
     (y, st) \<leftarrow> stack_pop st;
     (z, st) \<leftarrow> stack_pop st;
     instr_ok (set_stack f (stack_push st (if big_Sign z > 0 then U256 (big_Mod (x * y) z) else 0)))
   }"

section \<open>Hashing, context and data\<close>

definition opSha3 :: "'d instrFn" where
  "opSha3 calls f = do {
     (offset, st) \<leftarrow> stack_pop (f_stack f);
     (sz, st) \<leftarrow> stack_pop st;
     data \<leftarrow> mem_Get (f_memory f) (big_Int64 offset) (big_Int64 sz);
     let h = env_Keccak256 (f_env f) data;
     instr_ok (set_stack f (stack_push st (big_SetBytes (Hash_Bytes h))))
   }"

definition opAddress :: "'d instrFn" where
  "opAddress calls f = instr_ok (set_stack f (stack_push (f_stack f) (big_SetBytes (Address_Bytes (f_Address f)))))"

definition opBalance :: "'d instrFn" where
  "opBalance calls f = do {
     (a, st) \<leftarrow> stack_pop (f_stack f);
     let addr = BigToAddress a;
     let (bal, d) = db_GetBalance (f_ops f) (f_db f) addr;
     instr_ok (set_stack (set_db f d) (stack_push st bal))
   }"

definition opOrigin :: "'d instrFn" where
  "opOrigin calls f = instr_ok (set_stack f (stack_push (f_stack f) (Address_Big (env_Origin (f_env f)))))"

definition opCaller :: "'d instrFn" where
  "opCaller calls f = instr_ok (set_stack f (stack_push (f_stack f) (Address_Big (CallerAddress (f_contract f)))))"

definition opCallValue :: "'d instrFn" where
  "opCallValue calls f = instr_ok (set_stack f (stack_push (f_stack f) (c_value (f_contract f))))"

definition opCalldataLoad :: "'d instrFn" where
  "opCalldataLoad calls f = do {
     (start, st) \<leftarrow> stack_pop (f_stack f);
     data \<leftarrow> getData (Input (f_contract f)) start 32;
     instr_ok (set_stack f (stack_push st (big_SetBytes data)))
   }"

definition opCalldataSize :: "'d instrFn" where
  "opCalldataSize calls f = instr_ok (set_stack f (stack_push (f_stack f) (int (length (Input (f_contract f))))))"

definition opCalldataCopy :: "'d instrFn" where
  "opCalldataCopy calls f = do {
     (mOff, st) \<leftarrow> stack_pop (f_stack f);
     (cOff, st) \<leftarrow> stack_pop st;
     (l, st) \<leftarrow> stack_pop st;
     data \<leftarrow> getData (Input (f_contract f)) cOff l;
     mem \<leftarrow> mem_Set (f_memory f) (big_Uint64 mOff) (big_Uint64 l) data;
     instr_ok (f\<lparr>f_stack := st, f_memory := mem\<rparr>)
   }"

definition opExtCodeSize :: "'d instrFn" where
  "opExtCodeSize calls f = do {
     (a, st) \<leftarrow> stack_pop (f_stack f);
     let (l, d) = db_GetCodeSize (f_ops f) (f_db f) (BigToAddress a);
     instr_ok (set_stack (set_db f d) (stack_push st (int l)))
   }"

definition opCodeSize :: "'d instrFn" where
  "opCodeSize calls f = instr_ok (set_stack f (stack_push (f_stack f) (int (length (Code (f_contract f))))))"

definition opCodeCopy :: "'d instrFn" where
  "opCodeCopy calls f = do {
     (mOff, st) \<leftarrow> stack_pop (f_stack f);
     (cOff, st) \<leftarrow> stack_pop st;
     (l, st) \<leftarrow> stack_pop st;
     data \<leftarrow> getData (Code (f_contract f)) cOff l;
     mem \<leftarrow> mem_Set (f_memory f) (big_Uint64 mOff) (big_Uint64 l) data;
     instr_ok (f\<lparr>f_stack := st, f_memory := mem\<rparr>)
   }"

definition opExtCodeCopy :: "'d instrFn" where
  "opExtCodeCopy calls f = do {
     (a, st) \<leftarrow> stack_pop (f_stack f);
     (mOff, st) \<leftarrow> stack_pop st;
     (cOff, st) \<leftarrow> stack_pop st;
     (l, st) \<leftarrow> stack_pop st;
     let (code, d) = db_GetCode (f_ops f) (f_db f) (BigToAddress a);
     codeCopy \<leftarrow> getData code cOff l;
     mem \<leftarrow> mem_Set (f_memory f) (big_Uint64 mOff) (big_Uint64 l) codeCopy;
     instr_ok ((set_db f d)\<lparr>f_stack := st, f_memory := mem\<rparr>)
   }"

definition opGasprice :: "'d instrFn" where
  "opGasprice calls f = instr_ok (set_stack f (stack_push (f_stack f) (Price (f_contract f))))"

definition opBlockhash :: "'d instrFn" where
  "opBlockhash calls f = do {
     (num, st) \<leftarrow> stack_pop (f_stack f);
     let n = env_BlockNumber (f_env f) - 257;
     instr_ok (set_stack f (stack_push st
       (if num > n \<and> num < env_BlockNumber (f_env f)
        then Hash_Big (env_GetHash (f_env f) (big_Uint64 num)) else 0)))
   }"

definition opCoinbase :: "'d instrFn" where
  "opCoinbase calls f = instr_ok (set_stack f (stack_push (f_stack f) (Address_Big (env_Coinbase (f_env f)))))"

definition opTimestamp :: "'d instrFn" where
  "opTimestamp calls f = instr_ok (set_stack f (stack_push (f_stack f) (U256 (env_Time (f_env f)))))"

definition opNumber :: "'d instrFn" where
  "opNumber calls f = instr_ok (set_stack f (stack_push (f_stack f) (U256 (env_BlockNumber (f_env f)))))"

definition opDifficulty :: "'d instrFn" where
  "opDifficulty calls f = instr_ok (set_stack f (stack_push (f_stack f) (U256 (env_Difficulty (f_env f)))))"

definition opGasLimit :: "'d instrFn" where
  "opGasLimit calls f = instr_ok (set_stack f (stack_push (f_stack f) (U256 (env_GasLimit (f_env f)))))"

section \<open>Stack, memory, storage and control flow\<close>

definition opPop :: "'d instrFn" where
  "opPop calls f = do {
     (x, st) \<leftarrow> stack_pop (f_stack f);
     instr_ok (set_stack f st)
   }"

definition opMload :: "'d instrFn" where
  "opMload calls f = do {
     (offset, st) \<leftarrow> stack_pop (f_stack f);
     data \<leftarrow> mem_Get (f_memory f) (big_Int64 offset) 32;
     instr_ok (set_stack f (stack_push st (big_SetBytes data)))
   }"

definition opMstore :: "'d instrFn" where
  "opMstore calls f = do {
     (mStart, st) \<leftarrow> stack_pop (f_stack f);
     (val, st) \<leftarrow> stack_pop st;
     mem \<leftarrow> mem_Set (f_memory f) (big_Uint64 mStart) 32 (BigToBytes val 256);
     instr_ok (f\<lparr>f_stack := st, f_memory := mem\<rparr>)
   }"

definition opMstore8 :: "'d instrFn" where
  "opMstore8 calls f = do {
     (off, st) \<leftarrow> stack_pop (f_stack f);
     (val, st) \<leftarrow> stack_pop st;
     mem \<leftarrow> mem_Set8 (f_memory f) (big_Int64 off) (word_of_int (big_Int64 val AND 0xff));
     instr_ok (f\<lparr>f_stack := st, f_memory := mem\<rparr>)
   }"

definition opSload :: "'d instrFn" where
  "opSload calls f = do {
     (x, st) \<leftarrow> stack_pop (f_stack f);
     let loc = BigToHash x;
     let (v, d) = db_GetState (f_ops f) (f_db f) (f_Address f) loc;
     instr_ok (set_stack (set_db f d) (stack_push st (Hash_Big v)))
   }"

definition opSstore :: "'d instrFn" where
  "opSstore calls f = do {
     (x, st) \<leftarrow> stack_pop (f_stack f);
     let loc = BigToHash x;
     (val, st) \<leftarrow> stack_pop st;
     let d = db_SetState (f_ops f) (f_db f) (f_Address f) loc (BigToHash val);
     instr_ok (set_stack (set_db f d) st)
   }"

text \<open>\<^verbatim>\<open>isValidJump\<close> of \<^verbatim>\<open>contract.go\<close>; it may fill the jump destination cache.\<close>

definition isValidJump :: "Contract \<Rightarrow> int \<Rightarrow> (bool \<times> Contract) option" where
  "isValidJump c to =
     map_option (\<lambda>(ok, d). (ok, c\<lparr>c_jumpdests := d\<rparr>))
       (destinations_has (c_jumpdests c) (CodeHash c) (Code c) to)"

definition opJump :: "'d instrFn" where
  "opJump calls f = do {
     (pos, st) \<leftarrow> stack_pop (f_stack f);
     (ok, c) \<leftarrow> isValidJump (f_contract f) pos;
     let f = f\<lparr>f_stack := st, f_contract := c\<rparr>;
     if ok then instr_ok (f\<lparr>pc := big_Uint64 pos\<rparr>) else instr_err ErrInvalidJump f
   }"

definition opJumpi :: "'d instrFn" where
  "opJumpi calls f = do {
     (pos, st) \<leftarrow> stack_pop (f_stack f);
     (cond, st) \<leftarrow> stack_pop st;
     if big_Sign cond \<noteq> 0 then do {
       (ok, c) \<leftarrow> isValidJump (f_contract f) pos;
       let f = f\<lparr>f_stack := st, f_contract := c\<rparr>;
       if ok then instr_ok (f\<lparr>pc := big_Uint64 pos\<rparr>) else instr_err ErrInvalidJump f
     }
     else instr_ok (f\<lparr>f_stack := st, pc := pc f + 1\<rparr>)
   }"

definition opJumpdest :: "'d instrFn" where
  "opJumpdest calls f = instr_ok f"

definition opPc :: "'d instrFn" where
  "opPc calls f = instr_ok (set_stack f (stack_push (f_stack f) (uint (pc f))))"

definition opMsize :: "'d instrFn" where
  "opMsize calls f = instr_ok (set_stack f (stack_push (f_stack f) (int (length (f_memory f)))))"

definition opGas :: "'d instrFn" where
  "opGas calls f = instr_ok (set_stack f (stack_push (f_stack f) (Gas (f_contract f))))"

section \<open>Calls and contract creation\<close>

text \<open>The caller of an instruction is the running contract, which the call changes in place.\<close>

definition set_parent :: "'d frame \<Rightarrow> ContractRef \<Rightarrow> 'd frame option" where
  "set_parent f r = (case r of ParentRef c \<Rightarrow> Some (f\<lparr>f_contract := c\<rparr>) | AccountRef a \<Rightarrow> None)"

definition opCreate :: "'d instrFn" where
  "opCreate calls f = do {
     (v, st) \<leftarrow> stack_pop (f_stack f);
     (offset, st) \<leftarrow> stack_pop st;
     (sz, st) \<leftarrow> stack_pop st;
     input \<leftarrow> mem_Get (f_memory f) (big_Int64 offset) (big_Int64 sz);
     let gas = Gas (f_contract f);
     let gas = (case CreateBySuicide (evm_gasTable (f_env f)) of
                  Some _ \<Rightarrow> Gas (f_contract f) - big_Div gas 64 | None \<Rightarrow> gas);
     let (_, c) = UseGas (f_contract f) gas;
     r \<leftarrow> env_Create calls (f_env f) (ParentRef c) input gas (Price c) v;
     (case r of
        NoFuel \<Rightarrow> Some NoFuel
      | Done (ret, addr, suberr, env', caller', _) \<Rightarrow> do {
          f \<leftarrow> set_parent (f\<lparr>f_env := env'\<rparr>) caller';
          let pushed =
            (if isHomestead env' \<and> suberr = Some CodeStoreOutOfGasError then 0
             else if suberr \<noteq> None \<and> suberr \<noteq> Some CodeStoreOutOfGasError then 0
             else Address_Big addr);
          let f = set_stack f (stack_push st pushed);
          if suberr = Some ErrRevert then instr_ret ret f else instr_ok f
        })
   }"

text \<open>The common tail of the call instructions: push the success flag, store the returned bytes.\<close>

definition finish_call ::
  "'d frame \<Rightarrow> stack \<Rightarrow> int \<Rightarrow> int \<Rightarrow> 'd call_result outcome \<Rightarrow> 'd instr_result" where
  "finish_call f st retOffset retSize r =
     (case r of
        NoFuel \<Rightarrow> Some NoFuel
      | Done (ret, err, env', caller', _) \<Rightarrow> do {
          f \<leftarrow> set_parent (f\<lparr>f_env := env'\<rparr>) caller';
          let f = set_stack f (stack_push st (if err \<noteq> None then 0 else 1));
          if err = None \<or> err = Some ErrRevert then do {
            mem \<leftarrow> mem_Set (f_memory f) (big_Uint64 retOffset) (big_Uint64 retSize) ret;
            instr_ret ret (f\<lparr>f_memory := mem\<rparr>)
          }
          else instr_ret ret f
        })"

definition opCall :: "'d instrFn" where
  "opCall calls f = do {
     (gas, st) \<leftarrow> stack_pop (f_stack f);
     (addr, st) \<leftarrow> stack_pop st;
     (v, st) \<leftarrow> stack_pop st;
     let v = U256 v;
     (inOffset, st) \<leftarrow> stack_pop st;
     (inSize, st) \<leftarrow> stack_pop st;
     (retOffset, st) \<leftarrow> stack_pop st;
     (retSize, st) \<leftarrow> stack_pop st;
     let address = BigToAddress addr;
     args \<leftarrow> mem_Get (f_memory f) (big_Int64 inOffset) (big_Int64 inSize);
     let gas = (if length (big_Bytes v) > 0 then gas + callStipend else gas);
     r \<leftarrow> env_Call calls (f_env f) (ParentRef (f_contract f)) address args gas
            (Price (f_contract f)) v;
     finish_call f st retOffset retSize r
   }"

definition opCallCode :: "'d instrFn" where
  "opCallCode calls f = do {
     (gas, st) \<leftarrow> stack_pop (f_stack f);
     (addr, st) \<leftarrow> stack_pop st;
     (v, st) \<leftarrow> stack_pop st;
     let v = U256 v;
     (inOffset, st) \<leftarrow> stack_pop st;
     (inSize, st) \<leftarrow> stack_pop st;
     (retOffset, st) \<leftarrow> stack_pop st;
     (retSize, st) \<leftarrow> stack_pop st;
     let address = BigToAddress addr;
     args \<leftarrow> mem_Get (f_memory f) (big_Int64 inOffset) (big_Int64 inSize);
     let gas = (if length (big_Bytes v) > 0 then gas + callStipend else gas);
     r \<leftarrow> env_CallCode calls (f_env f) (ParentRef (f_contract f)) address args gas
            (Price (f_contract f)) v;
     finish_call f st retOffset retSize r
   }"

definition opDelegateCall :: "'d instrFn" where
  "opDelegateCall calls f = do {
     (gas, st) \<leftarrow> stack_pop (f_stack f);
     (to, st) \<leftarrow> stack_pop st;
     (inOffset, st) \<leftarrow> stack_pop st;
     (inSize, st) \<leftarrow> stack_pop st;
     (outOffset, st) \<leftarrow> stack_pop st;
     (outSize, st) \<leftarrow> stack_pop st;
     let toAddr = BigToAddress to;
     args \<leftarrow> mem_Get (f_memory f) (big_Int64 inOffset) (big_Int64 inSize);
     r \<leftarrow> env_DelegateCall calls (f_env f) (ParentRef (f_contract f)) toAddr args gas
            (Price (f_contract f));
     finish_call f st outOffset outSize r
   }"

definition opStaticCall :: "'d instrFn" where
  "opStaticCall calls f = do {
     (gas, st) \<leftarrow> stack_pop (f_stack f);
     (to, st) \<leftarrow> stack_pop st;
     (inOffset, st) \<leftarrow> stack_pop st;
     (inSize, st) \<leftarrow> stack_pop st;
     (outOffset, st) \<leftarrow> stack_pop st;
     (outSize, st) \<leftarrow> stack_pop st;
     let toAddr = BigToAddress to;
     args \<leftarrow> mem_Get (f_memory f) (big_Int64 inOffset) (big_Int64 inSize);
     r \<leftarrow> env_StaticCall calls (f_env f) (ParentRef (f_contract f)) toAddr args gas
            (Price (f_contract f));
     finish_call f st outOffset outSize r
   }"

section \<open>Halting, return data, logs and the numbered families\<close>

definition opReturn :: "'d instrFn" where
  "opReturn calls f = do {
     (offset, st) \<leftarrow> stack_pop (f_stack f);
     (sz, st) \<leftarrow> stack_pop st;
     ret \<leftarrow> mem_GetPtr (f_memory f) (big_Int64 offset) (big_Int64 sz);
     instr_ret ret (set_stack f st)
   }"

definition opRevert :: "'d instrFn" where
  "opRevert calls f = do {
     (offset, st) \<leftarrow> stack_pop (f_stack f);
     (sz, st) \<leftarrow> stack_pop st;
     ret \<leftarrow> mem_GetPtr (f_memory f) (big_Int64 offset) (big_Int64 sz);
     instr_ret ret (set_stack f st)
   }"

definition opStop :: "'d instrFn" where
  "opStop calls f = instr_ok f"

definition opSuicide :: "'d instrFn" where
  "opSuicide calls f = do {
     let (bal, d) = db_GetBalance (f_ops f) (f_db f) (f_Address f);
     (a, st) \<leftarrow> stack_pop (f_stack f);
     let d = db_AddBalance (f_ops f) d (BigToAddress a) bal;
     let (_, d) = db_Suicide (f_ops f) d (f_Address f);
     instr_ok (set_stack (set_db f d) st)
   }"

definition opReturnDataSize :: "'d instrFn" where
  "opReturnDataSize calls f =
     instr_ok (set_stack f (stack_push (f_stack f) (int (length (env_ReturnData (f_env f))))))"

definition opReturnDataCopy :: "'d instrFn" where
  "opReturnDataCopy calls f = do {
     (memOffset, st) \<leftarrow> stack_pop (f_stack f);
     (dataOffset, st) \<leftarrow> stack_pop st;
     (l, st) \<leftarrow> stack_pop st;
     let end = dataOffset + l;
     let rd = env_ReturnData (f_env f);
     if \<not> big_IsUint64 end \<or> length rd < unat (big_Uint64 end)
     then instr_err ErrReturnDataOutOfBounds (set_stack f st)
     else do {
       data \<leftarrow> getData rd dataOffset l;
       mem \<leftarrow> mem_Set (f_memory f) (big_Uint64 memOffset) (big_Uint64 l) data;
       instr_ok (f\<lparr>f_stack := st, f_memory := mem\<rparr>)
     }
   }"

text \<open>The loop that pops the topics of a log.\<close>

fun pop_topics :: "nat \<Rightarrow> stack \<Rightarrow> (hash list \<times> stack) option" where
  "pop_topics 0 st = Some ([], st)"
| "pop_topics (Suc n) st = do {
     (x, st) \<leftarrow> stack_pop st;
     (ts, st) \<leftarrow> pop_topics n st;
     Some (BigToHash x # ts, st)
   }"

definition makeLog :: "nat \<Rightarrow> 'd instrFn" where
  "makeLog n calls f = do {
     (mStart, st) \<leftarrow> stack_pop (f_stack f);
     (mSize, st) \<leftarrow> stack_pop st;
     (topics, st) \<leftarrow> pop_topics n st;
     data \<leftarrow> mem_Get (f_memory f) (big_Int64 mStart) (big_Int64 mSize);
     let log = NewLog (f_Address f) topics data (big_Uint64 (env_BlockNumber (f_env f)));
     instr_ok (set_stack (set_db f (db_AddLog (f_ops f) (f_db f) log)) st)
   }"

definition makePush :: "nat \<Rightarrow> 'd instrFn" where
  "makePush n calls f = do {
     data \<leftarrow> getData (Code (f_contract f)) (uint (pc f + 1)) (int n);
     instr_ok (f\<lparr>f_stack := stack_push (f_stack f) (big_SetBytes data), pc := pc f + word_of_nat n\<rparr>)
   }"

definition makeDup :: "nat \<Rightarrow> 'd instrFn" where
  "makeDup n calls f = do {
     st \<leftarrow> stack_dup (f_stack f) n;
     instr_ok (set_stack f st)
   }"

text \<open>\<^verbatim>\<open>makeSwap\<close> adds 1 to its argument: element \<open>n + 1\<close> from the top changes places with the top.\<close>

definition makeSwap :: "nat \<Rightarrow> 'd instrFn" where
  "makeSwap n calls f = do {
     st \<leftarrow> stack_swap (f_stack f) (n + 1);
     instr_ok (set_stack f st)
   }"

lemmas plain_instr_defs [instr_defs] =
  opAdd_def opSub_def opMul_def opDiv_def opSdiv_def opMod_def opSmod_def opExp_def
  opSignExtend_def opNot_def opLt_def opGt_def opSlt_def opSgt_def opEq_def opIszero_def
  opAnd_def opOr_def opXor_def opByte_def opAddmod_def opMulmod_def opSha3_def opAddress_def
  opBalance_def opOrigin_def opCaller_def opCallValue_def opCalldataLoad_def opCalldataSize_def
  opCalldataCopy_def opExtCodeSize_def opCodeSize_def opCodeCopy_def opExtCodeCopy_def
  opGasprice_def opBlockhash_def opCoinbase_def opTimestamp_def opNumber_def opDifficulty_def
  opGasLimit_def opPop_def opMload_def opMstore_def opMstore8_def opSload_def opSstore_def
  opJump_def opJumpi_def opJumpdest_def opPc_def opMsize_def opGas_def opReturn_def
  opRevert_def opStop_def opSuicide_def opReturnDataSize_def opReturnDataCopy_def makeLog_def
  makePush_def makeDup_def makeSwap_def

lemmas call_instr_defs = opCreate_def opCall_def opCallCode_def opDelegateCall_def opStaticCall_def

end
