(* ===== verification/Vm_Interpreter.thy ===== *)
theory Vm_Interpreter
  imports Vm_Instructions
begin

text \<open>
  \<^verbatim>\<open>core/vm/jump_table.go\<close> and \<^verbatim>\<open>core/vm/vm.go\<close>: the table from opcodes to instructions, the dynamic gas
  and memory size of an instruction, one iteration of the interpreter loop, and the entry and exit
  of \<^verbatim>\<open>Run\<close>. The loop itself, whose call instructions run other contracts, is tied in the theory of
  \<^verbatim>\<open>core/execution.go\<close>.
\<close>

section \<open>The jump table\<close>

record 'd jumpPtr =
  jp_fn :: "'d instrFn"
  valid :: bool
  jumps :: bool
  halts :: bool
  reverts :: bool
  returns :: bool
  writes :: bool

abbreviation instr :: "'d instrFn \<Rightarrow> 'd jumpPtr" where
  "instr fn \<equiv> \<lparr>jp_fn = fn, valid = True, jumps = False, halts = False, reverts = False,
     returns = False, writes = False\<rparr>"

text \<open>An entry of the table that is not set has a nil function.\<close>

abbreviation no_instr :: "'d jumpPtr" where
  "no_instr \<equiv> \<lparr>jp_fn = (\<lambda>calls f. None), valid = False, jumps = False, halts = False,
     reverts = False, returns = False, writes = False\<rparr>"

text \<open>The entries for \<^verbatim>\<open>LOG0\<close> to \<^verbatim>\<open>LOG4\<close>, \<^verbatim>\<open>SWAP1\<close> to \<^verbatim>\<open>SWAP16\<close>, \<^verbatim>\<open>PUSH1\<close> to \<^verbatim>\<open>PUSH32\<close> and \<^verbatim>\<open>DUP1\<close> to \<^verbatim>\<open>DUP16\<close>.\<close>

definition frontier_log :: "nat \<Rightarrow> 'd jumpPtr" where [simp]:
  "frontier_log k = (if k \<le> 4 then (instr (makeLog k))\<lparr>writes := True\<rparr> else no_instr)"

definition frontier_swap :: "nat \<Rightarrow> 'd jumpPtr" where [simp]:
  "frontier_swap k = (if 1 \<le> k \<and> k \<le> 16 then instr (makeSwap k) else no_instr)"

definition frontier_push :: "nat \<Rightarrow> 'd jumpPtr" where [simp]:
  "frontier_push k = (if 1 \<le> k \<and> k \<le> 32 then instr (makePush k) else no_instr)"

definition frontier_dup :: "nat \<Rightarrow> 'd jumpPtr" where [simp]:
  "frontier_dup k = (if 1 \<le> k \<and> k \<le> 16 then instr (makeDup k) else no_instr)"

definition newFrontierInstructionSet :: "OpCode \<Rightarrow> 'd jumpPtr" where
  "newFrontierInstructionSet op = (case op of
     ADD \<Rightarrow> instr opAdd
   | SUB \<Rightarrow> instr opSub
   | MUL \<Rightarrow> instr opMul
   | DIV \<Rightarrow> instr opDiv
   | SDIV \<Rightarrow> instr opSdiv
   | MOD \<Rightarrow> instr opMod
   | SMOD \<Rightarrow> instr opSmod
   | EXP \<Rightarrow> instr opExp
   | SIGNEXTEND \<Rightarrow> instr opSignExtend
   | NOT_op \<Rightarrow> instr opNot
   | LT \<Rightarrow> instr opLt
   | GT \<Rightarrow> instr opGt
   | SLT \<Rightarrow> instr opSlt
   | SGT \<Rightarrow> instr opSgt
   | EQ \<Rightarrow> instr opEq
   | ISZERO \<Rightarrow> instr opIszero
   | AND_op \<Rightarrow> instr opAnd
   | OR_op \<Rightarrow> instr opOr
   | XOR_op \<Rightarrow> instr opXor
   | BYTE \<Rightarrow> instr opByte
   | ADDMOD \<Rightarrow> instr opAddmod
   | MULMOD \<Rightarrow> instr opMulmod
   | SHA3 \<Rightarrow> instr opSha3
   | ADDRESS \<Rightarrow> instr opAddress
   | BALANCE \<Rightarrow> instr opBalance
   | ORIGIN \<Rightarrow> instr opOrigin
   | CALLER \<Rightarrow> instr opCaller
   | CALLVALUE \<Rightarrow> instr opCallValue
   | CALLDATALOAD \<Rightarrow> instr opCalldataLoad
   | CALLDATASIZE \<Rightarrow> instr opCalldataSize
   | CALLDATACOPY \<Rightarrow> instr opCalldataCopy
   | CODESIZE \<Rightarrow> instr opCodeSize
   | EXTCODESIZE \<Rightarrow> instr opExtCodeSize
   | CODECOPY \<Rightarrow> instr opCodeCopy
   | EXTCODECOPY \<Rightarrow> instr opExtCodeCopy
   | GASPRICE \<Rightarrow> instr opGasprice
   | BLOCKHASH \<Rightarrow> instr opBlockhash
   | COINBASE \<Rightarrow> instr opCoinbase
   | TIMESTAMP \<Rightarrow> instr opTimestamp
   | NUMBER \<Rightarrow> instr opNumber
   | DIFFICULTY \<Rightarrow> instr opDifficulty
   | GASLIMIT \<Rightarrow> instr opGasLimit
   | POP \<Rightarrow> instr opPop
   | MLOAD \<Rightarrow> instr opMload
   | MSTORE \<Rightarrow> instr opMstore
   | MSTORE8 \<Rightarrow> instr opMstore8
   | SLOAD \<Rightarrow> instr opSload
   | SSTORE \<Rightarrow> (instr opSstore)\<lparr>writes := True\<rparr>
   | JUMPDEST \<Rightarrow> instr opJumpdest
   | PC \<Rightarrow> instr opPc
   | MSIZE \<Rightarrow> instr opMsize
   | GAS \<Rightarrow> instr opGas
   | CREATE \<Rightarrow> (instr opCreate)\<lparr>writes := True, returns := True\<rparr>
   | CALL \<Rightarrow> (instr opCall)\<lparr>returns := True\<rparr>
   | CALLCODE \<Rightarrow> (instr opCallCode)\<lparr>returns := True\<rparr>
   | LOGn k \<Rightarrow> frontier_log k
   | SWAPn k \<Rightarrow> frontier_swap k
   | PUSHn k \<Rightarrow> frontier_push k
   | DUPn k \<Rightarrow> frontier_dup k
   | RETURN \<Rightarrow> (instr opReturn)\<lparr>halts := True\<rparr>
   | SUICIDE \<Rightarrow> (instr opSuicide)\<lparr>halts := True, writes := True\<rparr>
   | JUMP \<Rightarrow> (instr opJump)\<lparr>jumps := True\<rparr>
   | JUMPI \<Rightarrow> (instr opJumpi)\<lparr>jumps := True\<rparr>
   | STOP \<Rightarrow> (instr opStop)\<lparr>halts := True\<rparr>
   | _ \<Rightarrow> no_instr)"

definition newJumpTable :: "bool \<Rightarrow> OpCode \<Rightarrow> 'd jumpPtr" where
  "newJumpTable hardfork2 op =
     (if hardfork2 then
        (case op of
           DELEGATECALL \<Rightarrow> (instr opDelegateCall)\<lparr>returns := True\<rparr>
         | REVERT \<Rightarrow> (instr opRevert)\<lparr>reverts := True, returns := True\<rparr>
         | RETURNDATASIZE \<Rightarrow> instr opReturnDataSize
         | RETURNDATACOPY \<Rightarrow> instr opReturnDataCopy
         | STATICCALL \<Rightarrow> (instr opStaticCall)\<lparr>returns := True\<rparr>
         | _ \<Rightarrow> newFrontierInstructionSet op)
      else newFrontierInstructionSet op)"

section \<open>Dynamic gas and memory size\<close>

text \<open>
  The branch of \<^verbatim>\<open>calculateGasAndSize\<close> for \<^verbatim>\<open>SUICIDE\<close>: the price may depend on the state, and the refund
  is added here, before the gas is taken.
\<close>

definition suicide_price :: "'d frame \<Rightarrow> int \<Rightarrow> address \<Rightarrow> int \<times> 'd" where
  "suicide_price f gas address =
     (let gt = evm_gasTable (f_env f); ops = f_ops f; d = f_db f
      in case CreateBySuicide gt of
           None \<Rightarrow> (gas, d)
         | Some create \<Rightarrow>
             if isHardfork2 (f_env f) then
               (let (empty, d) = db_Empty ops d address in
                if empty then
                  (let (bal, d) = db_GetBalance ops d (f_Address f) in
                   (if big_Sign bal \<noteq> 0 then SuicideGas gt + create else SuicideGas gt, d))
                else (SuicideGas gt, d))
             else
               (let (ex, d) = db_Exist ops d address in
                (if \<not> ex then SuicideGas gt + create else SuicideGas gt, d)))"

definition suicide_gas :: "'d frame \<Rightarrow> int \<Rightarrow> address \<Rightarrow> int \<times> 'd" where
  "suicide_gas f gas address =
     (let (gas, d) = suicide_price f gas address;
          (dead, d) = db_HasSuicided (f_ops f) d (f_Address f)
      in (gas, if \<not> dead then db_AddRefund (f_ops f) d 24000 else d))"

text \<open>The branch for \<^verbatim>\<open>SSTORE\<close>: 20000 for a new value, 5000 otherwise, and a refund for a deletion.\<close>

definition sstore_gas :: "'d frame \<Rightarrow> int \<Rightarrow> int \<Rightarrow> int \<times> 'd" where
  "sstore_gas f x y =
     (let ops = f_ops f;
          (val, d) = db_GetState ops (f_db f) (f_Address f) (BigToHash x)
      in if EmptyHash val \<and> \<not> EmptyHash (BigToHash y) then (20000, d)
         else if \<not> EmptyHash val \<and> EmptyHash (BigToHash y) then (5000, db_AddRefund ops d 15000)
         else (5000, d))"

text \<open>The charge of \<^verbatim>\<open>CALL\<close> for a new account and of \<^verbatim>\<open>CALL\<close> and \<^verbatim>\<open>CALLCODE\<close> for a value.\<close>

definition call_gas :: "'d frame \<Rightarrow> OpCode \<Rightarrow> int \<Rightarrow> int \<Rightarrow> int \<Rightarrow> int \<times> 'd" where
  "call_gas f op gas addr v =
     (let ops = f_ops f; d = f_db f;
          (gas, d) =
            (if op = CALL then
               (let address = BigToAddress addr; transfersValue = (big_Sign v \<noteq> 0) in
                if isHardfork2 (f_env f) then
                  (if transfersValue then
                     (let (empty, d) = db_Empty ops d address in
                      (if empty then gas + 25000 else gas, d))
                   else (gas, d))
                else
                  (let (ex, d) = db_Exist ops d address in
                   (if \<not> ex then gas + 25000 else gas, d)))
             else (gas, d))
      in (if length (big_Bytes v) > 0 then gas + 9000 else gas, d))"

text \<open>
  The end of the branches for the call instructions: the memory is sized for input and output, and
  the gas argument on top of the stack is replaced by what the call may take.
\<close>

definition call_mem_gas ::
  "'d frame \<Rightarrow> int \<Rightarrow> int \<Rightarrow> int \<Rightarrow> int \<Rightarrow> int \<Rightarrow> ((vm_error + int \<times> int) \<times> 'd frame) option" where
  "call_mem_gas f gas outOff outSize inOff inSize = do {
     let x = calcMemSize outOff outSize;
     let y = calcMemSize inOff inSize;
     let (newMemSize, gas) = quadMemGas (f_memory f) (BigMax x y) gas;
     callCost \<leftarrow> stack_back (f_stack f) 0;
     let cg = callGas (evm_gasTable (f_env f)) (Gas (f_contract f)) gas callCost;
     st \<leftarrow> stack_set_top (f_stack f) cg;
     Some (Inr (newMemSize, gas + cg), set_stack f st)
   }"

text \<open>A branch that only sizes the memory for the bytes \<open>[off, off + l)\<close>.\<close>

definition mem_branch ::
  "'d frame \<Rightarrow> int \<Rightarrow> int \<Rightarrow> int \<Rightarrow> ((vm_error + int \<times> int) \<times> 'd frame) option" where
  "mem_branch f gas off l = Some (Inr (quadMemGas (f_memory f) (calcMemSize off l) gas), f)"

definition calculateGasAndSize ::
  "'d frame \<Rightarrow> OpCode \<Rightarrow> ((vm_error + int \<times> int) \<times> 'd frame) option" where
  "calculateGasAndSize f op =
     (let st = f_stack f; gasTable = evm_gasTable (f_env f) in
      case baseCheck op st of
        Inl err \<Rightarrow> Some (Inl err, f)
      | Inr gas \<Rightarrow>
        (case op of
           RETURNDATACOPY \<Rightarrow> do {
             off \<leftarrow> stack_back st 0; l \<leftarrow> stack_back st 2;
             mem_branch f (gas + GasFastestStep + toWordSize l * 3) off l }
         | REVERT \<Rightarrow> do {
             off \<leftarrow> stack_back st 0; l \<leftarrow> stack_back st 1;
             mem_branch f gas off l }
         | SUICIDE \<Rightarrow> do {
             a \<leftarrow> stack_back st 0;
             let (gas, d) = suicide_gas f gas (BigToAddress a);
             Some (Inr (0, gas), set_db f d) }
         | EXTCODESIZE \<Rightarrow> Some (Inr (0, ExtcodeSize gasTable), f)
         | BALANCE \<Rightarrow> Some (Inr (0, BalanceGas gasTable), f)
         | SLOAD \<Rightarrow> Some (Inr (0, SLoad gasTable), f)
         | SWAPn k \<Rightarrow>
             (case stack_require st (k + 1) of
                Some err \<Rightarrow> Some (Inl err, f)
              | None \<Rightarrow> Some (Inr (0, GasFastestStep), f))
         | DUPn k \<Rightarrow>
             (case stack_require st k of
                Some err \<Rightarrow> Some (Inl err, f)
              | None \<Rightarrow> Some (Inr (0, GasFastestStep), f))
         | LOGn n \<Rightarrow>
             (case stack_require st (n + 2) of
                Some err \<Rightarrow> Some (Inl err, f)
              | None \<Rightarrow> do {
                  mSize \<leftarrow> stack_back st 1; mStart \<leftarrow> stack_back st 0;
                  mem_branch f (gas + 375 + int n * 375 + mSize * 8) mStart mSize })
         | EXP \<Rightarrow> do {
             y \<leftarrow> stack_back st 1;
             Some (Inr (0, gas + int (length (big_Bytes y)) * ExpByte gasTable), f) }
         | SSTORE \<Rightarrow>
             (case stack_require st 2 of
                Some err \<Rightarrow> Some (Inl err, f)
              | None \<Rightarrow> do {
                  y \<leftarrow> stack_back st 1; x \<leftarrow> stack_back st 0;
                  let (g, d) = sstore_gas f x y;
                  Some (Inr (0, g), set_db f d) })
         | MLOAD \<Rightarrow> do { off \<leftarrow> stack_back st 0; mem_branch f gas off 32 }
         | MSTORE8 \<Rightarrow> do { off \<leftarrow> stack_back st 0; mem_branch f gas off 1 }
         | MSTORE \<Rightarrow> do { off \<leftarrow> stack_back st 0; mem_branch f gas off 32 }
         | RETURN \<Rightarrow> do {
             off \<leftarrow> stack_back st 0; l \<leftarrow> stack_back st 1;
             mem_branch f gas off l }
         | SHA3 \<Rightarrow> do {
             off \<leftarrow> stack_back st 0; l \<leftarrow> stack_back st 1;
             mem_branch f (gas + toWordSize l * 6) off l }
         | CALLDATACOPY \<Rightarrow> do {
             off \<leftarrow> stack_back st 0; l \<leftarrow> stack_back st 2;
             mem_branch f (gas + toWordSize l * 3) off l }
         | CODECOPY \<Rightarrow> do {
             off \<leftarrow> stack_back st 0; l \<leftarrow> stack_back st 2;
             mem_branch f (gas + toWordSize l * 3) off l }
         | EXTCODECOPY \<Rightarrow> do {
             off \<leftarrow> stack_back st 1; l \<leftarrow> stack_back st 3;
             mem_branch f (ExtcodeCopy gasTable + toWordSize l * 3) off l }
         | CREATE \<Rightarrow> do {
             off \<leftarrow> stack_back st 1; l \<leftarrow> stack_back st 2;
             mem_branch f gas off l }
         | CALL \<Rightarrow> do {
             addr \<leftarrow> stack_back st 1; v \<leftarrow> stack_back st 2;
             let (gas, d) = call_gas f CALL (Calls gasTable) addr v;
             outOff \<leftarrow> stack_back st 5; outSize \<leftarrow> stack_back st 6;
             inOff \<leftarrow> stack_back st 3; inSize \<leftarrow> stack_back st 4;
             call_mem_gas (set_db f d) gas outOff outSize inOff inSize }
         | CALLCODE \<Rightarrow> do {
             addr \<leftarrow> stack_back st 1; v \<leftarrow> stack_back st 2;
             let (gas, d) = call_gas f CALLCODE (Calls gasTable) addr v;
             outOff \<leftarrow> stack_back st 5; outSize \<leftarrow> stack_back st 6;
             inOff \<leftarrow> stack_back st 3; inSize \<leftarrow> stack_back st 4;
             call_mem_gas (set_db f d) gas outOff outSize inOff inSize }
         | DELEGATECALL \<Rightarrow> do {
             outOff \<leftarrow> stack_back st 4; outSize \<leftarrow> stack_back st 5;
             inOff \<leftarrow> stack_back st 2; inSize \<leftarrow> stack_back st 3;
             call_mem_gas f (Calls gasTable) outOff outSize inOff inSize }
         | STATICCALL \<Rightarrow> do {
             outOff \<leftarrow> stack_back st 4; outSize \<leftarrow> stack_back st 5;
             inOff \<leftarrow> stack_back st 2; inSize \<leftarrow> stack_back st 3;
             call_mem_gas f (Calls gasTable) outOff outSize inOff inSize }
         | _ \<Rightarrow> Some (Inr (0, gas), f)))"

section \<open>One iteration of the loop\<close>

datatype 'd step_result = Continue "'d frame" | Return bytes "vm_error option" "'d frame"

text \<open>In read-only mode an instruction that writes, or a call that moves value, is refused.\<close>

definition write_protected :: "'d frame \<Rightarrow> OpCode \<Rightarrow> bool option" where
  "write_protected f op =
     (if evm_readOnly (f_env f) \<and> isHardfork2 (f_env f) then
        (if writes (newJumpTable (isHardfork2 (f_env f)) op :: 'd jumpPtr) then Some True
         else if op = CALL then map_option (\<lambda>v. big_Sign v \<noteq> 0) (stack_back (f_stack f) 2)
         else Some False)
      else Some False)"

text \<open>What the loop does with the result of an instruction.\<close>

definition after_instr :: "'d jumpPtr \<Rightarrow> bytes \<Rightarrow> vm_error option \<Rightarrow> 'd frame \<Rightarrow> 'd step_result" where
  "after_instr operation res err f =
     (let f = (if returns operation then f\<lparr>f_env := (f_env f)\<lparr>env_ReturnData := res\<rparr>\<rparr> else f) in
      if err \<noteq> None then Return [] err f
      else if reverts operation then Return res (Some ErrRevert) f
      else if halts operation then Return res None f
      else if \<not> jumps operation then Continue (f\<lparr>pc := pc f + 1\<rparr>)
      else Continue f)"

definition evm_step :: "'d Calls \<Rightarrow> 'd frame \<Rightarrow> 'd step_result outcome option" where
  "evm_step calls f = do {
     let op = GetOp (f_contract f) (pc f);
     let operation = newJumpTable (isHardfork2 (f_env f)) op;
     (r, f) \<leftarrow> calculateGasAndSize f op;
     (case r of
        Inl err \<Rightarrow> Some (Done (Return [] (Some err) f))
      | Inr (newMemSize, cost) \<Rightarrow> do {
          prot \<leftarrow> write_protected f op;
          if prot then Some (Done (Return [] (Some ErrWriteProtection) f))
          else
            (let (ok, c) = UseGas (f_contract f) cost; f = f\<lparr>f_contract := c\<rparr> in
             if \<not> ok then Some (Done (Return [] (Some OutOfGasError) f))
             else
               (let f = f\<lparr>f_memory := mem_Resize (f_memory f) (big_Uint64 newMemSize)\<rparr> in
                if \<not> valid operation then Some (Done (Return [] (Some (InvalidOpcode op)) f))
                else do {
                  r \<leftarrow> jp_fn operation calls f;
                  Some (map_outcome (\<lambda>(res, err, f). after_instr operation res err f) r)
                }))
        })
   }"

section \<open>Run\<close>

type_synonym 'd run_result = "bytes \<times> vm_error option \<times> 'd Environment \<times> Contract"

definition RunPrecompiled ::
  "PrecompiledAccount \<Rightarrow> bytes \<Rightarrow> Contract \<Rightarrow> (bytes \<times> vm_error option \<times> Contract) option" where
  "RunPrecompiled p input contract =
     (let gas = Precompiled_Gas p input; (ok, contract) = UseGas contract gas in
      if ok then map_option (\<lambda>(ret, err). (ret, err, contract)) (Precompiled_Call p input)
      else Some ([], Some OutOfGasError, contract))"

definition precompiles :: "'d Environment \<Rightarrow> address \<rightharpoonup> PrecompiledAccount" where
  "precompiles env =
     (if isHardfork2 env then env_PrecompiledAtlantis env else env_PrecompiledPreAtlantis env)"

definition init_frame :: "'d Environment \<Rightarrow> Contract \<Rightarrow> bytes \<Rightarrow> 'd frame" where
  "init_frame env contract input =
     \<lparr>pc = 0, f_env = env, f_contract = contract\<lparr>Input := input\<rparr>, f_memory = NewMemory,
      f_stack = newstack\<rparr>"

text \<open>
  \<^verbatim>\<open>Run\<close> with the loop as a parameter. Its deferred functions restore the depth and leave read-only mode
  if this call entered it.
\<close>

definition Run ::
  "('d frame \<Rightarrow> 'd run_result outcome option) \<Rightarrow>
   'd Environment \<Rightarrow> Contract \<Rightarrow> bytes \<Rightarrow> bool \<Rightarrow> 'd run_result outcome option" where
  "Run loop env contract input readOnly =
     (let depth = env_Depth env;
          enters = (readOnly \<and> \<not> evm_readOnly env);
          env = env\<lparr>env_Depth := depth + 1\<rparr>;
          env = (if enters then env\<lparr>evm_readOnly := True\<rparr> else env);
          env = env\<lparr>env_ReturnData := []\<rparr>;
          leave = (\<lambda>env. (if enters then env\<lparr>evm_readOnly := False\<rparr> else env)\<lparr>env_Depth := depth\<rparr>)
      in case Option.bind (CodeAddr contract) (precompiles env) of
           Some p \<Rightarrow>
             map_option (\<lambda>(ret, err, contract). Done (ret, err, leave env, contract))
               (RunPrecompiled p input contract)
         | None \<Rightarrow>
             if Code contract = [] then Some (Done ([], None, leave env, contract))
             else
               map_option (map_outcome (\<lambda>(ret, err, env, contract). (ret, err, leave env, contract)))
                 (loop (init_frame env contract input)))"

end
