(* ===== verification/Execution.thy ===== *)
theory Execution
  imports Vm_Interpreter
begin

text \<open>
  \<^verbatim>\<open>core/execution.go\<close>: the four kinds of message call, contract creation and the value transfer. Each
  takes the virtual machine's \<^verbatim>\<open>Run\<close> as a parameter. The interpreter loop is then defined with fuel: a
  unit is spent on each instruction and on each nested run, and \<open>NoFuel\<close> means that it did not suffice.
  The bound on the fuel a run needs is proved with the termination of the machine.
\<close>

type_synonym 'd runner =
  "'d Environment \<Rightarrow> Contract \<Rightarrow> bytes \<Rightarrow> bool \<Rightarrow> 'd run_result outcome option"

definition callCreateDepthMax :: int where "callCreateDepthMax = 1024"
definition maxCodeSize :: nat where "maxCodeSize = 24576"
definition CreateDataGas :: int where "CreateDataGas = 200"

text \<open>\<^verbatim>\<open>emptyCodeHash\<close> is the Keccak hash of the empty string.\<close>

definition emptyCodeHash :: "'d Environment \<Rightarrow> hash" where
  "emptyCodeHash env = env_Keccak256 env []"

definition Transfer :: "'d Database \<Rightarrow> 'd \<Rightarrow> address \<Rightarrow> address \<Rightarrow> int \<Rightarrow> 'd option" where
  "Transfer ops d from to amount = do {
     d \<leftarrow> acct_SubBalance ops d from amount;
     acct_AddBalance ops d to amount
   }"

text \<open>
  What all calls do after \<^verbatim>\<open>Run\<close>: on an error the state goes back to the snapshot, and the gas that is
  left is consumed unless the code asked for the revert. The deferred \<^verbatim>\<open>Finalise\<close> comes last.
\<close>

definition end_call ::
  "ContractRef \<Rightarrow> nat \<Rightarrow> 'd run_result outcome \<Rightarrow> 'd call_result outcome option" where
  "end_call caller snapshot r =
     (case r of
        NoFuel \<Rightarrow> Some NoFuel
      | Done (ret, err, env, contract) \<Rightarrow>
          if err \<noteq> None then do {
            d \<leftarrow> db_RevertToSnapshot (env_Ops env) (env_Db env) snapshot;
            let contract = (if err \<noteq> Some ErrRevert then UseAllGas contract else contract);
            Some (Done (ret, err, env\<lparr>env_Db := d\<rparr>, Finalise caller contract, Gas contract))
          }
          else Some (Done (ret, err, env, Finalise caller contract, Gas contract)))"

text \<open>An early return that gives the gas back to the caller.\<close>

abbreviation refuse_call ::
  "'d Environment \<Rightarrow> ContractRef \<Rightarrow> int \<Rightarrow> vm_error option \<Rightarrow> 'd call_result outcome option" where
  "refuse_call env caller gas err \<equiv> Some (Done ([], err, env, Ref_ReturnGas caller gas, gas))"

text \<open>\<^verbatim>\<open>contract.SetCallCode(&addr, env.Db().GetCodeHash(addr), env.Db().GetCode(addr))\<close>.\<close>

definition load_code :: "'d Environment \<Rightarrow> Contract \<Rightarrow> address \<Rightarrow> Contract \<times> 'd Environment" where
  "load_code env contract addr =
     (let (h, d) = db_GetCodeHash (env_Ops env) (env_Db env) addr;
          (code, d) = db_GetCode (env_Ops env) d addr
      in (SetCallCode contract (Some addr) h code, env\<lparr>env_Db := d\<rparr>))"

text \<open>
  \<^verbatim>\<open>GetAccount\<close> loads the account as \<^verbatim>\<open>Exist\<close> does; the account it returns is used through its address.
\<close>

definition Call ::
  "'d runner \<Rightarrow> 'd Environment \<Rightarrow> ContractRef \<Rightarrow> address \<Rightarrow> bytes \<Rightarrow> int \<Rightarrow> int \<Rightarrow> int \<Rightarrow>
   'd call_result outcome option" where
  "Call run env caller addr input gas gasPrice v =
     (if env_Depth env > callCreateDepthMax then refuse_call env caller gas (Some ErrCallCreateDepth)
      else
        (let ops = env_Ops env; (can, env) = CanTransfer env (Ref_Address caller) v in
         if \<not> can then
           (let (bal, d) = db_GetBalance ops (env_Db env) (Ref_Address caller) in
            refuse_call (env\<lparr>env_Db := d\<rparr>) caller gas (Some (ValueTransferError v bal)))
         else
           (let (_, d) = db_Exist ops (env_Db env) (Ref_Address caller);
                (snapshot, d) = db_Snapshot ops d;
                (ex, d) = db_Exist ops d addr
            in if \<not> ex \<and> precompiles env addr = None \<and> isHardfork2 env \<and> big_BitLen v = 0
               then refuse_call (env\<lparr>env_Db := d\<rparr>) caller gas None
               else do {
                 let d = (if \<not> ex then db_CreateAccount ops d addr else d);
                 d \<leftarrow> Transfer ops d (Ref_Address caller) addr v;
                 let (contract, env) =
                   load_code (env\<lparr>env_Db := d\<rparr>) (NewContract caller addr v gas gasPrice) addr;
                 r \<leftarrow> run env contract input False;
                 end_call caller snapshot r
               })))"

definition CallCode ::
  "'d runner \<Rightarrow> 'd Environment \<Rightarrow> ContractRef \<Rightarrow> address \<Rightarrow> bytes \<Rightarrow> int \<Rightarrow> int \<Rightarrow> int \<Rightarrow>
   'd call_result outcome option" where
  "CallCode run env caller addr input gas gasPrice v =
     (if env_Depth env > callCreateDepthMax then refuse_call env caller gas (Some ErrCallCreateDepth)
      else
        (let ops = env_Ops env; (can, env) = CanTransfer env (Ref_Address caller) v in
         if \<not> can then
           (let (bal, d) = db_GetBalance ops (env_Db env) (Ref_Address caller) in
            refuse_call (env\<lparr>env_Db := d\<rparr>) caller gas (Some (ValueTransferError v bal)))
         else do {
           let (_, d) = db_Exist ops (env_Db env) (Ref_Address caller);
           let (snapshot, d) = db_Snapshot ops d;
           let (contract, env) =
             load_code (env\<lparr>env_Db := d\<rparr>)
               (NewContract caller (Ref_Address caller) v gas gasPrice) addr;
           r \<leftarrow> run env contract input False;
           end_call caller snapshot r
         }))"

definition DelegateCall ::
  "'d runner \<Rightarrow> 'd Environment \<Rightarrow> ContractRef \<Rightarrow> address \<Rightarrow> bytes \<Rightarrow> int \<Rightarrow> int \<Rightarrow>
   'd call_result outcome option" where
  "DelegateCall run env caller addr input gas gasPrice =
     (if env_Depth env > callCreateDepthMax then refuse_call env caller gas (Some ErrCallCreateDepth)
      else do {
        let ops = env_Ops env;
        let (snapshot, d) = db_Snapshot ops (env_Db env);
        let (ex, d) = db_Exist ops d (Ref_Address caller);
        let d = (if \<not> ex then db_CreateAccount ops d (Ref_Address caller) else d);
        v \<leftarrow> Ref_Value caller;
        contract \<leftarrow> AsDelegate caller (NewContract caller (Ref_Address caller) v gas gasPrice);
        let (contract, env) = load_code (env\<lparr>env_Db := d\<rparr>) contract addr;
        r \<leftarrow> run env contract input False;
        end_call caller snapshot r
      })"

definition StaticCall ::
  "'d runner \<Rightarrow> 'd Environment \<Rightarrow> ContractRef \<Rightarrow> address \<Rightarrow> bytes \<Rightarrow> int \<Rightarrow> int \<Rightarrow>
   'd call_result outcome option" where
  "StaticCall run env caller addr input gas gasPrice =
     (if env_Depth env > callCreateDepthMax then refuse_call env caller gas (Some ErrCallCreateDepth)
      else do {
        let ops = env_Ops env;
        let (snapshot, d) = db_Snapshot ops (env_Db env);
        let (ex, d) = db_Exist ops d addr;
        let d = (if \<not> ex then db_CreateAccount ops d addr else d);
        let (contract, env) =
          load_code (env\<lparr>env_Db := d\<rparr>) (NewContract caller addr 0 gas gasPrice) addr;
        let env = env\<lparr>env_Db := db_AddBalance ops (env_Db env) addr 0\<rparr>;
        r \<leftarrow> run env contract input True;
        end_call caller snapshot r
      })"

text \<open>What \<^verbatim>\<open>Create\<close> does after \<^verbatim>\<open>Run\<close>: it pays for the code and stores it, or takes everything back.\<close>

definition end_create ::
  "ContractRef \<Rightarrow> address \<Rightarrow> nat \<Rightarrow> 'd run_result outcome \<Rightarrow> 'd create_result outcome option" where
  "end_create caller address snapshot r =
     (case r of
        NoFuel \<Rightarrow> Some NoFuel
      | Done (ret, err, env, contract) \<Rightarrow> do {
          let ops = env_Ops env;
          let maxCodeSizeExceeded = (length ret > maxCodeSize \<and> isHardfork2 env);
          let (err, env, contract) =
            (if err = None \<and> \<not> maxCodeSizeExceeded then
               (let dataGas = int (length ret) * CreateDataGas;
                    (ok, contract) = UseGas contract dataGas
                in if ok
                   then (None, env\<lparr>env_Db := db_SetCode ops (env_Db env) address ret\<rparr>, contract)
                   else (Some CodeStoreOutOfGasError, env, contract))
             else (err, env, contract));
          (env, contract) \<leftarrow>
            (if maxCodeSizeExceeded \<or>
                (err \<noteq> None \<and> (isHomestead env \<or> err \<noteq> Some CodeStoreOutOfGasError)) then do {
               d \<leftarrow> db_RevertToSnapshot ops (env_Db env) snapshot;
               Some (env\<lparr>env_Db := d\<rparr>,
                     if err \<noteq> Some ErrRevert then UseAllGas contract else contract)
             }
             else Some (env, contract));
          let err = (if maxCodeSizeExceeded \<and> err = None then Some ErrMaxCodeSizeExceeded else err);
          Some (Done (if err \<noteq> None \<and> err \<noteq> Some ErrRevert then [] else ret, address, err, env,
                      Finalise caller contract, Gas contract))
        })"

definition Create ::
  "'d runner \<Rightarrow> 'd Environment \<Rightarrow> ContractRef \<Rightarrow> bytes \<Rightarrow> int \<Rightarrow> int \<Rightarrow> int \<Rightarrow>
   'd create_result outcome option" where
  "Create run env caller code gas gasPrice v =
     (if env_Depth env > callCreateDepthMax then
        Some (Done ([], 0, Some ErrCallCreateDepth, env, Ref_ReturnGas caller gas, gas))
      else
        (let ops = env_Ops env; (can, env) = CanTransfer env (Ref_Address caller) v in
         if \<not> can then
           (let (bal, d) = db_GetBalance ops (env_Db env) (Ref_Address caller) in
            Some (Done ([], 0, Some (ValueTransferError v bal), env\<lparr>env_Db := d\<rparr>,
                        Ref_ReturnGas caller gas, gas)))
         else
           (let (nonce, d) = db_GetNonce ops (env_Db env) (Ref_Address caller);
                d = db_SetNonce ops d (Ref_Address caller) (nonce + 1);
                address = env_CreateAddress env (Ref_Address caller) nonce;
                (contractHash, d) = db_GetCodeHash ops d address;
                (n, d) = db_GetNonce ops d address
            in if n \<noteq> env_StartingNonce env \<or> (contractHash \<noteq> 0 \<and> contractHash \<noteq> emptyCodeHash env)
               then Some (Done ([], 0, Some ErrContractAddressCollision, env\<lparr>env_Db := d\<rparr>, caller, gas))
               else do {
                 let (snapshot, d) = db_Snapshot ops d;
                 let (_, d) = db_Exist ops d (Ref_Address caller);
                 let d = db_CreateAccount ops d address;
                 let d = (if isHardfork2 env
                          then db_SetNonce ops d address (env_StartingNonce env + 1) else d);
                 d \<leftarrow> Transfer ops d (Ref_Address caller) address v;
                 let contract = SetCallCode (NewContract caller address v gas gasPrice) None
                                  (env_Keccak256 env code) code;
                 r \<leftarrow> run (env\<lparr>env_Db := d\<rparr>) contract [] False;
                 end_create caller address snapshot r
               })))"

section \<open>The interpreter loop\<close>

text \<open>The methods of \<^verbatim>\<open>core/vm_env.go\<close> by which an instruction runs another contract.\<close>

definition mk_calls :: "'d runner \<Rightarrow> 'd Calls" where
  "mk_calls run =
     \<lparr>env_Call = Call run, env_CallCode = CallCode run, env_DelegateCall = DelegateCall run,
      env_StaticCall = StaticCall run, env_Create = Create run\<rparr>"

primrec evm_loop :: "nat \<Rightarrow> 'd frame \<Rightarrow> 'd run_result outcome option" where
  "evm_loop 0 f = Some NoFuel"
| "evm_loop (Suc n) f = do {
     r \<leftarrow> evm_step (mk_calls (Run (evm_loop n))) f;
     (case r of
        NoFuel \<Rightarrow> Some NoFuel
      | Done s \<Rightarrow>
          (case s of
             Continue f' \<Rightarrow> evm_loop n f'
           | Return ret err f' \<Rightarrow> Some (Done (ret, err, f_env f', f_contract f'))))
   }"

definition evm_Run :: "nat \<Rightarrow> 'd runner" where
  "evm_Run n = Run (evm_loop n)"

end
