(* ===== verification/World.thy ===== *)
theory World
  imports Vm_Types
begin

text \<open>
  What the virtual machine relies on of its state database. A \<open>world\<close> is what the getters of
  \<^verbatim>\<open>vm.Database\<close> can observe: the accounts, the refund counter and the logs. Each setter is specified by
  a function on worlds. The locale \<open>world_db\<close> is the interface: a method table refines these functions
  through an abstraction \<open>view\<close>, every method keeps the table's own invariant, and going back to a
  snapshot gives the world that was seen when the snapshot was taken, whatever happened in between.
  \<^verbatim>\<open>StateDB\<close> is shown to be such a table where it is modelled.
\<close>

record account =
  a_nonce :: uint64
  a_balance :: int
  a_codeHash :: hash
  a_code :: bytes
  a_storage :: "hash \<Rightarrow> hash"
  a_suicided :: bool

record world =
  w_accts :: "address \<rightharpoonup> account"
  w_refund :: int
  w_logs :: "hash \<Rightarrow> Log list"
  w_logSize :: nat
  w_thash :: hash
  w_bhash :: hash
  w_txIndex :: nat

section \<open>Reading a world\<close>

text \<open>The account at an address; \<open>z\<close> is a newly created account.\<close>

definition w_get :: "account \<Rightarrow> world \<Rightarrow> address \<Rightarrow> account" where
  "w_get z w a = (case w_accts w a of Some x \<Rightarrow> x | None \<Rightarrow> z)"

definition w_exists :: "world \<Rightarrow> address \<Rightarrow> bool" where
  "w_exists w a \<longleftrightarrow> w_accts w a \<noteq> None"

definition w_balance :: "world \<Rightarrow> address \<Rightarrow> int" where
  "w_balance w a = (case w_accts w a of Some x \<Rightarrow> a_balance x | None \<Rightarrow> 0)"

definition w_codeHash :: "world \<Rightarrow> address \<Rightarrow> hash" where
  "w_codeHash w a = (case w_accts w a of Some x \<Rightarrow> a_codeHash x | None \<Rightarrow> 0)"

definition w_code :: "world \<Rightarrow> address \<Rightarrow> bytes" where
  "w_code w a = (case w_accts w a of Some x \<Rightarrow> a_code x | None \<Rightarrow> [])"

definition w_storage :: "world \<Rightarrow> address \<Rightarrow> hash \<Rightarrow> hash" where
  "w_storage w a k = (case w_accts w a of Some x \<Rightarrow> a_storage x k | None \<Rightarrow> 0)"

definition w_suicided :: "world \<Rightarrow> address \<Rightarrow> bool" where
  "w_suicided w a = (case w_accts w a of Some x \<Rightarrow> a_suicided x | None \<Rightarrow> False)"

definition a_empty :: "account \<Rightarrow> account \<Rightarrow> bool" where
  "a_empty z x \<longleftrightarrow> a_nonce x = a_nonce z \<and> a_balance x = 0 \<and> a_codeHash x = a_codeHash z"

definition w_empty :: "account \<Rightarrow> world \<Rightarrow> address \<Rightarrow> bool" where
  "w_empty z w a = (case w_accts w a of Some x \<Rightarrow> a_empty z x | None \<Rightarrow> True)"

section \<open>Changing a world\<close>

text \<open>The setters work on the account at the address and create it when there is none.\<close>

definition w_upd :: "account \<Rightarrow> (account \<Rightarrow> account) \<Rightarrow> world \<Rightarrow> address \<Rightarrow> world" where
  "w_upd z g w a = w\<lparr>w_accts := (w_accts w)(a \<mapsto> g (w_get z w a))\<rparr>"

definition w_AddBalance :: "account \<Rightarrow> world \<Rightarrow> address \<Rightarrow> int \<Rightarrow> world" where
  "w_AddBalance z w a v = w_upd z (\<lambda>x. x\<lparr>a_balance := a_balance x + v\<rparr>) w a"

definition w_SetNonce :: "account \<Rightarrow> world \<Rightarrow> address \<Rightarrow> uint64 \<Rightarrow> world" where
  "w_SetNonce z w a n = w_upd z (\<lambda>x. x\<lparr>a_nonce := n\<rparr>) w a"

definition w_SetCode :: "account \<Rightarrow> (bytes \<Rightarrow> hash) \<Rightarrow> world \<Rightarrow> address \<Rightarrow> bytes \<Rightarrow> world" where
  "w_SetCode z keccak w a code = w_upd z (\<lambda>x. x\<lparr>a_codeHash := keccak code, a_code := code\<rparr>) w a"

definition w_SetState :: "account \<Rightarrow> world \<Rightarrow> address \<Rightarrow> hash \<Rightarrow> hash \<Rightarrow> world" where
  "w_SetState z w a k v = w_upd z (\<lambda>x. x\<lparr>a_storage := (a_storage x)(k := v)\<rparr>) w a"

text \<open>Creating an account that exists resets it but keeps its balance.\<close>

definition w_CreateAccount :: "account \<Rightarrow> world \<Rightarrow> address \<Rightarrow> world" where
  "w_CreateAccount z w a = w\<lparr>w_accts := (w_accts w)(a \<mapsto> z\<lparr>a_balance := w_balance w a\<rparr>)\<rparr>"

definition w_Suicide :: "world \<Rightarrow> address \<Rightarrow> world" where
  "w_Suicide w a =
     (case w_accts w a of
        None \<Rightarrow> w
      | Some x \<Rightarrow> w\<lparr>w_accts := (w_accts w)(a \<mapsto> x\<lparr>a_suicided := True, a_balance := 0\<rparr>)\<rparr>)"

definition w_AddRefund :: "world \<Rightarrow> int \<Rightarrow> world" where
  "w_AddRefund w v = w\<lparr>w_refund := w_refund w + v\<rparr>"

definition w_AddLog :: "world \<Rightarrow> Log \<Rightarrow> world" where
  "w_AddLog w l =
     w\<lparr>w_logs := (w_logs w)(w_thash w := w_logs w (w_thash w) @
         [l\<lparr>TxHash := w_thash w, BlockHash := w_bhash w, TxIndex := w_txIndex w,
            Log_Index := w_logSize w\<rparr>]),
       w_logSize := w_logSize w + 1\<rparr>"

text \<open>
  The methods of an account that was looked up before: nothing happens when 0 is subtracted, even
  from an account that does not exist; every other use of a missing account is a nil dereference.
\<close>

definition w_acct_AddBalance :: "world \<Rightarrow> address \<Rightarrow> int \<Rightarrow> world option" where
  "w_acct_AddBalance w a v =
     map_option (\<lambda>x. w\<lparr>w_accts := (w_accts w)(a \<mapsto> x\<lparr>a_balance := a_balance x + v\<rparr>)\<rparr>) (w_accts w a)"

definition w_acct_SubBalance :: "world \<Rightarrow> address \<Rightarrow> int \<Rightarrow> world option" where
  "w_acct_SubBalance w a v =
     (if v = 0 then Some w
      else map_option (\<lambda>x. w\<lparr>w_accts := (w_accts w)(a \<mapsto> x\<lparr>a_balance := a_balance x - v\<rparr>)\<rparr>)
             (w_accts w a))"

lemmas world_reads = w_get_def w_exists_def w_balance_def w_codeHash_def w_code_def w_storage_def
  w_suicided_def w_empty_def

lemmas world_writes = w_upd_def w_AddBalance_def w_SetNonce_def w_SetCode_def w_SetState_def
  w_CreateAccount_def w_Suicide_def w_AddRefund_def w_AddLog_def

section \<open>The interface\<close>

text \<open>
  \<open>dinv\<close> is the method table's own invariant. \<open>ext d d'\<close> says that \<open>d'\<close> came from \<open>d\<close> by changes that can
  be taken back: it contains every method, is transitive, and is what a revert needs.
\<close>

locale world_db =
  fixes ops :: "'d Database"
    and dinv :: "'d \<Rightarrow> bool"
    and ext :: "'d \<Rightarrow> 'd \<Rightarrow> bool"
    and view :: "'d \<Rightarrow> world"
    and z :: account
    and keccak :: "bytes \<Rightarrow> hash"
  assumes fresh: "a_balance z = 0" "a_code z = []" "a_codeHash z = keccak []"
      "a_storage z = (\<lambda>_. 0)" "\<not> a_suicided z"
    and ext_refl: "dinv d \<Longrightarrow> ext d d"
    and ext_trans: "ext d1 d2 \<Longrightarrow> ext d2 d3 \<Longrightarrow> ext d1 d3"
    and GetBalance: "dinv d \<Longrightarrow> db_GetBalance ops d a = (v, d') \<Longrightarrow>
      dinv d' \<and> ext d d' \<and> view d' = view d \<and> v = w_balance (view d) a"
    and GetNonce: "dinv d \<Longrightarrow> db_GetNonce ops d a = (n, d') \<Longrightarrow>
      dinv d' \<and> ext d d' \<and> view d' = view d \<and> n = a_nonce (w_get z (view d) a)"
    and GetCodeHash: "dinv d \<Longrightarrow> db_GetCodeHash ops d a = (h, d') \<Longrightarrow>
      dinv d' \<and> ext d d' \<and> view d' = view d \<and> h = w_codeHash (view d) a"
    and GetCodeSize: "dinv d \<Longrightarrow> db_GetCodeSize ops d a = (sz, d') \<Longrightarrow>
      dinv d' \<and> ext d d' \<and> view d' = view d \<and> sz = length (w_code (view d) a)"
    and GetCode: "dinv d \<Longrightarrow> db_GetCode ops d a = (code, d') \<Longrightarrow>
      dinv d' \<and> ext d d' \<and> view d' = view d \<and> code = w_code (view d) a"
    and GetState: "dinv d \<Longrightarrow> db_GetState ops d a k = (v', d') \<Longrightarrow>
      dinv d' \<and> ext d d' \<and> view d' = view d \<and> v' = w_storage (view d) a k"
    and HasSuicided: "dinv d \<Longrightarrow> db_HasSuicided ops d a = (b, d') \<Longrightarrow>
      dinv d' \<and> ext d d' \<and> view d' = view d \<and> b = w_suicided (view d) a"
    and Exist: "dinv d \<Longrightarrow> db_Exist ops d a = (b, d') \<Longrightarrow>
      dinv d' \<and> ext d d' \<and> view d' = view d \<and> b = w_exists (view d) a"
    and Empty: "dinv d \<Longrightarrow> db_Empty ops d a = (b, d') \<Longrightarrow>
      dinv d' \<and> ext d d' \<and> view d' = view d \<and> b = w_empty z (view d) a"
    and AddBalance: "dinv d \<Longrightarrow> d' = db_AddBalance ops d a v \<Longrightarrow>
      dinv d' \<and> ext d d' \<and> view d' = w_AddBalance z (view d) a v"
    and SetNonce: "dinv d \<Longrightarrow> d' = db_SetNonce ops d a n \<Longrightarrow>
      dinv d' \<and> ext d d' \<and> view d' = w_SetNonce z (view d) a n"
    and SetCode: "dinv d \<Longrightarrow> d' = db_SetCode ops d a code \<Longrightarrow>
      dinv d' \<and> ext d d' \<and> view d' = w_SetCode z keccak (view d) a code"
    and SetState: "dinv d \<Longrightarrow> d' = db_SetState ops d a k v' \<Longrightarrow>
      dinv d' \<and> ext d d' \<and> view d' = w_SetState z (view d) a k v'"
    and AddRefund: "dinv d \<Longrightarrow> d' = db_AddRefund ops d v \<Longrightarrow>
      dinv d' \<and> ext d d' \<and> view d' = w_AddRefund (view d) v"
    and Suicide: "dinv d \<Longrightarrow> db_Suicide ops d a = (b, d') \<Longrightarrow>
      dinv d' \<and> ext d d' \<and> view d' = w_Suicide (view d) a \<and> b = w_exists (view d) a"
    and CreateAccount: "dinv d \<Longrightarrow> d' = db_CreateAccount ops d a \<Longrightarrow>
      dinv d' \<and> ext d d' \<and> view d' = w_CreateAccount z (view d) a"
    and AddLog: "dinv d \<Longrightarrow> d' = db_AddLog ops d l \<Longrightarrow>
      dinv d' \<and> ext d d' \<and> view d' = w_AddLog (view d) l"
    and acct_AddBalance_Some: "dinv d \<Longrightarrow> w_acct_AddBalance (view d) a v = Some w \<Longrightarrow>
      \<exists>d'. acct_AddBalance ops d a v = Some d' \<and> dinv d' \<and> ext d d' \<and> view d' = w"
    and acct_SubBalance_Some: "dinv d \<Longrightarrow> w_acct_SubBalance (view d) a v = Some w \<Longrightarrow>
      \<exists>d'. acct_SubBalance ops d a v = Some d' \<and> dinv d' \<and> ext d d' \<and> view d' = w"
    and Snapshot: "dinv d \<Longrightarrow> db_Snapshot ops d = (sid, d') \<Longrightarrow>
      dinv d' \<and> ext d d' \<and> view d' = view d"
    and Revert: "dinv d \<Longrightarrow> db_Snapshot ops d = (sid, d1) \<Longrightarrow> dinv d2 \<Longrightarrow> ext d1 d2 \<Longrightarrow>
      \<exists>d3. db_RevertToSnapshot ops d2 sid = Some d3 \<and> dinv d3 \<and> ext d d3 \<and> view d3 = view d"

end
