(* ===== verification/Vm_Wf.thy ===== *)
theory Vm_Wf
  imports Execution World
begin

text \<open>
  Well-formedness of the virtual machine's states, and what it takes for one instruction to be
  charged: the quadratic memory fee bounds the memory by the gas, so that none of the conversions
  to 64-bit integers in the instructions loses information.
\<close>

section \<open>The memory fee\<close>

definition memfee :: "int \<Rightarrow> int" where
  "memfee w = 3 * w + w * w div 512"

lemma memfee_mono: "0 \<le> w \<Longrightarrow> w \<le> w' \<Longrightarrow> memfee w \<le> memfee w'"
  unfolding memfee_def by (intro add_mono zdiv_mono1 mult_mono) auto

lemma memfee_nonneg: "0 \<le> w \<Longrightarrow> 0 \<le> memfee w"
  by (simp add: memfee_def pos_imp_zdiv_nonneg_iff)

lemma memfee_0 [simp]: "memfee 0 = 0"
  by (simp add: memfee_def)

lemma memfee_bound:
  assumes "memfee w < 2 ^ 63" "0 \<le> w"
  shows "w < 2 ^ 36"
proof (rule ccontr)
  assume "\<not> w < 2 ^ 36"
  then have "(2 ^ 36 :: int) \<le> w" by simp
  then have "memfee (2 ^ 36) \<le> memfee w" by (intro memfee_mono) auto
  moreover have "memfee (2 ^ 36) \<ge> 2 ^ 63" by (simp add: memfee_def)
  ultimately show False using assms(1) by simp
qed

lemma big_Div_nonneg: "0 \<le> x \<Longrightarrow> 0 < y \<Longrightarrow> big_Div x y = x div y"
  by (simp add: big_Div_def)

lemma quadMemGas_spec:
  assumes q: "quadMemGas mem n gas = (n', cost)" and n: "0 \<le> n" and len: "length mem = 32 * w"
  shows "n \<le> n'" "\<exists>w'. n' = 32 * int w'"
    "cost = gas + (memfee (max (int w) (n' div 32)) - memfee (int w))"
proof -
  have wlen: "toWordSize (int (length mem)) = int w"
    using len by (simp add: toWordSize_def big_Div_nonneg)
  have "n \<le> n' \<and> (\<exists>w'. n' = 32 * int w') \<and>
    cost = gas + (memfee (max (int w) (n' div 32)) - memfee (int w))"
  proof (cases "0 < n")
    case True
    define k where "k = (n + 31) div 32"
    have k: "toWordSize n = k" "0 \<le> k" "n \<le> k * 32"
      using True by (auto simp: toWordSize_def big_Div_nonneg k_def)
    have n': "n' = k * 32" using q True k by (simp add: quadMemGas_def Let_def split: if_splits)
    have "cost = gas + (memfee (max (int w) k) - memfee (int w))"
    proof (cases "int w < k")
      case True
      then have "k * 32 > int (length mem)" using len by simp
      with q \<open>0 < n\<close> k wlen True show ?thesis
        by (simp add: quadMemGas_def Let_def big_Exp_def memfee_def big_Div_nonneg power2_eq_square)
    next
      case False
      then have "\<not> k * 32 > int (length mem)" using len by simp
      with q \<open>0 < n\<close> k False show ?thesis by (simp add: quadMemGas_def Let_def max_def)
    qed
    moreover have "\<exists>w'. n' = 32 * int w'" using n' k(2) by (intro exI [of _ "nat k"]) simp
    ultimately show ?thesis using k(3) n' by simp
  next
    case False
    with n q show ?thesis by (auto simp: quadMemGas_def intro: exI [of _ 0])
  qed
  then show "n \<le> n'" "\<exists>w'. n' = 32 * int w'"
    "cost = gas + (memfee (max (int w) (n' div 32)) - memfee (int w))" by auto
qed

section \<open>Well-formed states\<close>

text \<open>The prices of a gas table; a call and every read of the state cost something.\<close>

definition gasTable_ok :: "GasTable \<Rightarrow> bool" where
  "gasTable_ok gt \<longleftrightarrow> 1 \<le> ExtcodeSize gt \<and> 1 \<le> ExtcodeCopy gt \<and> 1 \<le> BalanceGas gt \<and> 1 \<le> SLoad gt \<and>
     1 \<le> Calls gt \<and> 0 \<le> SuicideGas gt \<and> 0 \<le> ExpByte gt \<and>
     (case CreateBySuicide gt of Some c \<Rightarrow> 0 \<le> c | None \<Rightarrow> True)"

text \<open>A precompiled contract has a price, does not panic, and returns a slice of a possible length.\<close>

definition precompiles_ok :: "(address \<rightharpoonup> PrecompiledAccount) \<Rightarrow> bool" where
  "precompiles_ok ps \<longleftrightarrow>
     (\<forall>a p input. ps a = Some p \<longrightarrow> 0 \<le> Precompiled_Gas p input \<and>
        (\<exists>ret err. Precompiled_Call p input = Some (ret, err) \<and> small ret))"

text \<open>
  What is needed of the hash function: codes of different lengths have different hashes. (That all
  codes have different hashes cannot hold of a function into 256-bit words.)
\<close>

definition hash_len :: "(bytes \<Rightarrow> hash) \<Rightarrow> bool" where
  "hash_len K \<longleftrightarrow> (\<forall>c c'. small c \<longrightarrow> small c' \<longrightarrow> K c = K c' \<longrightarrow> length c = length c')"

text \<open>The bit maps in a jump destination cache are long enough for the codes they belong to.\<close>

definition cache_ok :: "(bytes \<Rightarrow> hash) \<Rightarrow> (hash \<rightharpoonup> bytes) \<Rightarrow> bool" where
  "cache_ok K jd \<longleftrightarrow>
     (\<forall>h m code. jd h = Some m \<longrightarrow> small code \<longrightarrow> K code = h \<longrightarrow> length code div 8 < length m)"

definition code_ok :: "(bytes \<Rightarrow> hash) \<Rightarrow> hash \<Rightarrow> bytes \<Rightarrow> bool" where
  "code_ok K h code \<longleftrightarrow> small code \<and> (code = [] \<or> h = K code)"

definition contract_ok :: "(bytes \<Rightarrow> hash) \<Rightarrow> Contract \<Rightarrow> bool" where
  "contract_ok K c \<longleftrightarrow> code_ok K (CodeHash c) (Code c) \<and> small (Input c) \<and> 0 \<le> c_value c \<and> 0 \<le> Price c \<and>
     0 \<le> Gas c \<and> cache_ok K (c_jumpdests c)"

definition world_ok :: "(bytes \<Rightarrow> hash) \<Rightarrow> world \<Rightarrow> bool" where
  "world_ok K w \<longleftrightarrow>
     (\<forall>a x. w_accts w a = Some x \<longrightarrow> 0 \<le> a_balance x \<and> code_ok K (a_codeHash x) (a_code x))"

definition env_ok ::
  "'d Database \<Rightarrow> ('d \<Rightarrow> bool) \<Rightarrow> ('d \<Rightarrow> world) \<Rightarrow> (bytes \<Rightarrow> hash) \<Rightarrow> 'd Environment \<Rightarrow> bool" where
  "env_ok ops dinv view K env \<longleftrightarrow>
     env_Ops env = ops \<and> env_Keccak256 env = K \<and> gasTable_ok (evm_gasTable env) \<and>
     hash_len K \<and> precompiles_ok (precompiles env) \<and> dinv (env_Db env) \<and> world_ok K (view (env_Db env)) \<and>
     small (env_ReturnData env)"

text \<open>Memory in whole words, paid for together with the gas that is left.\<close>

definition mem_ok :: "memory \<Rightarrow> int \<Rightarrow> bool" where
  "mem_ok mem gas \<longleftrightarrow> (\<exists>w. length mem = 32 * w \<and> memfee (int w) + gas < 2 ^ 63)"

definition frame_ok ::
  "'d Database \<Rightarrow> ('d \<Rightarrow> bool) \<Rightarrow> ('d \<Rightarrow> world) \<Rightarrow> (bytes \<Rightarrow> hash) \<Rightarrow> 'd frame \<Rightarrow> bool" where
  "frame_ok ops dinv view K f \<longleftrightarrow>
     env_ok ops dinv view K (f_env f) \<and> contract_ok K (f_contract f) \<and> list_all (\<lambda>x. 0 \<le> x) (f_stack f) \<and>
     length (f_stack f) \<le> StackLimit \<and> mem_ok (f_memory f) (Gas (f_contract f))"

text \<open>Only the state and the return data of an environment change in a run.\<close>

definition same_static :: "'d Environment \<Rightarrow> 'd Environment \<Rightarrow> bool" where
  "same_static env env' \<longleftrightarrow> env' = env\<lparr>env_Db := env_Db env', env_ReturnData := env_ReturnData env'\<rparr>"

definition contract_ext :: "Contract \<Rightarrow> Contract \<Rightarrow> bool" where
  "contract_ext c c' \<longleftrightarrow> c' = c\<lparr>c_jumpdests := c_jumpdests c', Gas := Gas c', UsedGas := UsedGas c'\<rparr>"

lemma same_static_refl [simp]: "same_static env env" "same_static env (env\<lparr>env_Db := d\<rparr>)"
  "same_static env (env\<lparr>env_ReturnData := r\<rparr>)"
  by (simp_all add: same_static_def)

lemma same_static_trans: "same_static e1 e2 \<Longrightarrow> same_static e2 e3 \<Longrightarrow> same_static e1 e3"
  by (cases e1; cases e2; cases e3) (simp add: same_static_def)

lemma same_static_fields:
  assumes "same_static env env'"
  shows "env_RuleSet env' = env_RuleSet env" "env_BlockNumber env' = env_BlockNumber env"
    "env_Ops env' = env_Ops env" "env_Keccak256 env' = env_Keccak256 env"
    "evm_readOnly env' = evm_readOnly env" "env_Depth env' = env_Depth env"
    "precompiles env' = precompiles env"
  using assms by (cases env; cases env'; simp add: same_static_def precompiles_def)+

lemma contract_ext_refl [simp]: "contract_ext c c"
  by (simp add: contract_ext_def)

lemma contract_ext_trans: "contract_ext c1 c2 \<Longrightarrow> contract_ext c2 c3 \<Longrightarrow> contract_ext c1 c3"
  by (cases c1; cases c2; cases c3) (simp add: contract_ext_def)

lemma mem_ok_small:
  assumes "mem_ok mem gas" "0 \<le> gas"
  shows "int (length mem) < 2 ^ 41"
proof -
  from assms obtain w where w: "length mem = 32 * w" "memfee (int w) < 2 ^ 63"
    by (auto simp: mem_ok_def)
  from memfee_bound [OF w(2)] w(1) show ?thesis by simp
qed

section \<open>Changes that keep a world well-formed\<close>

lemma w_balance_nonneg: "world_ok K w \<Longrightarrow> 0 \<le> w_balance w a"
  by (auto simp: world_ok_def w_balance_def split: option.split)

lemma w_code_ok: "world_ok K w \<Longrightarrow> code_ok K (w_codeHash w a) (w_code w a)"
  by (auto simp: world_ok_def w_codeHash_def w_code_def code_ok_def split: option.split)

lemma world_ok_upd:
  assumes "world_ok K w" "0 \<le> a_balance x" "code_ok K (a_codeHash x) (a_code x)"
  shows "world_ok K (w\<lparr>w_accts := (w_accts w)(a \<mapsto> x)\<rparr>)"
  using assms by (auto simp: world_ok_def)

lemma world_ok_get:
  assumes "world_ok K w" "a_balance z = 0" "a_code z = []"
  shows "0 \<le> a_balance (w_get z w a)" "code_ok K (a_codeHash (w_get z w a)) (a_code (w_get z w a))"
  using assms by (auto simp: world_ok_def w_get_def code_ok_def split: option.split)

lemma world_ok_setters:
  assumes w: "world_ok K w" and z: "a_balance z = 0" "a_code z = []"
  shows "world_ok K (w_AddRefund w v)" "world_ok K (w_AddLog w l)"
    "world_ok K (w_SetNonce z w a n)" "world_ok K (w_SetState z w a k x)"
    "0 \<le> v \<Longrightarrow> world_ok K (w_AddBalance z w a v)" "small code \<Longrightarrow> world_ok K (w_SetCode z K w a code)"
    "world_ok K (w_CreateAccount z w a)" "world_ok K (w_Suicide w a)"
  using world_ok_get [OF w z] w_balance_nonneg [OF w, of a] w z
  by (auto simp: world_writes code_ok_def split: option.split intro!: world_ok_upd)
    (auto simp: world_ok_def code_ok_def)

lemma world_okD:
  "world_ok K w \<Longrightarrow> w_accts w a = Some x \<Longrightarrow> 0 \<le> a_balance x \<and> code_ok K (a_codeHash x) (a_code x)"
  by (simp add: world_ok_def)

lemma world_ok_transfer:
  assumes w: "world_ok K w" and v: "0 \<le> v" "v \<le> w_balance w a"
    and t: "w_acct_SubBalance w a v = Some w1" "w_acct_AddBalance w1 a' v = Some w2"
  shows "world_ok K w2"
proof -
  have w1: "world_ok K w1"
  proof (cases "v = 0")
    case False
    with t(1) obtain x where x: "w_accts w a = Some x"
        "w1 = w\<lparr>w_accts := (w_accts w)(a \<mapsto> x\<lparr>a_balance := a_balance x - v\<rparr>)\<rparr>"
      by (auto simp: w_acct_SubBalance_def)
    with v(2) world_okD [OF w x(1)] show ?thesis
      unfolding x(2) by (intro world_ok_upd w) (auto simp: w_balance_def)
  qed (use t(1) w in \<open>simp add: w_acct_SubBalance_def\<close>)
  from t(2) obtain x where x: "w_accts w1 a' = Some x"
      "w2 = w1\<lparr>w_accts := (w_accts w1)(a' \<mapsto> x\<lparr>a_balance := a_balance x + v\<rparr>)\<rparr>"
    by (auto simp: w_acct_AddBalance_def)
  with v(1) world_okD [OF w1 x(1)] show ?thesis
    unfolding x(2) by (intro world_ok_upd w1) auto
qed

text \<open>The transfer at the start of a call never meets a missing account.\<close>

lemma transfer_defined:
  assumes "0 \<le> v" "v \<le> w_balance w a" "w_exists w a'"
  shows "\<exists>w1 w2. w_acct_SubBalance w a v = Some w1 \<and> w_acct_AddBalance w1 a' v = Some w2"
  using assms
  by (auto simp: w_acct_SubBalance_def w_acct_AddBalance_def w_balance_def w_exists_def
      split: option.splits if_splits)

section \<open>Jumps\<close>

lemma isValidJump_ok:
  assumes c: "contract_ok K c" and K: "hash_len K"
  shows "\<exists>ok jd. isValidJump c to = Some (ok, c\<lparr>c_jumpdests := jd\<rparr>) \<and> cache_ok K jd"
proof (cases "big_BitLen to \<ge> 63 \<or> unat (big_Uint64 to) \<ge> length (Code c)")
  case True
  then have "isValidJump c to = Some (False, c\<lparr>c_jumpdests := c_jumpdests c\<rparr>)"
    by (auto simp: isValidJump_def destinations_has_def)
  then show ?thesis using c unfolding contract_ok_def by blast
next
  case False
  let ?i = "unat (big_Uint64 to)"
  have code: "Code c \<noteq> []" "small (Code c)" "CodeHash c = K (Code c)" and jd: "cache_ok K (c_jumpdests c)"
    using c False by (auto simp: contract_ok_def code_ok_def)
  have i: "?i div 8 \<le> length (Code c) div 8" using False by (intro div_le_mono) simp
  show ?thesis
  proof (cases "c_jumpdests c (CodeHash c)")
    case (Some m)
    with jd code have "length (Code c) div 8 < length m" by (simp add: cache_ok_def)
    with i have "?i div 8 < length m" by simp
    with Some False have "isValidJump c to = Some (bit_at m ?i, c\<lparr>c_jumpdests := c_jumpdests c\<rparr>)"
      by (simp add: isValidJump_def destinations_has_def test_bit_at_eq)
    with jd show ?thesis by blast
  next
    case None
    have len: "length (jumpdests (Code c)) = length (Code c) div 8 + 1"
      by (simp add: jumpdests_def length_jumpdests_loop)
    have "cache_ok K ((c_jumpdests c)(CodeHash c \<mapsto> jumpdests (Code c)))"
      unfolding cache_ok_def
    proof (intro allI impI)
      fix h m code'
      assume m: "((c_jumpdests c)(CodeHash c \<mapsto> jumpdests (Code c))) h = Some m" "small code'" "K code' = h"
      show "length code' div 8 < length m"
      proof (cases "h = CodeHash c")
        case True
        with m(3) code(3) have "K code' = K (Code c)" by simp
        with K m(2) code(2) have "length code' = length (Code c)" unfolding hash_len_def by blast
        with True m(1) len show ?thesis by simp
      next
        case False
        with m(1) have "c_jumpdests c h = Some m" by simp
        with jd m(2,3) show ?thesis unfolding cache_ok_def by blast
      qed
    qed
    moreover from None False i len have "isValidJump c to =
        Some (bit_at (jumpdests (Code c)) ?i, c\<lparr>c_jumpdests := (c_jumpdests c)(CodeHash c \<mapsto> jumpdests (Code c))\<rparr>)"
      by (simp add: isValidJump_def destinations_has_def test_bit_at_eq)
    ultimately show ?thesis by blast
  qed
qed

end
