(* ===== verification/Vm_Safety.thy ===== *)
theory Vm_Safety
  imports Vm_Wf
begin

text \<open>
  Every instruction is total on well-formed states: when the interpreter has checked the stack and
  sized the memory, an instruction does not panic, leaves a well-formed state, and changes the world
  only in ways that a given relation \<open>R\<close> allows. \<open>R True\<close> is for read-only mode. The locale \<open>evm_world\<close>
  states what \<open>R\<close> has to allow.
\<close>

locale evm_world = world_db ops dinv ext view z keccak
  for ops :: "'d Database" and dinv and ext and view and z and keccak +
  fixes R :: "bool \<Rightarrow> world \<Rightarrow> world \<Rightarrow> bool"
  assumes R_refl: "R b w w"
    and R_trans: "R b w1 w2 \<Longrightarrow> R b w2 w3 \<Longrightarrow> R b w1 w3"
    and R_weaken: "R True w w' \<Longrightarrow> R b w w'"
    and R_AddRefund: "0 \<le> v \<Longrightarrow> R b w (w_AddRefund w v)"
    and R_touch: "R b w (w_AddBalance z w a 0)"
    and R_create_new: "\<not> w_exists w a \<Longrightarrow> R b w (w_CreateAccount z w a)"
    and R_CreateAccount: "R False w (w_CreateAccount z w a)"
    and R_SetNonce: "R False w (w_SetNonce z w a n)"
    and R_SetCode: "R False w (w_SetCode z keccak w a code)"
    and R_SetState: "R False w (w_SetState z w a k x)"
    and R_AddLog: "R False w (w_AddLog w l)"
    and R_Suicide: "world_ok keccak w \<Longrightarrow>
      R False w (w_Suicide (w_AddBalance z w a' (w_balance w a)) a)"
    and R_Transfer: "world_ok keccak w \<Longrightarrow> 0 \<le> v \<Longrightarrow> v \<le> w_balance w a \<Longrightarrow>
      w_acct_SubBalance w a v = Some w1 \<Longrightarrow> w_acct_AddBalance w1 a' v = Some w2 \<Longrightarrow> R False w w2"
begin

abbreviation envok :: "'d Environment \<Rightarrow> bool" where
  "envok \<equiv> env_ok ops dinv view keccak"

abbreviation frameok :: "'d frame \<Rightarrow> bool" where
  "frameok \<equiv> frame_ok ops dinv view keccak"

abbreviation readonly :: "'d Environment \<Rightarrow> bool" where
  "readonly env \<equiv> evm_readOnly env \<and> isHardfork2 env"

definition env_step :: "'d Environment \<Rightarrow> 'd Environment \<Rightarrow> bool" where
  "env_step env env' \<longleftrightarrow> envok env' \<and> same_static env env' \<and> ext (env_Db env) (env_Db env') \<and>
     R (readonly env) (view (env_Db env)) (view (env_Db env'))"

definition instr_good :: "int \<Rightarrow> 'd frame \<Rightarrow> 'd instr_result \<Rightarrow> bool" where
  "instr_good g f r \<longleftrightarrow> (\<exists>ret err f'. r = Some (Done (ret, err, f')) \<and> small ret \<and>
     env_step (f_env f) (f_env f') \<and>
     contract_ok keccak (f_contract f') \<and> contract_ext (f_contract f) (f_contract f') \<and>
     Gas (f_contract f') \<le> Gas (f_contract f) + g \<and>
     list_all (\<lambda>x. 0 \<le> x) (f_stack f') \<and> length (f_stack f') \<le> StackLimit \<and>
     length (f_memory f') = length (f_memory f))"

text \<open>\<open>p\<close> operands are on the stack, and there is room for \<open>q\<close> results.\<close>

definition exec_pre :: "nat \<Rightarrow> nat \<Rightarrow> 'd frame \<Rightarrow> bool" where
  "exec_pre p q f \<longleftrightarrow> frameok f \<and> p \<le> length (f_stack f) \<and> length (f_stack f) - p + q \<le> StackLimit"

lemma env_step_refl: "envok env \<Longrightarrow> env_step env env"
  by (simp add: env_step_def ext_refl R_refl env_ok_def)

lemma env_step_trans:
  assumes "env_step e1 e2" "env_step e2 e3"
  shows "env_step e1 e3"
proof -
  have "same_static e1 e2" "same_static e2 e3" using assms by (simp_all add: env_step_def)
  with same_static_fields [OF this(1)] have "readonly e2 = readonly e1" "same_static e1 e3"
    by (auto intro: same_static_trans)
  with assms show ?thesis by (auto simp: env_step_def intro: ext_trans R_trans)
qed

lemma env_step_db:
  assumes "envok env" "dinv d'" "ext (env_Db env) d'" "world_ok keccak (view d')"
    "R (readonly env) (view (env_Db env)) (view d')"
  shows "env_step env (env\<lparr>env_Db := d'\<rparr>)"
  using assms by (simp add: env_step_def env_ok_def precompiles_def split: if_splits)

lemma R_writable: "R False w w' \<Longrightarrow> \<not> readonly env \<Longrightarrow> R (readonly env) w w'"
  by (cases "readonly env") auto

lemma good_same:
  assumes "frameok f" "f_env f' = f_env f" "f_contract f' = f_contract f" "small ret"
    "list_all (\<lambda>x. 0 \<le> x) (f_stack f')" "length (f_stack f') \<le> StackLimit"
    "length (f_memory f') = length (f_memory f)"
  shows "instr_good 0 f (Some (Done (ret, err, f')))"
  using assms by (auto simp: instr_good_def frame_ok_def intro: env_step_refl)

lemma good_db:
  assumes "frameok f" "f_env f' = (f_env f)\<lparr>env_Db := d'\<rparr>" "f_contract f' = f_contract f" "small ret"
    "list_all (\<lambda>x. 0 \<le> x) (f_stack f')" "length (f_stack f') \<le> StackLimit"
    "length (f_memory f') = length (f_memory f)"
    "dinv d'" "ext (f_db f) d'" "world_ok keccak (view d')" "R (readonly (f_env f)) (view (f_db f)) (view d')"
  shows "instr_good 0 f (Some (Done (ret, err, f')))"
  using assms by (auto simp: instr_good_def frame_ok_def intro: env_step_db)

lemma frameokD:
  assumes "frameok f"
  shows "0 \<le> c_value (f_contract f)" "0 \<le> Price (f_contract f)" "0 \<le> Gas (f_contract f)"
    "small (Code (f_contract f))" "small (Input (f_contract f))" "small (env_ReturnData (f_env f))"
    "dinv (f_db f)" "world_ok keccak (view (f_db f))" "env_Ops (f_env f) = ops" "envok (f_env f)"
    "contract_ok keccak (f_contract f)"
  using assms by (auto simp: frame_ok_def env_ok_def contract_ok_def code_ok_def)

lemma exec_pre0:
  assumes "exec_pre 0 q f"
  obtains "frameok f" "list_all (\<lambda>x. 0 \<le> x) (f_stack f)" "length (f_stack f) + q \<le> StackLimit"
  using assms by (auto simp: exec_pre_def frame_ok_def)

lemma exec_pre1:
  assumes "exec_pre 1 q f"
  obtains x1 st where "f_stack f = x1 # st"
    "0 \<le> x1"
    "frameok f" "list_all (\<lambda>x. 0 \<le> x) st" "length st + q \<le> StackLimit"
proof -
  from assms have "1 \<le> length (f_stack f)" by (simp add: exec_pre_def)
  then obtain x1 st where "f_stack f = x1 # st" by (auto simp: eval_nat_numeral Suc_le_length_iff)
  with assms that show ?thesis by (auto simp: exec_pre_def frame_ok_def)
qed

lemma exec_pre2:
  assumes "exec_pre 2 q f"
  obtains x1 x2 st where "f_stack f = x1 # x2 # st"
    "0 \<le> x1" "0 \<le> x2"
    "frameok f" "list_all (\<lambda>x. 0 \<le> x) st" "length st + q \<le> StackLimit"
proof -
  from assms have "2 \<le> length (f_stack f)" by (simp add: exec_pre_def)
  then obtain x1 x2 st where "f_stack f = x1 # x2 # st" by (auto simp: eval_nat_numeral Suc_le_length_iff)
  with assms that show ?thesis by (auto simp: exec_pre_def frame_ok_def)
qed

lemma exec_pre3:
  assumes "exec_pre 3 q f"
  obtains x1 x2 x3 st where "f_stack f = x1 # x2 # x3 # st"
    "0 \<le> x1" "0 \<le> x2" "0 \<le> x3"
    "frameok f" "list_all (\<lambda>x. 0 \<le> x) st" "length st + q \<le> StackLimit"
proof -
  from assms have "3 \<le> length (f_stack f)" by (simp add: exec_pre_def)
  then obtain x1 x2 x3 st where "f_stack f = x1 # x2 # x3 # st" by (auto simp: eval_nat_numeral Suc_le_length_iff)
  with assms that show ?thesis by (auto simp: exec_pre_def frame_ok_def)
qed

lemma exec_pre4:
  assumes "exec_pre 4 q f"
  obtains x1 x2 x3 x4 st where "f_stack f = x1 # x2 # x3 # x4 # st"
    "0 \<le> x1" "0 \<le> x2" "0 \<le> x3" "0 \<le> x4"
    "frameok f" "list_all (\<lambda>x. 0 \<le> x) st" "length st + q \<le> StackLimit"
proof -
  from assms have "4 \<le> length (f_stack f)" by (simp add: exec_pre_def)
  then obtain x1 x2 x3 x4 st where "f_stack f = x1 # x2 # x3 # x4 # st" by (auto simp: eval_nat_numeral Suc_le_length_iff)
  with assms that show ?thesis by (auto simp: exec_pre_def frame_ok_def)
qed

lemma exec_pre6:
  assumes "exec_pre 6 q f"
  obtains x1 x2 x3 x4 x5 x6 st where "f_stack f = x1 # x2 # x3 # x4 # x5 # x6 # st"
    "0 \<le> x1" "0 \<le> x2" "0 \<le> x3" "0 \<le> x4" "0 \<le> x5" "0 \<le> x6"
    "frameok f" "list_all (\<lambda>x. 0 \<le> x) st" "length st + q \<le> StackLimit"
proof -
  from assms have "6 \<le> length (f_stack f)" by (simp add: exec_pre_def)
  then obtain x1 x2 x3 x4 x5 x6 st where "f_stack f = x1 # x2 # x3 # x4 # x5 # x6 # st" by (auto simp: eval_nat_numeral Suc_le_length_iff)
  with assms that show ?thesis by (auto simp: exec_pre_def frame_ok_def)
qed

lemma exec_pre7:
  assumes "exec_pre 7 q f"
  obtains x1 x2 x3 x4 x5 x6 x7 st where "f_stack f = x1 # x2 # x3 # x4 # x5 # x6 # x7 # st"
    "0 \<le> x1" "0 \<le> x2" "0 \<le> x3" "0 \<le> x4" "0 \<le> x5" "0 \<le> x6" "0 \<le> x7"
    "frameok f" "list_all (\<lambda>x. 0 \<le> x) st" "length st + q \<le> StackLimit"
proof -
  from assms have "7 \<le> length (f_stack f)" by (simp add: exec_pre_def)
  then obtain x1 x2 x3 x4 x5 x6 x7 st where "f_stack f = x1 # x2 # x3 # x4 # x5 # x6 # x7 # st" by (auto simp: eval_nat_numeral Suc_le_length_iff)
  with assms that show ?thesis by (auto simp: exec_pre_def frame_ok_def)
qed

lemmas result_nonneg = U256_bounds big_SetBytes_nonneg and_nonnegative_int_iff or_nonnegative_int_iff
  xor_nonnegative_int_iff Hash_Big_def Address_Big_def

section \<open>Instructions on the stack only\<close>

lemma opAdd_good: "exec_pre 2 1 f \<Longrightarrow> instr_good 0 f (opAdd calls f)"
  by (erule exec_pre2) (auto simp: opAdd_def stack_push_def result_nonneg frameokD Let_def intro!: good_same split: if_splits)

lemma opSub_good: "exec_pre 2 1 f \<Longrightarrow> instr_good 0 f (opSub calls f)"
  by (erule exec_pre2) (auto simp: opSub_def stack_push_def result_nonneg frameokD Let_def intro!: good_same split: if_splits)

lemma opMul_good: "exec_pre 2 1 f \<Longrightarrow> instr_good 0 f (opMul calls f)"
  by (erule exec_pre2) (auto simp: opMul_def stack_push_def result_nonneg frameokD Let_def intro!: good_same split: if_splits)

lemma opDiv_good: "exec_pre 2 1 f \<Longrightarrow> instr_good 0 f (opDiv calls f)"
  by (erule exec_pre2) (auto simp: opDiv_def stack_push_def result_nonneg frameokD Let_def intro!: good_same split: if_splits)

lemma opSdiv_good: "exec_pre 2 1 f \<Longrightarrow> instr_good 0 f (opSdiv calls f)"
  by (erule exec_pre2) (auto simp: opSdiv_def stack_push_def result_nonneg frameokD Let_def intro!: good_same split: if_splits)

lemma opMod_good: "exec_pre 2 1 f \<Longrightarrow> instr_good 0 f (opMod calls f)"
  by (erule exec_pre2) (auto simp: opMod_def stack_push_def result_nonneg frameokD Let_def intro!: good_same split: if_splits)

lemma opSmod_good: "exec_pre 2 1 f \<Longrightarrow> instr_good 0 f (opSmod calls f)"
  by (erule exec_pre2) (auto simp: opSmod_def stack_push_def result_nonneg frameokD Let_def intro!: good_same split: if_splits)

lemma opExp_good: "exec_pre 2 1 f \<Longrightarrow> instr_good 0 f (opExp calls f)"
  by (erule exec_pre2) (auto simp: opExp_def stack_push_def result_nonneg frameokD Let_def intro!: good_same split: if_splits)

lemma opSignExtend_good: "exec_pre 2 1 f \<Longrightarrow> instr_good 0 f (opSignExtend calls f)"
  by (erule exec_pre2) (auto simp: opSignExtend_def stack_push_def result_nonneg frameokD Let_def intro!: good_same split: if_splits)

lemma opLt_good: "exec_pre 2 1 f \<Longrightarrow> instr_good 0 f (opLt calls f)"
  by (erule exec_pre2) (auto simp: opLt_def stack_push_def result_nonneg frameokD Let_def intro!: good_same split: if_splits)

lemma opGt_good: "exec_pre 2 1 f \<Longrightarrow> instr_good 0 f (opGt calls f)"
  by (erule exec_pre2) (auto simp: opGt_def stack_push_def result_nonneg frameokD Let_def intro!: good_same split: if_splits)

lemma opSlt_good: "exec_pre 2 1 f \<Longrightarrow> instr_good 0 f (opSlt calls f)"
  by (erule exec_pre2) (auto simp: opSlt_def stack_push_def result_nonneg frameokD Let_def intro!: good_same split: if_splits)

lemma opSgt_good: "exec_pre 2 1 f \<Longrightarrow> instr_good 0 f (opSgt calls f)"
  by (erule exec_pre2) (auto simp: opSgt_def stack_push_def result_nonneg frameokD Let_def intro!: good_same split: if_splits)

lemma opEq_good: "exec_pre 2 1 f \<Longrightarrow> instr_good 0 f (opEq calls f)"
  by (erule exec_pre2) (auto simp: opEq_def stack_push_def result_nonneg frameokD Let_def intro!: good_same split: if_splits)

lemma opAnd_good: "exec_pre 2 1 f \<Longrightarrow> instr_good 0 f (opAnd calls f)"
  by (erule exec_pre2) (auto simp: opAnd_def stack_push_def result_nonneg frameokD Let_def intro!: good_same split: if_splits)

lemma opOr_good: "exec_pre 2 1 f \<Longrightarrow> instr_good 0 f (opOr calls f)"
  by (erule exec_pre2) (auto simp: opOr_def stack_push_def result_nonneg frameokD Let_def intro!: good_same split: if_splits)

lemma opXor_good: "exec_pre 2 1 f \<Longrightarrow> instr_good 0 f (opXor calls f)"
  by (erule exec_pre2) (auto simp: opXor_def stack_push_def result_nonneg frameokD Let_def intro!: good_same split: if_splits)

lemma opByte_good: "exec_pre 2 1 f \<Longrightarrow> instr_good 0 f (opByte calls f)"
  by (erule exec_pre2) (auto simp: opByte_def length_LeftPadBytes big_Int64_small stack_push_def result_nonneg frameokD Let_def intro!: good_same split: if_splits)

lemma opNot_good: "exec_pre 1 1 f \<Longrightarrow> instr_good 0 f (opNot calls f)"
  by (erule exec_pre1) (auto simp: opNot_def stack_push_def result_nonneg frameokD Let_def intro!: good_same split: if_splits)

lemma opIszero_good: "exec_pre 1 1 f \<Longrightarrow> instr_good 0 f (opIszero calls f)"
  by (erule exec_pre1) (auto simp: opIszero_def stack_push_def result_nonneg frameokD Let_def intro!: good_same split: if_splits)

lemma opBlockhash_good: "exec_pre 1 1 f \<Longrightarrow> instr_good 0 f (opBlockhash calls f)"
  by (erule exec_pre1) (auto simp: opBlockhash_def stack_push_def result_nonneg frameokD Let_def intro!: good_same split: if_splits)

lemma opAddmod_good: "exec_pre 3 1 f \<Longrightarrow> instr_good 0 f (opAddmod calls f)"
  by (erule exec_pre3) (auto simp: opAddmod_def stack_push_def result_nonneg frameokD Let_def intro!: good_same split: if_splits)

lemma opMulmod_good: "exec_pre 3 1 f \<Longrightarrow> instr_good 0 f (opMulmod calls f)"
  by (erule exec_pre3) (auto simp: opMulmod_def stack_push_def result_nonneg frameokD Let_def intro!: good_same split: if_splits)

lemma opAddress_good: "exec_pre 0 1 f \<Longrightarrow> instr_good 0 f (opAddress calls f)"
  by (erule exec_pre0) (auto simp: opAddress_def stack_push_def result_nonneg frameokD Let_def intro!: good_same split: if_splits)

lemma opOrigin_good: "exec_pre 0 1 f \<Longrightarrow> instr_good 0 f (opOrigin calls f)"
  by (erule exec_pre0) (auto simp: opOrigin_def stack_push_def result_nonneg frameokD Let_def intro!: good_same split: if_splits)

lemma opCaller_good: "exec_pre 0 1 f \<Longrightarrow> instr_good 0 f (opCaller calls f)"
  by (erule exec_pre0) (auto simp: opCaller_def stack_push_def result_nonneg frameokD Let_def intro!: good_same split: if_splits)

lemma opCallValue_good: "exec_pre 0 1 f \<Longrightarrow> instr_good 0 f (opCallValue calls f)"
  by (erule exec_pre0) (auto simp: opCallValue_def stack_push_def result_nonneg frameokD Let_def intro!: good_same split: if_splits)

lemma opCalldataSize_good: "exec_pre 0 1 f \<Longrightarrow> instr_good 0 f (opCalldataSize calls f)"
  by (erule exec_pre0) (auto simp: opCalldataSize_def stack_push_def result_nonneg frameokD Let_def intro!: good_same split: if_splits)

lemma opCodeSize_good: "exec_pre 0 1 f \<Longrightarrow> instr_good 0 f (opCodeSize calls f)"
  by (erule exec_pre0) (auto simp: opCodeSize_def stack_push_def result_nonneg frameokD Let_def intro!: good_same split: if_splits)

lemma opGasprice_good: "exec_pre 0 1 f \<Longrightarrow> instr_good 0 f (opGasprice calls f)"
  by (erule exec_pre0) (auto simp: opGasprice_def stack_push_def result_nonneg frameokD Let_def intro!: good_same split: if_splits)

lemma opCoinbase_good: "exec_pre 0 1 f \<Longrightarrow> instr_good 0 f (opCoinbase calls f)"
  by (erule exec_pre0) (auto simp: opCoinbase_def stack_push_def result_nonneg frameokD Let_def intro!: good_same split: if_splits)

lemma opTimestamp_good: "exec_pre 0 1 f \<Longrightarrow> instr_good 0 f (opTimestamp calls f)"
  by (erule exec_pre0) (auto simp: opTimestamp_def stack_push_def result_nonneg frameokD Let_def intro!: good_same split: if_splits)

lemma opNumber_good: "exec_pre 0 1 f \<Longrightarrow> instr_good 0 f (opNumber calls f)"
  by (erule exec_pre0) (auto simp: opNumber_def stack_push_def result_nonneg frameokD Let_def intro!: good_same split: if_splits)

lemma opDifficulty_good: "exec_pre 0 1 f \<Longrightarrow> instr_good 0 f (opDifficulty calls f)"
  by (erule exec_pre0) (auto simp: opDifficulty_def stack_push_def result_nonneg frameokD Let_def intro!: good_same split: if_splits)

lemma opGasLimit_good: "exec_pre 0 1 f \<Longrightarrow> instr_good 0 f (opGasLimit calls f)"
  by (erule exec_pre0) (auto simp: opGasLimit_def stack_push_def result_nonneg frameokD Let_def intro!: good_same split: if_splits)

lemma opPc_good: "exec_pre 0 1 f \<Longrightarrow> instr_good 0 f (opPc calls f)"
  by (erule exec_pre0) (auto simp: opPc_def stack_push_def result_nonneg frameokD Let_def intro!: good_same split: if_splits)

lemma opMsize_good: "exec_pre 0 1 f \<Longrightarrow> instr_good 0 f (opMsize calls f)"
  by (erule exec_pre0) (auto simp: opMsize_def stack_push_def result_nonneg frameokD Let_def intro!: good_same split: if_splits)

lemma opGas_good: "exec_pre 0 1 f \<Longrightarrow> instr_good 0 f (opGas calls f)"
  by (erule exec_pre0) (auto simp: opGas_def stack_push_def result_nonneg frameokD Let_def intro!: good_same split: if_splits)

lemma opReturnDataSize_good: "exec_pre 0 1 f \<Longrightarrow> instr_good 0 f (opReturnDataSize calls f)"
  by (erule exec_pre0) (auto simp: opReturnDataSize_def stack_push_def result_nonneg frameokD Let_def intro!: good_same split: if_splits)

section \<open>Instructions on memory and data\<close>

lemma frameok_mem:
  assumes "frameok f"
  shows "small (f_memory f)" "length (f_memory f) < 2 ^ 41"
proof -
  have "int (length (f_memory f)) < 2 ^ 41"
    using assms mem_ok_small [of "f_memory f" "Gas (f_contract f)"] frameokD(3) [OF assms]
    by (simp add: frame_ok_def)
  then show "small (f_memory f)" "length (f_memory f) < 2 ^ 41" by (simp_all add: small_def)
qed

lemma frameok_Gas:
  assumes "frameok f"
  shows "Gas (f_contract f) < 2 ^ 63"
proof -
  from assms obtain w where "memfee (int w) + Gas (f_contract f) < 2 ^ 63"
    by (auto simp: frame_ok_def mem_ok_def)
  with memfee_nonneg [of "int w"] show ?thesis by simp
qed

lemma covered_length: "covered mem off l \<Longrightarrow> length mem < 2 ^ 41 \<Longrightarrow> 0 \<le> l \<and> l < 2 ^ 62"
  by (auto simp: covered_def)

lemma small_slice: "small mem \<Longrightarrow> small (take n (drop k mem))"
  by (simp add: small_def)

lemma good_Get:
  assumes "frameok f" "covered (f_memory f) off l"
  shows "\<exists>data. mem_Get (f_memory f) (big_Int64 off) (big_Int64 l) = Some data \<and> small data"
  using mem_Get_covered [OF assms(2) frameok_mem(1) [OF assms(1)]] small_slice frameok_mem(1) [OF assms(1)]
  by (cases "l = 0") auto

lemma good_Set:
  assumes "frameok f" "covered (f_memory f) off l"
  shows "\<exists>mem. mem_Set (f_memory f) (big_Uint64 off) (big_Uint64 l) v = Some mem \<and>
    length mem = length (f_memory f)"
proof -
  have sm: "small (f_memory f)" by (rule frameok_mem [OF assms(1)])
  obtain mem where "mem_Set (f_memory f) (big_Uint64 off) (big_Uint64 l) v = Some mem"
    using mem_Set_covered [OF assms(2) sm] by auto
  with mem_Set_length [OF assms(2) sm this] show ?thesis by blast
qed

lemma good_getData:
  assumes "frameok f" "covered (f_memory f) off l" "small data" "0 \<le> start"
  shows "\<exists>bs. getData data start l = Some bs"
  using covered_length [OF assms(2) frameok_mem(2) [OF assms(1)]] getData_small [OF assms(3,4)] by auto

lemma opSha3_good:
  assumes "exec_pre 2 1 f" "covered (f_memory f) (f_stack f ! 0) (f_stack f ! 1)"
  shows "instr_good 0 f (opSha3 calls f)"
proof -
  from assms(1) obtain x y st where *: "f_stack f = x # y # st" "frameok f" "list_all (\<lambda>x. 0 \<le> x) st"
    "length st + 1 \<le> StackLimit" by (rule exec_pre2)
  with assms(2) obtain data where "mem_Get (f_memory f) (big_Int64 x) (big_Int64 y) = Some data"
    using good_Get [of f x y] by auto
  with * show ?thesis by (auto simp: opSha3_def stack_push_def intro!: good_same)
qed

lemma opCalldataLoad_good:
  assumes "exec_pre 1 1 f"
  shows "instr_good 0 f (opCalldataLoad calls f)"
proof -
  from assms obtain x st where *: "f_stack f = x # st" "0 \<le> x" "frameok f" "list_all (\<lambda>x. 0 \<le> x) st"
    "length st + 1 \<le> StackLimit" by (rule exec_pre1)
  with getData_small [of "Input (f_contract f)" x 32] frameokD(5) [OF *(3)] show ?thesis
    by (auto simp: opCalldataLoad_def stack_push_def intro!: good_same)
qed

text \<open>The four instructions that copy bytes into the memory.\<close>

lemma copy_good:
  assumes "frameok f" "covered (f_memory f) mOff l" "small data" "0 \<le> cOff"
    and "list_all (\<lambda>x. 0 \<le> x) st" "length st \<le> StackLimit"
  shows "\<exists>bs mem. getData data cOff l = Some bs \<and>
    mem_Set (f_memory f) (big_Uint64 mOff) (big_Uint64 l) bs = Some mem \<and> length mem = length (f_memory f) \<and>
    instr_good 0 f (instr_ok (f\<lparr>f_stack := st, f_memory := mem\<rparr>))"
proof -
  obtain bs where bs: "getData data cOff l = Some bs" using good_getData [OF assms(1-4)] by blast
  obtain mem where mem: "mem_Set (f_memory f) (big_Uint64 mOff) (big_Uint64 l) bs = Some mem"
    "length mem = length (f_memory f)" using good_Set [OF assms(1,2)] by blast
  have "instr_good 0 f (instr_ok (f\<lparr>f_stack := st, f_memory := mem\<rparr>))"
    using assms mem by (intro good_same) auto
  with bs mem show ?thesis by blast
qed

lemma opCalldataCopy_good:
  assumes "exec_pre 3 0 f" "covered (f_memory f) (f_stack f ! 0) (f_stack f ! 2)"
  shows "instr_good 0 f (opCalldataCopy calls f)"
proof -
  from assms(1) obtain x y l st where *: "f_stack f = x # y # l # st" "0 \<le> y" "frameok f"
    "list_all (\<lambda>x. 0 \<le> x) st" "length st + 0 \<le> StackLimit" by (rule exec_pre3)
  with assms(2) copy_good [of f x l "Input (f_contract f)" y st] frameokD(5) [OF *(3)] show ?thesis
    by (auto simp: opCalldataCopy_def)
qed

lemma opCodeCopy_good:
  assumes "exec_pre 3 0 f" "covered (f_memory f) (f_stack f ! 0) (f_stack f ! 2)"
  shows "instr_good 0 f (opCodeCopy calls f)"
proof -
  from assms(1) obtain x y l st where *: "f_stack f = x # y # l # st" "0 \<le> y" "frameok f"
    "list_all (\<lambda>x. 0 \<le> x) st" "length st + 0 \<le> StackLimit" by (rule exec_pre3)
  with assms(2) copy_good [of f x l "Code (f_contract f)" y st] frameokD(4) [OF *(3)] show ?thesis
    by (auto simp: opCodeCopy_def)
qed

lemma opReturnDataCopy_good:
  assumes "exec_pre 3 0 f" "covered (f_memory f) (f_stack f ! 0) (f_stack f ! 2)"
  shows "instr_good 0 f (opReturnDataCopy calls f)"
proof -
  from assms(1) obtain x y l st where *: "f_stack f = x # y # l # st" "0 \<le> y" "frameok f"
    "list_all (\<lambda>x. 0 \<le> x) st" "length st + 0 \<le> StackLimit" by (rule exec_pre3)
  then have err: "instr_good 0 f (instr_err ErrReturnDataOutOfBounds (set_stack f st))"
    by (intro good_same) auto
  obtain bs mem where "getData (env_ReturnData (f_env f)) y l = Some bs"
    "mem_Set (f_memory f) (big_Uint64 x) (big_Uint64 l) bs = Some mem"
    "instr_good 0 f (instr_ok (f\<lparr>f_stack := st, f_memory := mem\<rparr>))"
    using copy_good [of f x l "env_ReturnData (f_env f)" y st] assms(2) * frameokD(6) [OF *(3)] by auto
  with * err show ?thesis by (simp add: opReturnDataCopy_def Let_def)
qed

lemma opMload_good:
  assumes "exec_pre 1 1 f" "covered (f_memory f) (f_stack f ! 0) 32"
  shows "instr_good 0 f (opMload calls f)"
proof -
  from assms(1) obtain x st where *: "f_stack f = x # st" "frameok f" "list_all (\<lambda>x. 0 \<le> x) st"
    "length st + 1 \<le> StackLimit" by (rule exec_pre1)
  with assms(2) obtain data where "mem_Get (f_memory f) (big_Int64 x) (big_Int64 32) = Some data"
    using good_Get [of f x 32] by auto
  with * show ?thesis by (auto simp: opMload_def big_Int64_small stack_push_def intro!: good_same)
qed

lemma opMstore_good:
  assumes "exec_pre 2 0 f" "covered (f_memory f) (f_stack f ! 0) 32"
  shows "instr_good 0 f (opMstore calls f)"
proof -
  from assms(1) obtain x y st where *: "f_stack f = x # y # st" "frameok f" "list_all (\<lambda>x. 0 \<le> x) st"
    "length st + 0 \<le> StackLimit" by (rule exec_pre2)
  with assms(2) obtain mem where
    "mem_Set (f_memory f) (big_Uint64 x) (big_Uint64 32) (BigToBytes y 256) = Some mem"
    "length mem = length (f_memory f)"
    using good_Set [of f x 32] by auto
  moreover have "big_Uint64 32 = 32" by (simp add: big_Uint64_def)
  ultimately show ?thesis using * by (auto simp: opMstore_def intro!: good_same)
qed

lemma opMstore8_good:
  assumes "exec_pre 2 0 f" "covered (f_memory f) (f_stack f ! 0) 1"
  shows "instr_good 0 f (opMstore8 calls f)"
proof -
  from assms(1) obtain x y st where *: "f_stack f = x # y # st" "frameok f" "list_all (\<lambda>x. 0 \<le> x) st"
    "length st + 0 \<le> StackLimit" by (rule exec_pre2)
  with assms(2) frameok_mem [OF *(2)] have "0 \<le> x" "x < int (length (f_memory f))" "big_Int64 x = x"
    by (auto simp: covered_def intro!: big_Int64_small)
  with * show ?thesis by (auto simp: opMstore8_def mem_Set8_def intro!: good_same)
qed

lemma opReturn_good:
  assumes "exec_pre 2 0 f" "covered (f_memory f) (f_stack f ! 0) (f_stack f ! 1)"
  shows "instr_good 0 f (opReturn calls f)" "instr_good 0 f (opRevert calls f)"
proof -
  from assms(1) obtain x y st where *: "f_stack f = x # y # st" "frameok f" "list_all (\<lambda>x. 0 \<le> x) st"
    "length st + 0 \<le> StackLimit" by (rule exec_pre2)
  with assms(2) obtain data where "mem_Get (f_memory f) (big_Int64 x) (big_Int64 y) = Some data" "small data"
    using good_Get [of f x y] by auto
  with * show "instr_good 0 f (opReturn calls f)" "instr_good 0 f (opRevert calls f)"
    by (auto simp: opReturn_def opRevert_def mem_GetPtr_eq intro!: good_same)
qed

section \<open>Instructions on the stack that do not compute\<close>

lemma opPop_good: "exec_pre 1 0 f \<Longrightarrow> instr_good 0 f (opPop calls f)"
  by (erule exec_pre1) (auto simp: opPop_def intro!: good_same)

lemma opJumpdest_good: "exec_pre 0 0 f \<Longrightarrow> instr_good 0 f (opJumpdest calls f)"
  by (erule exec_pre0) (auto simp: opJumpdest_def intro!: good_same)

lemma opStop_good: "exec_pre 0 0 f \<Longrightarrow> instr_good 0 f (opStop calls f)"
  by (erule exec_pre0) (auto simp: opStop_def intro!: good_same)

lemma makePush_good:
  assumes "exec_pre 0 1 f" "n \<le> 32"
  shows "instr_good 0 f (makePush n calls f)"
proof -
  from assms(1) have *: "frameok f" "list_all (\<lambda>x. 0 \<le> x) (f_stack f)" "length (f_stack f) + 1 \<le> StackLimit"
    by (auto elim: exec_pre0)
  with getData_small [OF frameokD(4) [OF *(1)], of "uint (pc f + 1)" "int n"] assms(2) show ?thesis
    by (auto simp: makePush_def stack_push_def intro!: good_same)
qed

lemma makeDup_good:
  assumes "exec_pre 0 1 f" "1 \<le> n" "n \<le> length (f_stack f)"
  shows "instr_good 0 f (makeDup n calls f)"
proof -
  from assms(1) have *: "frameok f" "list_all (\<lambda>x. 0 \<le> x) (f_stack f)" "length (f_stack f) + 1 \<le> StackLimit"
    by (auto elim: exec_pre0)
  with assms(2,3) show ?thesis
    by (auto simp: makeDup_def stack_dup_def stack_push_def list_all_nth_drop intro!: good_same)
qed

lemma makeSwap_good:
  assumes "exec_pre 0 0 f" "n + 1 \<le> length (f_stack f)"
  shows "instr_good 0 f (makeSwap n calls f)"
proof -
  from assms(1) have *: "frameok f" "list_all (\<lambda>x. 0 \<le> x) (f_stack f)" "length (f_stack f) + 0 \<le> StackLimit"
    by (auto elim: exec_pre0)
  obtain st where st: "stack_swap (f_stack f) (n + 1) = Some st"
    using assms(2) by (simp add: stack_swap_def)
  with * stack_swap_all [OF st *(2)] stack_swap_length [OF st] show ?thesis
    by (auto simp: makeSwap_def intro!: good_same)
qed

section \<open>Instructions on the state\<close>

lemma good_view:
  assumes "frameok f" "f_env f' = (f_env f)\<lparr>env_Db := d'\<rparr>" "f_contract f' = f_contract f" "small ret"
    "list_all (\<lambda>x. 0 \<le> x) (f_stack f')" "length (f_stack f') \<le> StackLimit"
    "length (f_memory f') = length (f_memory f)"
    "dinv d' \<and> ext (f_db f) d' \<and> view d' = view (f_db f) \<and> P"
  shows "instr_good 0 f (Some (Done (ret, err, f')))"
  using assms frameokD(8) [OF assms(1)] by (intro good_db [OF assms(1-7)]) (auto simp: R_refl)

lemma opBalance_good:
  assumes "exec_pre 1 1 f"
  shows "instr_good 0 f (opBalance calls f)"
proof -
  from assms obtain x st where *: "f_stack f = x # st" "frameok f" "list_all (\<lambda>x. 0 \<le> x) st"
    "length st + 1 \<le> StackLimit" by (rule exec_pre1)
  obtain v d' where g: "db_GetBalance ops (f_db f) (BigToAddress x) = (v, d')" by fastforce
  note ok = GetBalance [OF frameokD(7) [OF *(2)] g]
  with w_balance_nonneg [OF frameokD(8) [OF *(2)]] have "0 \<le> v" by simp
  with * g show ?thesis
    by (auto simp: opBalance_def frameokD stack_push_def intro!: good_view [OF _ _ _ _ _ _ _ ok])
qed

lemma opExtCodeSize_good:
  assumes "exec_pre 1 1 f"
  shows "instr_good 0 f (opExtCodeSize calls f)"
proof -
  from assms obtain x st where *: "f_stack f = x # st" "frameok f" "list_all (\<lambda>x. 0 \<le> x) st"
    "length st + 1 \<le> StackLimit" by (rule exec_pre1)
  obtain v d' where g: "db_GetCodeSize ops (f_db f) (BigToAddress x) = (v, d')" by fastforce
  note ok = GetCodeSize [OF frameokD(7) [OF *(2)] g]
  with * g show ?thesis
    by (auto simp: opExtCodeSize_def frameokD stack_push_def intro!: good_view [OF _ _ _ _ _ _ _ ok])
qed

lemma opSload_good:
  assumes "exec_pre 1 1 f"
  shows "instr_good 0 f (opSload calls f)"
proof -
  from assms obtain x st where *: "f_stack f = x # st" "frameok f" "list_all (\<lambda>x. 0 \<le> x) st"
    "length st + 1 \<le> StackLimit" by (rule exec_pre1)
  obtain v d' where g: "db_GetState ops (f_db f) (f_Address f) (BigToHash x) = (v, d')" by fastforce
  note ok = GetState [OF frameokD(7) [OF *(2)] g]
  with * g show ?thesis
    by (auto simp: opSload_def frameokD stack_push_def Hash_Big_def intro!: good_view [OF _ _ _ _ _ _ _ ok])
qed

lemma opExtCodeCopy_good:
  assumes "exec_pre 4 0 f" "covered (f_memory f) (f_stack f ! 1) (f_stack f ! 3)"
  shows "instr_good 0 f (opExtCodeCopy calls f)"
proof -
  from assms(1) obtain a x y l st where *: "f_stack f = a # x # y # l # st" "0 \<le> y" "frameok f"
    "list_all (\<lambda>x. 0 \<le> x) st" "length st + 0 \<le> StackLimit" by (rule exec_pre4)
  obtain c d' where g: "db_GetCode ops (f_db f) (BigToAddress a) = (c, d')" by fastforce
  note ok = GetCode [OF frameokD(7) [OF *(3)] g]
  have "small c" using ok w_code_ok [OF frameokD(8) [OF *(3)]] by (simp add: code_ok_def)
  with copy_good [of f x l c y st] * assms(2) obtain bs mem where
    "getData c y l = Some bs" "mem_Set (f_memory f) (big_Uint64 x) (big_Uint64 l) bs = Some mem"
    "length mem = length (f_memory f)"
    by auto
  with * g show ?thesis
    by (auto simp: opExtCodeCopy_def frameokD intro!: good_view [OF _ _ _ _ _ _ _ ok])
qed

lemma opSstore_good:
  assumes "exec_pre 2 0 f" "\<not> readonly (f_env f)"
  shows "instr_good 0 f (opSstore calls f)"
proof -
  from assms(1) obtain x y st where *: "f_stack f = x # y # st" "frameok f" "list_all (\<lambda>x. 0 \<le> x) st"
    "length st + 0 \<le> StackLimit" by (rule exec_pre2)
  note ok = SetState [OF frameokD(7) [OF *(2)] refl]
  have "R (readonly (f_env f)) w (w_SetState z w a k v)" for w a k v
    by (rule R_writable [OF R_SetState assms(2)])
  with * world_ok_setters(4) [OF frameokD(8) [OF *(2)] fresh(1,2)] show ?thesis
    by (auto simp: opSstore_def frameokD ok intro!: good_db)
qed

lemma opSuicide_good:
  assumes "exec_pre 1 0 f" "\<not> readonly (f_env f)"
  shows "instr_good 0 f (opSuicide calls f)"
proof -
  from assms(1) obtain x st where *: "f_stack f = x # st" "frameok f" "list_all (\<lambda>x. 0 \<le> x) st"
    "length st + 0 \<le> StackLimit" by (rule exec_pre1)
  note f = frameokD(7,8) [OF *(2)]
  obtain v d1 where g: "db_GetBalance ops (f_db f) (f_Address f) = (v, d1)" by fastforce
  note 1 = GetBalance [OF f(1) g]
  let ?d2 = "db_AddBalance ops d1 (BigToAddress x) v"
  from 1 have 2: "dinv ?d2 \<and> ext d1 ?d2 \<and> view ?d2 = w_AddBalance z (view (f_db f)) (BigToAddress x) v"
    using AddBalance [of d1 ?d2] by auto
  obtain s d3 where s: "db_Suicide ops ?d2 (f_Address f) = (s, d3)" by fastforce
  from 2 have 3: "dinv d3 \<and> ext ?d2 d3 \<and> view d3 = w_Suicide (view ?d2) (f_Address f)"
    using Suicide [OF _ s] by auto
  have "0 \<le> v" using 1 w_balance_nonneg [OF f(2)] by simp
  then have "world_ok keccak (view d3)"
    using 2 3 world_ok_setters(8) [OF world_ok_setters(5) [OF f(2) fresh(1,2)] fresh(1,2)] by simp
  moreover have "R (readonly (f_env f)) (view (f_db f)) (view d3)"
    using R_writable [OF R_Suicide [OF f(2)] assms(2)] 1 2 3 by simp
  moreover have "ext (f_db f) d3" using 1 2 3 by (blast intro: ext_trans)
  ultimately show ?thesis
    using * g s 3 by (auto simp: opSuicide_def frameokD intro!: good_db)
qed

lemma pop_topics_ok:
  "n \<le> length st \<Longrightarrow> \<exists>ts. pop_topics n st = Some (ts, drop n st)"
proof (induction n arbitrary: st)
  case (Suc n)
  then obtain x xs where "st = x # xs" "n \<le> length xs" by (cases st) auto
  with Suc.IH [of xs] show ?case by auto
qed simp

lemma makeLog_good:
  assumes "exec_pre (n + 2) 0 f" "covered (f_memory f) (f_stack f ! 0) (f_stack f ! 1)" "\<not> readonly (f_env f)"
  shows "instr_good 0 f (makeLog n calls f)"
proof -
  from assms(1) have "exec_pre 2 0 f" by (auto simp: exec_pre_def frame_ok_def)
  then obtain x y st where *: "f_stack f = x # y # st" "frameok f" "list_all (\<lambda>x. 0 \<le> x) st"
    "length st + 0 \<le> StackLimit" by (rule exec_pre2)
  moreover from assms(1) * have "n \<le> length st" by (simp add: exec_pre_def)
  then obtain ts where "pop_topics n st = Some (ts, drop n st)" using pop_topics_ok by blast
  moreover obtain data where "mem_Get (f_memory f) (big_Int64 x) (big_Int64 y) = Some data"
    using good_Get [of f x y] assms(2) * by auto
  moreover note ok = AddLog [OF frameokD(7) [OF *(2)] refl]
  moreover have "R (readonly (f_env f)) w (w_AddLog w l)" for w l by (rule R_writable [OF R_AddLog assms(3)])
  moreover note world_ok_setters(2) [OF frameokD(8) [OF *(2)] fresh(1,2)]
  moreover have "list_all (\<lambda>x. 0 \<le> x) (drop n st)" using *(3) by (auto simp: list_all_length)
  ultimately show ?thesis by (auto simp: makeLog_def frameokD ok intro!: good_db)
qed

section \<open>Jumps\<close>

lemma good_contract:
  assumes "frameok f" "f_env f' = f_env f" "f_contract f' = (f_contract f)\<lparr>c_jumpdests := jd\<rparr>" "cache_ok keccak jd"
    "list_all (\<lambda>x. 0 \<le> x) (f_stack f')" "length (f_stack f') \<le> StackLimit"
    "length (f_memory f') = length (f_memory f)"
  shows "instr_good 0 f (Some (Done ([], err, f')))"
  using assms frameokD(10) [OF assms(1)]
  by (auto simp: instr_good_def frame_ok_def contract_ok_def contract_ext_def intro: env_step_refl)

lemma frameok_jump:
  assumes "frameok f"
  shows "\<exists>ok jd. isValidJump (f_contract f) to = Some (ok, (f_contract f)\<lparr>c_jumpdests := jd\<rparr>) \<and> cache_ok keccak jd"
  using assms by (intro isValidJump_ok) (auto simp: frame_ok_def env_ok_def)

lemma opJump_good:
  assumes "exec_pre 1 0 f"
  shows "instr_good 0 f (opJump calls f)"
proof -
  from assms(1) obtain x st where *: "f_stack f = x # st" "frameok f" "list_all (\<lambda>x. 0 \<le> x) st"
    "length st + 0 \<le> StackLimit" by (rule exec_pre1)
  with frameok_jump [OF *(2), of x] show ?thesis
    by (auto simp: opJump_def Let_def intro!: good_contract)
qed

lemma opJumpi_good:
  assumes "exec_pre 2 0 f"
  shows "instr_good 0 f (opJumpi calls f)"
proof -
  from assms(1) obtain x y st where *: "f_stack f = x # y # st" "frameok f" "list_all (\<lambda>x. 0 \<le> x) st"
    "length st + 0 \<le> StackLimit" by (rule exec_pre2)
  show ?thesis
  proof (cases "y = 0")
    case True
    with * show ?thesis by (auto simp: opJumpi_def intro!: good_same)
  next
    case False
    with * frameok_jump [OF *(2), of x] show ?thesis
      by (auto simp: opJumpi_def Let_def intro!: good_contract)
  qed
qed

section \<open>Calls and creations\<close>

text \<open>What a call made by an instruction gives back.\<close>

definition call_good :: "int \<Rightarrow> 'd Environment \<Rightarrow> Contract \<Rightarrow> 'd call_result outcome option \<Rightarrow> bool" where
  "call_good gas env c r \<longleftrightarrow> (\<exists>ret err env' c' g'. r = Some (Done (ret, err, env', ParentRef c', g')) \<and>
     small ret \<and> env_step env env' \<and> contract_ok keccak c' \<and> contract_ext c c' \<and> Gas c' \<le> Gas c + gas)"

definition create_good :: "int \<Rightarrow> 'd Environment \<Rightarrow> Contract \<Rightarrow> 'd create_result outcome option \<Rightarrow> bool" where
  "create_good gas env c r \<longleftrightarrow> (\<exists>ret a err env' c' g'. r = Some (Done (ret, a, err, env', ParentRef c', g')) \<and>
     small ret \<and> env_step env env' \<and> contract_ok keccak c' \<and> contract_ext c c' \<and> Gas c' \<le> Gas c + gas)"

definition call_pre :: "int \<Rightarrow> 'd Environment \<Rightarrow> Contract \<Rightarrow> bytes \<Rightarrow> int \<Rightarrow> int \<Rightarrow> bool" where
  "call_pre N env c input gas price \<longleftrightarrow> envok env \<and> contract_ok keccak c \<and> small input \<and>
     0 \<le> gas \<and> gas < N \<and> gas < 2 ^ 63 \<and> 0 \<le> price"

text \<open>The five methods are total for less than \<open>N\<close> gas.\<close>

definition calls_ok :: "int \<Rightarrow> 'd Calls \<Rightarrow> bool" where
  "calls_ok N calls \<longleftrightarrow> (\<forall>env c addr input gas price v. call_pre N env c input gas price \<longrightarrow>
     (0 \<le> v \<longrightarrow> (readonly env \<longrightarrow> v = 0) \<longrightarrow>
        call_good gas env c (env_Call calls env (ParentRef c) addr input gas price v)) \<and>
     (0 \<le> v \<longrightarrow> call_good gas env c (env_CallCode calls env (ParentRef c) addr input gas price v)) \<and>
     call_good gas env c (env_DelegateCall calls env (ParentRef c) addr input gas price) \<and>
     call_good gas env c (env_StaticCall calls env (ParentRef c) addr input gas price) \<and>
     (0 \<le> v \<longrightarrow> \<not> readonly env \<longrightarrow>
        create_good gas env c (env_Create calls env (ParentRef c) input gas price v)))"

lemma finish_call_good:
  assumes f: "frameok f" "list_all (\<lambda>x. 0 \<le> x) st" "length st + 1 \<le> StackLimit"
    and cov: "covered (f_memory f) off l"
    and r: "call_good gas (f_env f) (f_contract f) (Some r)"
  shows "instr_good gas f (finish_call f st off l r)"
proof -
  from r obtain ret err env' c' g' where r': "r = Done (ret, err, env', ParentRef c', g')" "small ret"
      "env_step (f_env f) env'" "contract_ok keccak c'" "contract_ext (f_contract f) c'"
      "Gas c' \<le> Gas (f_contract f) + gas"
    by (auto simp: call_good_def)
  obtain mem where mem: "mem_Set (f_memory f) (big_Uint64 off) (big_Uint64 l) ret = Some mem"
      "length mem = length (f_memory f)"
    using good_Set [OF f(1) cov] by blast
  show ?thesis
  proof (cases "err = None \<or> err = Some ErrRevert")
    case True
    with r' mem f show ?thesis
      by (auto simp: finish_call_def set_parent_def stack_push_def instr_good_def)
  next
    case False
    with r' f show ?thesis
      by (auto simp: finish_call_def set_parent_def stack_push_def instr_good_def)
  qed
qed

lemma opCall_good:
  assumes "exec_pre 7 1 f" "calls_ok N calls"
    and cov: "covered (f_memory f) (f_stack f ! 3) (f_stack f ! 4)" "covered (f_memory f) (f_stack f ! 5) (f_stack f ! 6)"
    and gas: "gas = f_stack f ! 0 + (if U256 (f_stack f ! 2) = 0 then 0 else callStipend)" "gas < N" "gas < 2 ^ 63"
    and v: "readonly (f_env f) \<Longrightarrow> f_stack f ! 2 = 0"
  shows "instr_good gas f (opCall calls f)"
proof -
  from assms(1) obtain g a v io sz ro rs st where *: "f_stack f = g # a # v # io # sz # ro # rs # st"
    "0 \<le> g" "0 \<le> v" "frameok f" "list_all (\<lambda>x. 0 \<le> x) st" "length st + 1 \<le> StackLimit"
    by (rule exec_pre7)
  obtain args where args: "mem_Get (f_memory f) (big_Int64 io) (big_Int64 sz) = Some args" "small args"
    using good_Get [OF *(4), of io sz] cov(1) *(1) by auto
  have g: "gas = (if length (big_Bytes (U256 v)) > 0 then g + callStipend else g)"
    using gas(1) *(1) by simp
  have "call_pre N (f_env f) (f_contract f) args gas (Price (f_contract f))"
    using * gas args frameokD [OF *(4)] by (auto simp: call_pre_def callStipend_def)
  then have "call_good gas (f_env f) (f_contract f)
      (env_Call calls (f_env f) (ParentRef (f_contract f)) (BigToAddress a) args gas (Price (f_contract f)) (U256 v))"
    using assms(2) v * by (auto simp: calls_ok_def U256_id)
  moreover from this obtain r where r: "env_Call calls (f_env f) (ParentRef (f_contract f)) (BigToAddress a) args gas
      (Price (f_contract f)) (U256 v) = Some r" by (auto simp: call_good_def)
  ultimately have "instr_good gas f (finish_call f st ro rs r)"
    using * cov(2) by (intro finish_call_good) auto
  with * args r g show ?thesis by (simp add: opCall_def Let_def)
qed

lemma opCallCode_good:
  assumes "exec_pre 7 1 f" "calls_ok N calls"
    and cov: "covered (f_memory f) (f_stack f ! 3) (f_stack f ! 4)" "covered (f_memory f) (f_stack f ! 5) (f_stack f ! 6)"
    and gas: "gas = f_stack f ! 0 + (if U256 (f_stack f ! 2) = 0 then 0 else callStipend)" "gas < N" "gas < 2 ^ 63"
  shows "instr_good gas f (opCallCode calls f)"
proof -
  from assms(1) obtain g a v io sz ro rs st where *: "f_stack f = g # a # v # io # sz # ro # rs # st"
    "0 \<le> g" "0 \<le> v" "frameok f" "list_all (\<lambda>x. 0 \<le> x) st" "length st + 1 \<le> StackLimit"
    by (rule exec_pre7)
  obtain args where args: "mem_Get (f_memory f) (big_Int64 io) (big_Int64 sz) = Some args" "small args"
    using good_Get [OF *(4), of io sz] cov(1) *(1) by auto
  have g: "gas = (if length (big_Bytes (U256 v)) > 0 then g + callStipend else g)"
    using gas(1) *(1) by simp
  have "call_pre N (f_env f) (f_contract f) args gas (Price (f_contract f))"
    using * gas args frameokD [OF *(4)] by (auto simp: call_pre_def callStipend_def)
  then have "call_good gas (f_env f) (f_contract f)
      (env_CallCode calls (f_env f) (ParentRef (f_contract f)) (BigToAddress a) args gas (Price (f_contract f)) (U256 v))"
    using assms(2) by (simp add: calls_ok_def)
  moreover from this obtain r where r: "env_CallCode calls (f_env f) (ParentRef (f_contract f)) (BigToAddress a) args gas
      (Price (f_contract f)) (U256 v) = Some r" by (auto simp: call_good_def)
  ultimately have "instr_good gas f (finish_call f st ro rs r)"
    using * cov(2) by (intro finish_call_good) auto
  with * args r g show ?thesis by (simp add: opCallCode_def Let_def)
qed

lemma delegate_static_good:
  assumes "exec_pre 6 1 f" "calls_ok N calls"
    and cov: "covered (f_memory f) (f_stack f ! 2) (f_stack f ! 3)" "covered (f_memory f) (f_stack f ! 4) (f_stack f ! 5)"
    and gas: "f_stack f ! 0 < N" "f_stack f ! 0 < 2 ^ 63"
  shows "instr_good (f_stack f ! 0) f (opDelegateCall calls f)" "instr_good (f_stack f ! 0) f (opStaticCall calls f)"
proof -
  from assms(1) obtain g a io sz ro rs st where *: "f_stack f = g # a # io # sz # ro # rs # st"
    "0 \<le> g" "frameok f" "list_all (\<lambda>x. 0 \<le> x) st" "length st + 1 \<le> StackLimit"
    by (rule exec_pre6)
  obtain args where args: "mem_Get (f_memory f) (big_Int64 io) (big_Int64 sz) = Some args" "small args"
    using good_Get [OF *(3), of io sz] cov(1) *(1) by auto
  have "call_pre N (f_env f) (f_contract f) args g (Price (f_contract f))"
    using * gas args frameokD [OF *(3)] by (auto simp: call_pre_def)
  then have good: "call_good g (f_env f) (f_contract f)
      (env_DelegateCall calls (f_env f) (ParentRef (f_contract f)) (BigToAddress a) args g (Price (f_contract f)))"
    "call_good g (f_env f) (f_contract f)
      (env_StaticCall calls (f_env f) (ParentRef (f_contract f)) (BigToAddress a) args g (Price (f_contract f)))"
    using assms(2) by (simp_all add: calls_ok_def)
  then obtain r r' where
    r: "env_DelegateCall calls (f_env f) (ParentRef (f_contract f)) (BigToAddress a) args g (Price (f_contract f)) = Some r"
      "env_StaticCall calls (f_env f) (ParentRef (f_contract f)) (BigToAddress a) args g (Price (f_contract f)) = Some r'"
    by (auto simp: call_good_def)
  with good * cov(2) have "instr_good g f (finish_call f st ro rs r)" "instr_good g f (finish_call f st ro rs r')"
    by (auto intro: finish_call_good)
  with * args r show "instr_good (f_stack f ! 0) f (opDelegateCall calls f)" "instr_good (f_stack f ! 0) f (opStaticCall calls f)"
    by (simp_all add: opDelegateCall_def opStaticCall_def Let_def)
qed

lemma opCreate_good:
  assumes "exec_pre 3 1 f" "calls_ok N calls" "covered (f_memory f) (f_stack f ! 1) (f_stack f ! 2)"
    and "Gas (f_contract f) < N" "\<not> readonly (f_env f)"
  shows "instr_good 0 f (opCreate calls f)"
proof -
  from assms(1) obtain v off sz st where *: "f_stack f = v # off # sz # st" "0 \<le> v" "frameok f"
    "list_all (\<lambda>x. 0 \<le> x) st" "length st + 1 \<le> StackLimit" by (rule exec_pre3)
  obtain input where input: "mem_Get (f_memory f) (big_Int64 off) (big_Int64 sz) = Some input" "small input"
    using good_Get [OF *(3), of off sz] assms(3) *(1) by auto
  define gas where "gas = (case CreateBySuicide (evm_gasTable (f_env f)) of
      Some _ \<Rightarrow> Gas (f_contract f) - big_Div (Gas (f_contract f)) 64 | None \<Rightarrow> Gas (f_contract f))"
  have G: "0 \<le> Gas (f_contract f)" "Gas (f_contract f) < 2 ^ 63"
    by (rule frameokD [OF *(3)]) (rule frameok_Gas [OF *(3)])
  then have gas: "0 \<le> gas" "gas \<le> Gas (f_contract f)"
    by (auto simp: gas_def big_Div_nonneg split: option.split)
  define c where "c = (f_contract f)\<lparr>Gas := Gas (f_contract f) - gas, UsedGas := UsedGas (f_contract f) + gas\<rparr>"
  have use: "UseGas (f_contract f) gas = (True, c)"
    using gas by (simp add: UseGas_def useGas_def c_def)
  have c: "contract_ok keccak c" "contract_ext (f_contract f) c" "Price c = Price (f_contract f)"
    using gas frameokD(11) [OF *(3)] by (auto simp: c_def contract_ok_def contract_ext_def)
  have "call_pre N (f_env f) c input gas (Price c)"
    using c gas G input assms(4) frameokD [OF *(3)] by (auto simp: call_pre_def)
  then have "create_good gas (f_env f) c (env_Create calls (f_env f) (ParentRef c) input gas (Price c) v)"
    using assms(2,5) *(2) by (simp add: calls_ok_def)
  then obtain ret a err env' c' g' where
    r: "env_Create calls (f_env f) (ParentRef c) input gas (Price c) v = Some (Done (ret, a, err, env', ParentRef c', g'))"
      "small ret" "env_step (f_env f) env'" "contract_ok keccak c'" "contract_ext c c'" "Gas c' \<le> Gas c + gas"
    by (auto simp: create_good_def)
  have ext: "contract_ext (f_contract f) c'" using c(2) r(5) by (rule contract_ext_trans)
  have G': "Gas c' \<le> Gas (f_contract f)" using r(6) by (simp add: c_def)
  show ?thesis
    using * input use r(1-4) ext G'
    by (auto simp: opCreate_def Let_def gas_def [symmetric] set_parent_def stack_push_def instr_good_def Address_Big_def)
qed

end

end
