(* ===== verification/Vm_Charge.thy ===== *)
theory Vm_Charge
  imports Vm_Safety
begin

text \<open>
  The phase of the interpreter that comes before an instruction is executed: \<^verbatim>\<open>calculateGasAndSize\<close> is
  total on well-formed states, and when the gas suffices for the cost it computes, the operands are on
  the stack, the memory it asks for covers what the instruction reads and writes, the growth of the
  memory is paid for, and every instruction that does not stop the run costs at least 1.
\<close>

section \<open>What an instruction needs\<close>

text \<open>The memory ranges an instruction works on, as offset and length.\<close>

definition mem_need :: "OpCode \<Rightarrow> stack \<Rightarrow> (int \<times> int) list" where
  "mem_need op st = (case op of
     RETURNDATACOPY \<Rightarrow> [(st ! 0, st ! 2)]
   | REVERT \<Rightarrow> [(st ! 0, st ! 1)]
   | LOGn n \<Rightarrow> [(st ! 0, st ! 1)]
   | MLOAD \<Rightarrow> [(st ! 0, 32)]
   | MSTORE8 \<Rightarrow> [(st ! 0, 1)]
   | MSTORE \<Rightarrow> [(st ! 0, 32)]
   | RETURN \<Rightarrow> [(st ! 0, st ! 1)]
   | SHA3 \<Rightarrow> [(st ! 0, st ! 1)]
   | CALLDATACOPY \<Rightarrow> [(st ! 0, st ! 2)]
   | CODECOPY \<Rightarrow> [(st ! 0, st ! 2)]
   | EXTCODECOPY \<Rightarrow> [(st ! 1, st ! 3)]
   | CREATE \<Rightarrow> [(st ! 1, st ! 2)]
   | CALL \<Rightarrow> [(st ! 3, st ! 4), (st ! 5, st ! 6)]
   | CALLCODE \<Rightarrow> [(st ! 3, st ! 4), (st ! 5, st ! 6)]
   | DELEGATECALL \<Rightarrow> [(st ! 2, st ! 3), (st ! 4, st ! 5)]
   | STATICCALL \<Rightarrow> [(st ! 2, st ! 3), (st ! 4, st ! 5)]
   | _ \<Rightarrow> [])"

definition op_pops :: "OpCode \<Rightarrow> nat" where
  "op_pops op = (case op of
     SWAPn k \<Rightarrow> k + 1 | DUPn k \<Rightarrow> k | LOGn n \<Rightarrow> n + 2
   | _ \<Rightarrow> (case base_req op of Some r \<Rightarrow> stackPop r | None \<Rightarrow> 0))"

definition base_room :: "OpCode \<Rightarrow> nat \<Rightarrow> bool" where
  "base_room op n = (case base_req op of
     Some r \<Rightarrow> stackPop r \<le> n \<and> n - stackPop r + stackPush r \<le> StackLimit | None \<Rightarrow> n \<le> StackLimit)"

text \<open>The gas an instruction hands to a call.\<close>

definition passes :: "OpCode \<Rightarrow> stack \<Rightarrow> int" where
  "passes op st = (case op of
     CALL \<Rightarrow> st ! 0 + (if U256 (st ! 2) = 0 then 0 else callStipend)
   | CALLCODE \<Rightarrow> st ! 0 + (if U256 (st ! 2) = 0 then 0 else callStipend)
   | DELEGATECALL \<Rightarrow> st ! 0
   | STATICCALL \<Rightarrow> st ! 0
   | _ \<Rightarrow> 0)"

text \<open>Opcodes that may cost nothing: the halting ones, and those that are not instructions.\<close>

definition free_op :: "OpCode \<Rightarrow> bool" where
  "free_op op = (case op of
     STOP \<Rightarrow> True | RETURN \<Rightarrow> True | REVERT \<Rightarrow> True | SUICIDE \<Rightarrow> True
   | SWAPn k \<Rightarrow> False | LOGn n \<Rightarrow> False
   | _ \<Rightarrow> base_req op = None)"

definition min_price :: "OpCode \<Rightarrow> int" where
  "min_price op = (if free_op op then 0 else 1)"

lemmas need_defs = mem_need_def op_pops_def base_room_def passes_def free_op_def min_price_def base_req_def

lemma baseCheck_Inr:
  assumes "baseCheck op st = Inr g" "length st \<le> StackLimit"
  shows "base_room op (length st)" "g = (case base_req op of Some r \<Rightarrow> req_gas r | None \<Rightarrow> 0)"
  using assms
  by (auto simp: baseCheck_def base_room_def stack_require_def stack_len_def
      split: option.splits if_splits)

lemma stack_back_Some [simp]: "n < length st \<Longrightarrow> stack_back st n = Some (st ! n)"
  by (simp add: stack_back_def)

context evm_world
begin

definition charged :: "'d frame \<Rightarrow> OpCode \<Rightarrow> 'd frame \<Rightarrow> int \<Rightarrow> int \<Rightarrow> bool" where
  "charged f op f1 n cost \<longleftrightarrow>
     list_all (\<lambda>x. 0 \<le> x) (f_stack f1) \<and> length (f_stack f1) = length (f_stack f) \<and>
     op_pops op \<le> length (f_stack f) \<and> base_room op (length (f_stack f)) \<and>
     (\<exists>k. n = 32 * int k) \<and>
     (\<forall>(off, l) \<in> set (mem_need op (f_stack f1)). l = 0 \<or> off + l \<le> n) \<and>
     (\<forall>w. length (f_memory f) = 32 * w \<longrightarrow>
        memfee (max (int w) (n div 32)) - memfee (int w) + passes op (f_stack f1) + min_price op \<le> cost)"

definition calc_good :: "'d frame \<Rightarrow> OpCode \<Rightarrow> ((vm_error + int \<times> int) \<times> 'd frame) option \<Rightarrow> bool" where
  "calc_good f op r \<longleftrightarrow> (\<exists>res f1. r = Some (res, f1) \<and> f_contract f1 = f_contract f \<and>
     f_memory f1 = f_memory f \<and> pc f1 = pc f \<and> env_step (f_env f) (f_env f1) \<and>
     (op = CALL \<longrightarrow> length (f_stack f1) = length (f_stack f) \<and> (isl res \<or> 7 \<le> length (f_stack f))) \<and>
     (case res of Inl e \<Rightarrow> True
      | Inr (n, cost) \<Rightarrow> cost \<le> Gas (f_contract f) \<longrightarrow> charged f op f1 n cost))"

lemma calc_error:
  assumes "frameok f"
  shows "calc_good f op (Some (Inl e, f))"
  using assms frameokD(10) by (auto simp: calc_good_def intro: env_step_refl)

lemma calc_baseCheck_Inl:
  assumes "frameok f" "baseCheck op (f_stack f) = Inl e"
  shows "calc_good f op (calculateGasAndSize f op)"
  using assms by (simp add: calculateGasAndSize_def calc_error)

text \<open>Instructions with a price and no memory; the state may have been read for the price.\<close>

lemma calc_plain:
  assumes f: "frameok f" and step: "env_step (f_env f) (f_env f1)"
    and f1: "f_contract f1 = f_contract f" "f_memory f1 = f_memory f" "f_stack f1 = f_stack f" "pc f1 = pc f"
    and op: "mem_need op (f_stack f) = []" "passes op (f_stack f) = 0" "op \<noteq> CALL"
      "op_pops op \<le> length (f_stack f)" "base_room op (length (f_stack f))" "min_price op \<le> cost"
  shows "calc_good f op (Some (Inr (0, cost), f1))"
  using assms by (auto simp: calc_good_def charged_def frame_ok_def max_def)

lemma frameok_words:
  assumes "frameok f"
  obtains w where "length (f_memory f) = 32 * w"
  using assms by (auto simp: frame_ok_def mem_ok_def)

text \<open>Instructions that size the memory for one range.\<close>

lemma calc_mem:
  assumes f: "frameok f" and rng: "0 \<le> off" "0 \<le> l"
    and op: "mem_need op (f_stack f) = [(off, l)]" "passes op (f_stack f) = 0" "op \<noteq> CALL"
      "op_pops op \<le> length (f_stack f)" "base_room op (length (f_stack f))" "min_price op \<le> gas"
  shows "calc_good f op (mem_branch f gas off l)"
proof -
  obtain w where w: "length (f_memory f) = 32 * w" by (rule frameok_words [OF f])
  obtain n cost where q: "quadMemGas (f_memory f) (calcMemSize off l) gas = (n, cost)" by fastforce
  note spec = quadMemGas_spec [OF q _ w]
  have "0 \<le> calcMemSize off l" "l = 0 \<or> calcMemSize off l = off + l"
    using rng by (auto simp: calcMemSize_def)
  with spec q w op f env_step_refl [OF frameokD(10) [OF f]] show ?thesis
    by (auto simp: mem_branch_def calc_good_def charged_def frame_ok_def)
qed

lemma nth_nonneg: "frameok f \<Longrightarrow> i < length (f_stack f) \<Longrightarrow> 0 \<le> f_stack f ! i"
  by (auto simp: frame_ok_def list_all_length)

lemma frameok_stack: "frameok f \<Longrightarrow> length (f_stack f) \<le> StackLimit"
  by (simp add: frame_ok_def)

lemma frameok_gasTable: "frameok f \<Longrightarrow> 1 \<le> ExtcodeCopy (evm_gasTable (f_env f)) \<and>
    1 \<le> ExtcodeSize (evm_gasTable (f_env f)) \<and> 1 \<le> BalanceGas (evm_gasTable (f_env f)) \<and>
    1 \<le> SLoad (evm_gasTable (f_env f)) \<and> 1 \<le> Calls (evm_gasTable (f_env f)) \<and>
    0 \<le> ExpByte (evm_gasTable (f_env f)) \<and> 0 \<le> SuicideGas (evm_gasTable (f_env f))"
  by (simp add: frame_ok_def env_ok_def gasTable_ok_def)

lemma toWordSize_nonneg: "0 \<le> x \<Longrightarrow> 0 \<le> toWordSize x"
  by (simp add: toWordSize_def big_Div_nonneg)

lemma base_len:
  assumes "frameok f" "baseCheck op (f_stack f) = Inr g"
  shows "base_room op (length (f_stack f))" "g = (case base_req op of Some r \<Rightarrow> req_gas r | None \<Rightarrow> 0)"
  by (rule baseCheck_Inr [OF assms(2) frameok_stack [OF assms(1)]])+

lemma calc_default:
  assumes f: "frameok f" and b: "baseCheck op (f_stack f) = Inr g"
    and c: "calculateGasAndSize f op = Some (Inr (0, g), f)"
    and op: "mem_need op (f_stack f) = []" "passes op (f_stack f) = 0" "op \<noteq> CALL"
      "op_pops op = (case base_req op of Some r \<Rightarrow> stackPop r | None \<Rightarrow> 0)"
      "min_price op \<le> (case base_req op of Some r \<Rightarrow> req_gas r | None \<Rightarrow> 0)"
  shows "calc_good f op (calculateGasAndSize f op)"
proof -
  note base = base_len [OF f b]
  have "op_pops op \<le> length (f_stack f)"
    using base(1) op(4) by (auto simp: base_room_def split: option.splits)
  with f op base show ?thesis
    unfolding c by (intro calc_plain env_step_refl frameokD) auto
qed

section \<open>Every opcode is charged\<close>

lemmas calc_simps = calculateGasAndSize_def need_defs

text \<open>Opcodes that cost their static price, and bytes that are no opcodes.\<close>

lemma calc_static:
  assumes f: "frameok f" and b: "baseCheck op (f_stack f) = Inr g"
    and op: "op \<in> {STOP, ADD, MUL, SUB, DIV, SDIV, MOD, SMOD, ADDMOD, MULMOD, SIGNEXTEND, LT, GT, SLT, SGT, EQ,
      ISZERO, AND_op, OR_op, XOR_op, NOT_op, BYTE, ADDRESS, ORIGIN, CALLER, CALLVALUE, CALLDATALOAD,
      CALLDATASIZE, CODESIZE, GASPRICE, RETURNDATASIZE, BLOCKHASH, COINBASE, TIMESTAMP, NUMBER,
      DIFFICULTY, GASLIMIT, POP, JUMP, JUMPI, PC, MSIZE, GAS, JUMPDEST, PUSH, DUP, SWAP}
      \<or> (\<exists>k. op = PUSHn k) \<or> (\<exists>b. op = UNDEFINED b)"
  shows "calc_good f op (calculateGasAndSize f op)"
proof (rule calc_default [OF f b])
  show "calculateGasAndSize f op = Some (Inr (0, g), f)"
    using op b by (elim insertE disjE emptyE exE) (simp_all add: calculateGasAndSize_def)
  show "mem_need op (f_stack f) = []" using op by (elim insertE disjE emptyE exE) (simp_all add: mem_need_def)
  show "passes op (f_stack f) = 0" using op by (elim insertE disjE emptyE exE) (simp_all add: passes_def)
  show "op \<noteq> CALL" using op by auto
  show "op_pops op = (case base_req op of Some r \<Rightarrow> stackPop r | None \<Rightarrow> 0)"
    using op by (elim insertE disjE emptyE exE) (simp_all add: op_pops_def)
  show "min_price op \<le> (case base_req op of Some r \<Rightarrow> req_gas r | None \<Rightarrow> 0)"
    using op by (elim insertE disjE emptyE exE)
      (simp_all add: min_price_def free_op_def base_req_def gas_step_defs)
qed

text \<open>Opcodes that read or write one range of the memory.\<close>

lemma calc_REVERT:
  assumes f: "frameok f" and b: "baseCheck REVERT (f_stack f) = Inr g"
  shows "calc_good f REVERT (calculateGasAndSize f REVERT)"
proof -
  note base = base_len [OF f b]
  have len: "2 \<le> length (f_stack f)" using base(1) by (simp add: base_room_def base_req_def)
  then have ne: "f_stack f \<noteq> []" by auto
  have "calculateGasAndSize f REVERT = mem_branch f (g) (f_stack f ! 0) (f_stack f ! 1)"
    using b len ne by (simp add: calculateGasAndSize_def Let_def)
  moreover have "calc_good f REVERT (mem_branch f (g) (f_stack f ! 0) (f_stack f ! 1))"
    using len ne base f nth_nonneg [OF f] toWordSize_nonneg frameok_gasTable [OF f]
    by (intro calc_mem) (simp_all add: need_defs gas_step_defs)
  ultimately show ?thesis by simp
qed

lemma calc_RETURN:
  assumes f: "frameok f" and b: "baseCheck RETURN (f_stack f) = Inr g"
  shows "calc_good f RETURN (calculateGasAndSize f RETURN)"
proof -
  note base = base_len [OF f b]
  have len: "2 \<le> length (f_stack f)" using base(1) by (simp add: base_room_def base_req_def)
  then have ne: "f_stack f \<noteq> []" by auto
  have "calculateGasAndSize f RETURN = mem_branch f (g) (f_stack f ! 0) (f_stack f ! 1)"
    using b len ne by (simp add: calculateGasAndSize_def Let_def)
  moreover have "calc_good f RETURN (mem_branch f (g) (f_stack f ! 0) (f_stack f ! 1))"
    using len ne base f nth_nonneg [OF f] toWordSize_nonneg frameok_gasTable [OF f]
    by (intro calc_mem) (simp_all add: need_defs gas_step_defs)
  ultimately show ?thesis by simp
qed

lemma calc_MLOAD:
  assumes f: "frameok f" and b: "baseCheck MLOAD (f_stack f) = Inr g"
  shows "calc_good f MLOAD (calculateGasAndSize f MLOAD)"
proof -
  note base = base_len [OF f b]
  have len: "1 \<le> length (f_stack f)" using base(1) by (simp add: base_room_def base_req_def)
  then have ne: "f_stack f \<noteq> []" by auto
  have "calculateGasAndSize f MLOAD = mem_branch f (g) (f_stack f ! 0) (32)"
    using b len ne by (simp add: calculateGasAndSize_def Let_def)
  moreover have "calc_good f MLOAD (mem_branch f (g) (f_stack f ! 0) (32))"
    using len ne base f nth_nonneg [OF f] toWordSize_nonneg frameok_gasTable [OF f]
    by (intro calc_mem) (simp_all add: need_defs gas_step_defs)
  ultimately show ?thesis by simp
qed

lemma calc_MSTORE8:
  assumes f: "frameok f" and b: "baseCheck MSTORE8 (f_stack f) = Inr g"
  shows "calc_good f MSTORE8 (calculateGasAndSize f MSTORE8)"
proof -
  note base = base_len [OF f b]
  have len: "2 \<le> length (f_stack f)" using base(1) by (simp add: base_room_def base_req_def)
  then have ne: "f_stack f \<noteq> []" by auto
  have "calculateGasAndSize f MSTORE8 = mem_branch f (g) (f_stack f ! 0) (1)"
    using b len ne by (simp add: calculateGasAndSize_def Let_def)
  moreover have "calc_good f MSTORE8 (mem_branch f (g) (f_stack f ! 0) (1))"
    using len ne base f nth_nonneg [OF f] toWordSize_nonneg frameok_gasTable [OF f]
    by (intro calc_mem) (simp_all add: need_defs gas_step_defs)
  ultimately show ?thesis by simp
qed

lemma calc_MSTORE:
  assumes f: "frameok f" and b: "baseCheck MSTORE (f_stack f) = Inr g"
  shows "calc_good f MSTORE (calculateGasAndSize f MSTORE)"
proof -
  note base = base_len [OF f b]
  have len: "2 \<le> length (f_stack f)" using base(1) by (simp add: base_room_def base_req_def)
  then have ne: "f_stack f \<noteq> []" by auto
  have "calculateGasAndSize f MSTORE = mem_branch f (g) (f_stack f ! 0) (32)"
    using b len ne by (simp add: calculateGasAndSize_def Let_def)
  moreover have "calc_good f MSTORE (mem_branch f (g) (f_stack f ! 0) (32))"
    using len ne base f nth_nonneg [OF f] toWordSize_nonneg frameok_gasTable [OF f]
    by (intro calc_mem) (simp_all add: need_defs gas_step_defs)
  ultimately show ?thesis by simp
qed

lemma calc_SHA3:
  assumes f: "frameok f" and b: "baseCheck SHA3 (f_stack f) = Inr g"
  shows "calc_good f SHA3 (calculateGasAndSize f SHA3)"
proof -
  note base = base_len [OF f b]
  have len: "2 \<le> length (f_stack f)" using base(1) by (simp add: base_room_def base_req_def)
  then have ne: "f_stack f \<noteq> []" by auto
  have "calculateGasAndSize f SHA3 = mem_branch f (g + toWordSize (f_stack f ! 1) * 6) (f_stack f ! 0) (f_stack f ! 1)"
    using b len ne by (simp add: calculateGasAndSize_def Let_def)
  moreover have "calc_good f SHA3 (mem_branch f (g + toWordSize (f_stack f ! 1) * 6) (f_stack f ! 0) (f_stack f ! 1))"
    using len ne base f nth_nonneg [OF f] toWordSize_nonneg frameok_gasTable [OF f]
    by (intro calc_mem) (simp_all add: need_defs gas_step_defs)
  ultimately show ?thesis by simp
qed

lemma calc_CALLDATACOPY:
  assumes f: "frameok f" and b: "baseCheck CALLDATACOPY (f_stack f) = Inr g"
  shows "calc_good f CALLDATACOPY (calculateGasAndSize f CALLDATACOPY)"
proof -
  note base = base_len [OF f b]
  have len: "3 \<le> length (f_stack f)" using base(1) by (simp add: base_room_def base_req_def)
  then have ne: "f_stack f \<noteq> []" by auto
  have "calculateGasAndSize f CALLDATACOPY = mem_branch f (g + toWordSize (f_stack f ! 2) * 3) (f_stack f ! 0) (f_stack f ! 2)"
    using b len ne by (simp add: calculateGasAndSize_def Let_def)
  moreover have "calc_good f CALLDATACOPY (mem_branch f (g + toWordSize (f_stack f ! 2) * 3) (f_stack f ! 0) (f_stack f ! 2))"
    using len ne base f nth_nonneg [OF f] toWordSize_nonneg frameok_gasTable [OF f]
    by (intro calc_mem) (simp_all add: need_defs gas_step_defs)
  ultimately show ?thesis by simp
qed

lemma calc_CODECOPY:
  assumes f: "frameok f" and b: "baseCheck CODECOPY (f_stack f) = Inr g"
  shows "calc_good f CODECOPY (calculateGasAndSize f CODECOPY)"
proof -
  note base = base_len [OF f b]
  have len: "3 \<le> length (f_stack f)" using base(1) by (simp add: base_room_def base_req_def)
  then have ne: "f_stack f \<noteq> []" by auto
  have "calculateGasAndSize f CODECOPY = mem_branch f (g + toWordSize (f_stack f ! 2) * 3) (f_stack f ! 0) (f_stack f ! 2)"
    using b len ne by (simp add: calculateGasAndSize_def Let_def)
  moreover have "calc_good f CODECOPY (mem_branch f (g + toWordSize (f_stack f ! 2) * 3) (f_stack f ! 0) (f_stack f ! 2))"
    using len ne base f nth_nonneg [OF f] toWordSize_nonneg frameok_gasTable [OF f]
    by (intro calc_mem) (simp_all add: need_defs gas_step_defs)
  ultimately show ?thesis by simp
qed

lemma calc_RETURNDATACOPY:
  assumes f: "frameok f" and b: "baseCheck RETURNDATACOPY (f_stack f) = Inr g"
  shows "calc_good f RETURNDATACOPY (calculateGasAndSize f RETURNDATACOPY)"
proof -
  note base = base_len [OF f b]
  have len: "3 \<le> length (f_stack f)" using base(1) by (simp add: base_room_def base_req_def)
  then have ne: "f_stack f \<noteq> []" by auto
  have "calculateGasAndSize f RETURNDATACOPY = mem_branch f (g + GasFastestStep + toWordSize (f_stack f ! 2) * 3) (f_stack f ! 0) (f_stack f ! 2)"
    using b len ne by (simp add: calculateGasAndSize_def Let_def)
  moreover have "calc_good f RETURNDATACOPY (mem_branch f (g + GasFastestStep + toWordSize (f_stack f ! 2) * 3) (f_stack f ! 0) (f_stack f ! 2))"
    using len ne base f nth_nonneg [OF f] toWordSize_nonneg frameok_gasTable [OF f]
    by (intro calc_mem) (simp_all add: need_defs gas_step_defs)
  ultimately show ?thesis by simp
qed

lemma calc_EXTCODECOPY:
  assumes f: "frameok f" and b: "baseCheck EXTCODECOPY (f_stack f) = Inr g"
  shows "calc_good f EXTCODECOPY (calculateGasAndSize f EXTCODECOPY)"
proof -
  note base = base_len [OF f b]
  have len: "4 \<le> length (f_stack f)" using base(1) by (simp add: base_room_def base_req_def)
  then have ne: "f_stack f \<noteq> []" and words: "0 \<le> toWordSize (f_stack f ! 3)"
    using nth_nonneg [OF f] by (auto intro: toWordSize_nonneg)
  have "calculateGasAndSize f EXTCODECOPY = mem_branch f (ExtcodeCopy (evm_gasTable (f_env f)) + toWordSize (f_stack f ! 3) * 3) (f_stack f ! 1) (f_stack f ! 3)"
    using b len ne by (simp add: calculateGasAndSize_def Let_def)
  moreover have "calc_good f EXTCODECOPY (mem_branch f (ExtcodeCopy (evm_gasTable (f_env f)) + toWordSize (f_stack f ! 3) * 3) (f_stack f ! 1) (f_stack f ! 3))"
    using len ne base f nth_nonneg [OF f] words frameok_gasTable [OF f]
    by (intro calc_mem) (simp_all add: need_defs gas_step_defs)
  ultimately show ?thesis by simp
qed

lemma calc_CREATE:
  assumes f: "frameok f" and b: "baseCheck CREATE (f_stack f) = Inr g"
  shows "calc_good f CREATE (calculateGasAndSize f CREATE)"
proof -
  note base = base_len [OF f b]
  have len: "3 \<le> length (f_stack f)" using base(1) by (simp add: base_room_def base_req_def)
  then have ne: "f_stack f \<noteq> []" by auto
  have "calculateGasAndSize f CREATE = mem_branch f (g) (f_stack f ! 1) (f_stack f ! 2)"
    using b len ne by (simp add: calculateGasAndSize_def Let_def)
  moreover have "calc_good f CREATE (mem_branch f (g) (f_stack f ! 1) (f_stack f ! 2))"
    using len ne base f nth_nonneg [OF f] toWordSize_nonneg frameok_gasTable [OF f]
    by (intro calc_mem) (simp_all add: need_defs gas_step_defs)
  ultimately show ?thesis by simp
qed

lemma calc_LOGn:
  assumes f: "frameok f" and b: "baseCheck (LOGn n) (f_stack f) = Inr g"
  shows "calc_good f (LOGn n) (calculateGasAndSize f (LOGn n))"
proof (cases "length (f_stack f) < n + 2")
  case True
  with b show ?thesis by (simp add: calculateGasAndSize_def stack_require_def calc_error [OF f])
next
  case False
  note base = base_len [OF f b]
  from False have len: "n + 2 \<le> length (f_stack f)" by simp
  then have ne: "f_stack f \<noteq> []" "1 < length (f_stack f)" by auto
  have nn: "0 \<le> f_stack f ! 0" "0 \<le> f_stack f ! 1" using nth_nonneg [OF f] ne by auto
  let ?gas = "g + 375 + int n * 375 + f_stack f ! 1 * 8"
  have "calculateGasAndSize f (LOGn n) = mem_branch f ?gas (f_stack f ! 0) (f_stack f ! 1)"
    using b len ne by (simp add: calculateGasAndSize_def stack_require_def Let_def)
  moreover have "calc_good f (LOGn n) (mem_branch f ?gas (f_stack f ! 0) (f_stack f ! 1))"
    using len base f nn by (intro calc_mem) (simp_all add: need_defs)
  ultimately show ?thesis by simp
qed

lemma calc_SWAPn:
  assumes f: "frameok f" and b: "baseCheck (SWAPn k) (f_stack f) = Inr g"
  shows "calc_good f (SWAPn k) (calculateGasAndSize f (SWAPn k))"
proof (cases "length (f_stack f) < k + 1")
  case True
  with b show ?thesis by (simp add: calculateGasAndSize_def stack_require_def calc_error [OF f])
next
  case False
  then have "calculateGasAndSize f (SWAPn k) = Some (Inr (0, GasFastestStep), f)"
    using b by (simp add: calculateGasAndSize_def stack_require_def)
  with False f base_len [OF f b] show ?thesis
    by (auto intro!: calc_plain env_step_refl frameokD simp: mem_need_def passes_def op_pops_def
        min_price_def free_op_def gas_step_defs)
qed

lemma calc_DUPn:
  assumes f: "frameok f" and b: "baseCheck (DUPn k) (f_stack f) = Inr g"
  shows "calc_good f (DUPn k) (calculateGasAndSize f (DUPn k))"
proof (cases "length (f_stack f) < k")
  case True
  with b show ?thesis by (simp add: calculateGasAndSize_def stack_require_def calc_error [OF f])
next
  case False
  then have "calculateGasAndSize f (DUPn k) = Some (Inr (0, GasFastestStep), f)"
    using b by (simp add: calculateGasAndSize_def stack_require_def)
  with False f base_len [OF f b] show ?thesis
    by (auto intro!: calc_plain env_step_refl frameokD simp: mem_need_def passes_def op_pops_def
        min_price_def free_op_def base_req_def gas_step_defs)
qed

lemma calc_EXP:
  assumes f: "frameok f" and b: "baseCheck EXP (f_stack f) = Inr g"
  shows "calc_good f EXP (calculateGasAndSize f EXP)"
proof -
  note base = base_len [OF f b]
  have len: "2 \<le> length (f_stack f)" using base(1) by (simp add: base_room_def base_req_def)
  have "0 \<le> int (length (big_Bytes (f_stack f ! 1))) * ExpByte (evm_gasTable (f_env f))"
    using frameok_gasTable [OF f] by simp
  moreover have "calculateGasAndSize f EXP =
      Some (Inr (0, g + int (length (big_Bytes (f_stack f ! 1))) * ExpByte (evm_gasTable (f_env f))), f)"
    using b len by (simp add: calculateGasAndSize_def Let_def)
  ultimately show ?thesis
    using len base f
    by (auto intro!: calc_plain env_step_refl frameokD simp: mem_need_def passes_def op_pops_def
        min_price_def free_op_def base_req_def gas_step_defs)
qed

lemma calc_reads:
  assumes f: "frameok f" and b: "baseCheck op (f_stack f) = Inr g" and op: "op \<in> {EXTCODESIZE, BALANCE, SLOAD}"
  shows "calc_good f op (calculateGasAndSize f op)"
proof -
  from op obtain cost where cost: "calculateGasAndSize f op = Some (Inr (0, cost), f)" "1 \<le> cost"
    using b frameok_gasTable [OF f] by (auto simp: calculateGasAndSize_def)
  have "op_pops op \<le> length (f_stack f)" "mem_need op (f_stack f) = []" "passes op (f_stack f) = 0" "op \<noteq> CALL"
      "min_price op = 1"
    using op base_len(1) [OF f b] by (auto simp: need_defs)
  with cost f base_len(1) [OF f b] show ?thesis
    by (simp add: calc_plain env_step_refl frameokD)
qed

section \<open>Prices that depend on the state\<close>

definition reads :: "'d \<Rightarrow> 'd \<Rightarrow> bool" where
  "reads d d' \<longleftrightarrow> dinv d' \<and> ext d d' \<and> view d' = view d"

lemma reads_refl: "dinv d \<Longrightarrow> reads d d"
  by (simp add: reads_def ext_refl)

lemma reads_trans: "reads d1 d2 \<Longrightarrow> reads d2 d3 \<Longrightarrow> reads d1 d3"
  by (auto simp: reads_def intro: ext_trans)

lemma readsD:
  "dinv d \<Longrightarrow> db_GetBalance ops d a = (v, d') \<Longrightarrow> reads d d'"
  "dinv d \<Longrightarrow> db_Empty ops d a = (b, d') \<Longrightarrow> reads d d'"
  "dinv d \<Longrightarrow> db_Exist ops d a = (b, d') \<Longrightarrow> reads d d'"
  "dinv d \<Longrightarrow> db_HasSuicided ops d a = (b, d') \<Longrightarrow> reads d d'"
  "dinv d \<Longrightarrow> db_GetState ops d a k = (x, d') \<Longrightarrow> reads d d'"
  unfolding reads_def by (blast dest: GetBalance Empty Exist HasSuicided GetState)+

lemma reads_step:
  assumes "frameok f" "reads (f_db f) d'"
  shows "env_step (f_env f) ((f_env f)\<lparr>env_Db := d'\<rparr>)"
  using assms frameokD [OF assms(1)] by (intro env_step_db) (auto simp: reads_def R_refl)

lemma refund_step:
  assumes "frameok f" "reads (f_db f) d1" "0 \<le> v"
  shows "env_step (f_env f) ((f_env f)\<lparr>env_Db := db_AddRefund ops d1 v\<rparr>)"
proof -
  from assms(2) have d1: "dinv d1" "ext (f_db f) d1" "view d1 = view (f_db f)" by (auto simp: reads_def)
  note r = AddRefund [OF d1(1) refl, of v]
  have "world_ok keccak (w_AddRefund (view (f_db f)) v)"
    by (rule world_ok_setters(1) [OF frameokD(8) [OF assms(1)] fresh(1,2)])
  with r d1 assms(1,3) show ?thesis
    by (intro env_step_db) (auto simp: frameokD R_AddRefund intro: ext_trans)
qed

lemma suicide_price_ok:
  assumes f: "frameok f" and g: "0 \<le> g" and s: "suicide_price f g a = (g', d')"
  shows "0 \<le> g' \<and> reads (f_db f) d'"
proof (cases "CreateBySuicide (evm_gasTable (f_env f))")
  case None
  with s g frameokD(7) [OF f] show ?thesis by (auto simp: suicide_price_def intro: reads_refl)
next
  case (Some create)
  have c: "0 \<le> create" "0 \<le> SuicideGas (evm_gasTable (f_env f))"
    using f Some by (auto simp: frame_ok_def env_ok_def gasTable_ok_def)
  obtain e d1 where e: "db_Empty ops (f_db f) a = (e, d1)" by fastforce
  obtain x d2 where x: "db_Exist ops (f_db f) a = (x, d2)" by fastforce
  obtain v d3 where v: "db_GetBalance ops d1 (f_Address f) = (v, d3)" by fastforce
  note r = readsD(2) [OF frameokD(7) [OF f] e] readsD(3) [OF frameokD(7) [OF f] x]
  moreover from r(1) have "reads (f_db f) d3" using readsD(1) [OF _ v] by (auto simp: reads_def intro: ext_trans)
  ultimately show ?thesis
    using s Some c e x v by (auto simp: suicide_price_def Let_def frameokD(9) [OF f] split: if_splits)
qed

lemma suicide_gas_ok:
  assumes f: "frameok f" and g: "0 \<le> g" and s: "suicide_gas f g a = (g', d')"
  shows "0 \<le> g'" "env_step (f_env f) ((f_env f)\<lparr>env_Db := d'\<rparr>)"
proof -
  obtain g1 d1 where 1: "suicide_price f g a = (g1, d1)" by fastforce
  note ok = suicide_price_ok [OF f g 1]
  obtain dead d2 where 2: "db_HasSuicided ops d1 (f_Address f) = (dead, d2)" by fastforce
  have r: "reads (f_db f) d2" using ok readsD(4) [OF _ 2] reads_trans by (auto simp: reads_def intro: ext_trans)
  have "g' = g1" "d' = (if \<not> dead then db_AddRefund ops d2 24000 else d2)"
    using s 1 2 by (auto simp: suicide_gas_def frameokD(9) [OF f])
  with ok reads_step [OF f r] refund_step [OF f r] show "0 \<le> g'" "env_step (f_env f) ((f_env f)\<lparr>env_Db := d'\<rparr>)"
    by auto
qed

lemma calc_SUICIDE:
  assumes f: "frameok f" and b: "baseCheck SUICIDE (f_stack f) = Inr g"
  shows "calc_good f SUICIDE (calculateGasAndSize f SUICIDE)"
proof -
  note base = base_len [OF f b]
  have len: "1 \<le> length (f_stack f)" using base(1) by (simp add: base_room_def base_req_def)
  then have ne: "f_stack f \<noteq> []" by auto
  obtain g' d' where s: "suicide_gas f g (BigToAddress (f_stack f ! 0)) = (g', d')" by fastforce
  have "0 \<le> g" using base(2) by (simp add: base_req_def)
  note ok = suicide_gas_ok [OF f this s]
  have "calculateGasAndSize f SUICIDE = Some (Inr (0, g'), set_db f d')"
    using b ne s by (simp add: calculateGasAndSize_def Let_def)
  with ok f base len show ?thesis
    by (auto intro!: calc_plain simp: mem_need_def passes_def op_pops_def min_price_def free_op_def base_req_def)
qed

lemma sstore_gas_ok:
  assumes f: "frameok f" and s: "sstore_gas f x y = (g, d')"
  shows "5000 \<le> g" "env_step (f_env f) ((f_env f)\<lparr>env_Db := d'\<rparr>)"
proof -
  obtain v d1 where 1: "db_GetState ops (f_db f) (f_Address f) (BigToHash x) = (v, d1)" by fastforce
  have r: "reads (f_db f) d1" by (rule readsD(5) [OF frameokD(7) [OF f] 1])
  from s 1 have "5000 \<le> g \<and> (d' = d1 \<or> d' = db_AddRefund ops d1 15000)"
    by (auto simp: sstore_gas_def frameokD(9) [OF f] split: if_splits)
  with reads_step [OF f r] refund_step [OF f r] show "5000 \<le> g" "env_step (f_env f) ((f_env f)\<lparr>env_Db := d'\<rparr>)"
    by auto
qed

lemma calc_SSTORE:
  assumes f: "frameok f" and b: "baseCheck SSTORE (f_stack f) = Inr g"
  shows "calc_good f SSTORE (calculateGasAndSize f SSTORE)"
proof -
  note base = base_len [OF f b]
  have len: "2 \<le> length (f_stack f)" using base(1) by (simp add: base_room_def base_req_def)
  then have ne: "f_stack f \<noteq> []" by auto
  obtain g' d' where s: "sstore_gas f (f_stack f ! 0) (f_stack f ! 1) = (g', d')" by fastforce
  note ok = sstore_gas_ok [OF f s]
  have "calculateGasAndSize f SSTORE = Some (Inr (0, g'), set_db f d')"
    using b ne len s by (simp add: calculateGasAndSize_def stack_require_def Let_def)
  with ok f base len show ?thesis
    by (auto intro!: calc_plain simp: mem_need_def passes_def op_pops_def min_price_def free_op_def base_req_def)
qed

section \<open>Calls\<close>

lemma callGas_nonneg:
  assumes "base + callGas gt G base cc \<le> G" "0 \<le> cc"
  shows "0 \<le> callGas gt G base cc"
proof (cases "CreateBySuicide gt")
  case (Some c)
  have "0 \<le> (G - base) - (G - base) div 64" if "0 \<le> (G - base) div 64"
    using that div_mult_mod_eq [of "G - base" 64] pos_mod_sign [of 64 "G - base"] by linarith
  with Some assms show ?thesis by (auto simp: callGas_def big_Div_def Let_def split: if_splits)
qed (use assms in \<open>simp add: callGas_def\<close>)

lemma call_gas_ok:
  assumes f: "frameok f" and c: "call_gas f op gas addr v = (g', d')"
  shows "gas + (if v = 0 then 0 else 9000) \<le> g'" "reads (f_db f) d'"
proof -
  obtain e d1 where e: "db_Empty ops (f_db f) (BigToAddress addr) = (e, d1)" by fastforce
  obtain x d2 where x: "db_Exist ops (f_db f) (BigToAddress addr) = (x, d2)" by fastforce
  note r = readsD(2) [OF frameokD(7) [OF f] e] readsD(3) [OF frameokD(7) [OF f] x] reads_refl [OF frameokD(7) [OF f]]
  from c e x r show "gas + (if v = 0 then 0 else 9000) \<le> g'" "reads (f_db f) d'"
    by (auto simp: call_gas_def Let_def frameokD(9) [OF f] split: if_splits)
qed

lemma call_mem_gas_good:
  assumes f: "frameok f" "reads (f_db f) d'"
    and len: "6 \<le> length (f_stack f)" "op = CALL \<longrightarrow> 7 \<le> length (f_stack f)"
      "op_pops op \<le> length (f_stack f)" "base_room op (length (f_stack f))"
    and nn: "0 \<le> outOff" "0 \<le> outSize" "0 \<le> inOff" "0 \<le> inSize"
    and need: "\<And>cg. mem_need op (cg # tl (f_stack f)) = [(inOff, inSize), (outOff, outSize)]"
    and pas: "\<And>cg. passes op (cg # tl (f_stack f)) \<le> cg + stip" "1 + stip \<le> gas" and fr: "\<not> free_op op"
  shows "calc_good f op (call_mem_gas (set_db f d') gas outOff outSize inOff inSize)"
proof -
  obtain w where w: "length (f_memory f) = 32 * w" by (rule frameok_words [OF f(1)])
  let ?x = "calcMemSize outOff outSize" and ?y = "calcMemSize inOff inSize"
  obtain n g1 where q: "quadMemGas (f_memory f) (BigMax ?x ?y) gas = (n, g1)" by fastforce
  have xy: "0 \<le> BigMax ?x ?y" "outSize = 0 \<or> outOff + outSize \<le> BigMax ?x ?y" "inSize = 0 \<or> inOff + inSize \<le> BigMax ?x ?y"
    using nn by (auto simp: BigMax_max calcMemSize_def)
  note spec = quadMemGas_spec [OF q xy(1) w]
  from len(1) obtain t st where st: "f_stack f = t # st" by (cases "f_stack f") auto
  define cg where "cg = callGas (evm_gasTable (f_env f)) (Gas (f_contract f)) g1 t"
  let ?f1 = "set_stack (set_db f d') (cg # st)"
  have r: "call_mem_gas (set_db f d') gas outOff outSize inOff inSize = Some (Inr (n, g1 + cg), ?f1)"
    using q st by (simp add: call_mem_gas_def Let_def cg_def)
  have t: "0 \<le> t" "list_all (\<lambda>x. 0 \<le> x) st" using f(1) st by (auto simp: frame_ok_def)
  have "charged f op ?f1 n (g1 + cg)" if le: "g1 + cg \<le> Gas (f_contract f)"
  proof -
    have "0 \<le> cg" using callGas_nonneg [OF le [unfolded cg_def] t(1)] by (simp add: cg_def)
    moreover have "passes op (cg # st) \<le> cg + stip" using pas(1) [of cg] st by simp
    moreover have "mem_need op (cg # st) = [(inOff, inSize), (outOff, outSize)]" using need [of cg] st by simp
    ultimately show ?thesis
      using spec xy t st len(3,4) pas(2) w fr by (auto simp: charged_def min_price_def)
  qed
  with r reads_step [OF f] len(2) st show ?thesis by (auto simp: calc_good_def)
qed

lemma calc_CALL:
  assumes f: "frameok f" and b: "baseCheck CALL (f_stack f) = Inr g"
  shows "calc_good f CALL (calculateGasAndSize f CALL)"
proof -
  note base = base_len [OF f b]
  have len: "7 \<le> length (f_stack f)" using base(1) by (simp add: base_room_def base_req_def)
  obtain g' d' where c: "call_gas f CALL (Calls (evm_gasTable (f_env f))) (f_stack f ! 1) (f_stack f ! 2) = (g', d')"
    by fastforce
  note ok = call_gas_ok [OF f c]
  have "calculateGasAndSize f CALL = call_mem_gas (set_db f d') g' (f_stack f ! 5) (f_stack f ! 6) (f_stack f ! 3) (f_stack f ! 4)"
    using b len c by (simp add: calculateGasAndSize_def Let_def)
  moreover have "calc_good f CALL (call_mem_gas (set_db f d') g' (f_stack f ! 5) (f_stack f ! 6) (f_stack f ! 3) (f_stack f ! 4))"
    by (rule call_mem_gas_good [OF f ok(2), where stip = "if U256 (f_stack f ! 2) = 0 then 0 else callStipend"])
      (use len base(1) ok(1) nth_nonneg [OF f] frameok_gasTable [OF f] U256_id [of 0] in
        \<open>auto simp: need_defs nth_Cons' nth_tl numeral_2_eq_2 [symmetric] callStipend_def split: if_splits\<close>)
  ultimately show ?thesis by simp
qed

lemma calc_CALLCODE:
  assumes f: "frameok f" and b: "baseCheck CALLCODE (f_stack f) = Inr g"
  shows "calc_good f CALLCODE (calculateGasAndSize f CALLCODE)"
proof -
  note base = base_len [OF f b]
  have len: "7 \<le> length (f_stack f)" using base(1) by (simp add: base_room_def base_req_def)
  obtain g' d' where c: "call_gas f CALLCODE (Calls (evm_gasTable (f_env f))) (f_stack f ! 1) (f_stack f ! 2) = (g', d')"
    by fastforce
  note ok = call_gas_ok [OF f c]
  have "calculateGasAndSize f CALLCODE = call_mem_gas (set_db f d') g' (f_stack f ! 5) (f_stack f ! 6) (f_stack f ! 3) (f_stack f ! 4)"
    using b len c by (simp add: calculateGasAndSize_def Let_def)
  moreover have "calc_good f CALLCODE (call_mem_gas (set_db f d') g' (f_stack f ! 5) (f_stack f ! 6) (f_stack f ! 3) (f_stack f ! 4))"
    by (rule call_mem_gas_good [OF f ok(2), where stip = "if U256 (f_stack f ! 2) = 0 then 0 else callStipend"])
      (use len base(1) ok(1) nth_nonneg [OF f] frameok_gasTable [OF f] U256_id [of 0] in
        \<open>auto simp: need_defs nth_Cons' nth_tl numeral_2_eq_2 [symmetric] callStipend_def split: if_splits\<close>)
  ultimately show ?thesis by simp
qed

lemma calc_DELEGATECALL:
  assumes f: "frameok f" and b: "baseCheck DELEGATECALL (f_stack f) = Inr g"
  shows "calc_good f DELEGATECALL (calculateGasAndSize f DELEGATECALL)"
proof -
  note base = base_len [OF f b]
  have len: "6 \<le> length (f_stack f)" using base(1) by (simp add: base_room_def base_req_def)
  have "calculateGasAndSize f DELEGATECALL =
      call_mem_gas (set_db f (f_db f)) (Calls (evm_gasTable (f_env f))) (f_stack f ! 4) (f_stack f ! 5) (f_stack f ! 2) (f_stack f ! 3)"
    using b len by (simp add: calculateGasAndSize_def Let_def)
  moreover have "calc_good f DELEGATECALL
      (call_mem_gas (set_db f (f_db f)) (Calls (evm_gasTable (f_env f))) (f_stack f ! 4) (f_stack f ! 5) (f_stack f ! 2) (f_stack f ! 3))"
    by (rule call_mem_gas_good [OF f reads_refl [OF frameokD(7) [OF f]], where stip = 0])
      (use len base(1) nth_nonneg [OF f] frameok_gasTable [OF f] in
        \<open>auto simp: need_defs nth_Cons' nth_tl numeral_2_eq_2 [symmetric] split: if_splits\<close>)
  ultimately show ?thesis by simp
qed

lemma calc_STATICCALL:
  assumes f: "frameok f" and b: "baseCheck STATICCALL (f_stack f) = Inr g"
  shows "calc_good f STATICCALL (calculateGasAndSize f STATICCALL)"
proof -
  note base = base_len [OF f b]
  have len: "6 \<le> length (f_stack f)" using base(1) by (simp add: base_room_def base_req_def)
  have "calculateGasAndSize f STATICCALL =
      call_mem_gas (set_db f (f_db f)) (Calls (evm_gasTable (f_env f))) (f_stack f ! 4) (f_stack f ! 5) (f_stack f ! 2) (f_stack f ! 3)"
    using b len by (simp add: calculateGasAndSize_def Let_def)
  moreover have "calc_good f STATICCALL
      (call_mem_gas (set_db f (f_db f)) (Calls (evm_gasTable (f_env f))) (f_stack f ! 4) (f_stack f ! 5) (f_stack f ! 2) (f_stack f ! 3))"
    by (rule call_mem_gas_good [OF f reads_refl [OF frameokD(7) [OF f]], where stip = 0])
      (use len base(1) nth_nonneg [OF f] frameok_gasTable [OF f] in
        \<open>auto simp: need_defs nth_Cons' nth_tl numeral_2_eq_2 [symmetric] split: if_splits\<close>)
  ultimately show ?thesis by simp
qed

theorem calculateGasAndSize_good:
  assumes f: "frameok f"
  shows "calc_good f op (calculateGasAndSize f op)"
proof (cases "baseCheck op (f_stack f)")
  case (Inl e)
  then show ?thesis by (rule calc_baseCheck_Inl [OF f])
next
  case (Inr g)
  note rules = calc_static calc_REVERT calc_RETURN calc_MLOAD calc_MSTORE8 calc_MSTORE calc_SHA3 calc_CALLDATACOPY
    calc_CODECOPY calc_RETURNDATACOPY calc_EXTCODECOPY calc_CREATE calc_LOGn calc_SWAPn calc_DUPn calc_EXP
    calc_reads calc_SUICIDE calc_SSTORE calc_CALL calc_CALLCODE calc_DELEGATECALL calc_STATICCALL
  show ?thesis using Inr by (cases op) (auto intro: rules [OF f])
qed

end

end
