(* ===== verification/Vm_Run.thy ===== *)
theory Vm_Run
  imports Vm_Charge
begin

text \<open>
  From one instruction to whole runs. An iteration of the interpreter loop is total and either stops
  or continues with less gas; the five kinds of call are total when the machine is; so by induction on
  the gas the interpreter returns for every well-formed contract, with one more unit of fuel than the
  contract has gas.
\<close>

context evm_world
begin

section \<open>Executing an instruction\<close>

definition exec_ok :: "int \<Rightarrow> 'd frame \<Rightarrow> OpCode \<Rightarrow> bool" where
  "exec_ok N f op \<longleftrightarrow> frameok f \<and> op_pops op \<le> length (f_stack f) \<and> base_room op (length (f_stack f)) \<and>
     (\<forall>(off, l) \<in> set (mem_need op (f_stack f)). covered (f_memory f) off l) \<and>
     (\<not> free_op op \<longrightarrow> passes op (f_stack f) < N \<and> passes op (f_stack f) < 2 ^ 63 \<and> Gas (f_contract f) < N) \<and>
     (readonly (f_env f) \<longrightarrow> \<not> writes (newJumpTable (isHardfork2 (f_env f)) op :: 'd jumpPtr) \<and>
        (op = CALL \<longrightarrow> f_stack f ! 2 = 0))"

lemma exec_ok_pre:
  assumes "exec_ok N f op" "base_req op = Some r"
  shows "exec_pre (stackPop r) (stackPush r) f" "frameok f"
  using assms by (auto simp: exec_ok_def base_room_def exec_pre_def)

lemma exec_pre_less: "exec_pre p q f \<Longrightarrow> q' \<le> q \<Longrightarrow> exec_pre p q' f"
  by (auto simp: exec_pre_def)

text \<open>Instructions that need their operands only.\<close>

lemmas plain_good =
  opAdd_good opSub_good opMul_good opDiv_good opSdiv_good opMod_good opSmod_good opExp_good
  opSignExtend_good opNot_good opLt_good opGt_good opSlt_good opSgt_good opEq_good opIszero_good
  opAnd_good opOr_good opXor_good opByte_good opAddmod_good opMulmod_good opAddress_good
  opBalance_good opOrigin_good opCaller_good opCallValue_good opCalldataLoad_good
  opCalldataSize_good opCodeSize_good opExtCodeSize_good opGasprice_good opBlockhash_good
  opCoinbase_good opTimestamp_good opNumber_good opDifficulty_good opGasLimit_good opPop_good
  opSload_good opJumpdest_good opPc_good opMsize_good opGas_good opJump_good opJumpi_good

lemma exec_plain:
  assumes ok: "exec_ok N f op" and v: "valid (newJumpTable (isHardfork2 (f_env f)) op :: 'd jumpPtr)"
    and op: "op \<in> {ADD, SUB, MUL, DIV, SDIV, MOD, SMOD, EXP, SIGNEXTEND, NOT_op, LT, GT, SLT, SGT, EQ, ISZERO,
      AND_op, OR_op, XOR_op, BYTE, ADDMOD, MULMOD, ADDRESS, BALANCE, ORIGIN, CALLER, CALLVALUE,
      CALLDATALOAD, CALLDATASIZE, CODESIZE, EXTCODESIZE, GASPRICE, BLOCKHASH, COINBASE,
      TIMESTAMP, NUMBER, DIFFICULTY, GASLIMIT, POP, SLOAD, JUMPDEST, PC, MSIZE, GAS, JUMP, JUMPI}"
  shows "instr_good 0 f (jp_fn (newJumpTable (isHardfork2 (f_env f)) op) calls f)"
proof -
  obtain r where r: "base_req op = Some r" using op by (elim insertE emptyE) (simp_all add: base_req_def)
  have pre: "exec_pre (stackPop r) (stackPush r) f" by (rule exec_ok_pre [OF ok r])
  show ?thesis
    using op v pre r
    by (elim insertE emptyE; simp add: newJumpTable_def newFrontierInstructionSet_def base_req_def;
        hypsubst?; simp add: plain_good split: if_splits)
qed

text \<open>Instructions that work on memory.\<close>

lemma exec_memory:
  assumes ok: "exec_ok N f op" and v: "valid (newJumpTable (isHardfork2 (f_env f)) op :: 'd jumpPtr)"
    and op: "op \<in> {SHA3, CALLDATACOPY, CODECOPY, EXTCODECOPY, RETURNDATACOPY, MLOAD, MSTORE, MSTORE8, RETURN,
      REVERT}"
  shows "instr_good 0 f (jp_fn (newJumpTable (isHardfork2 (f_env f)) op) calls f)"
proof -
  obtain r where r: "base_req op = Some r" using op by (elim insertE emptyE) (simp_all add: base_req_def)
  have pre: "exec_pre (stackPop r) (stackPush r) f" by (rule exec_ok_pre [OF ok r])
  then have pre0: "exec_pre (stackPop r) 0 f" by (rule exec_pre_less) simp
  have cov: "\<forall>(off, l) \<in> set (mem_need op (f_stack f)). covered (f_memory f) off l"
    using ok by (simp add: exec_ok_def)
  show ?thesis
    using op v pre pre0 r cov
    by (elim insertE emptyE; simp add: newJumpTable_def newFrontierInstructionSet_def base_req_def mem_need_def
        split: if_splits; hypsubst?;
        simp add: opSha3_good opCalldataCopy_good opCodeCopy_good opExtCodeCopy_good opReturnDataCopy_good
          opMload_good opMstore_good opMstore8_good opReturn_good)
qed

text \<open>Calls and creation.\<close>

lemma exec_calls:
  assumes ok: "exec_ok N f op" and v: "valid (newJumpTable (isHardfork2 (f_env f)) op :: 'd jumpPtr)"
    and calls: "calls_ok N calls"
    and op: "op \<in> {CREATE, CALL, CALLCODE, DELEGATECALL, STATICCALL}"
  shows "instr_good (passes op (f_stack f)) f (jp_fn (newJumpTable (isHardfork2 (f_env f)) op) calls f)"
proof -
  obtain r where r: "base_req op = Some r" using op by (elim insertE emptyE) (simp_all add: base_req_def)
  have pre: "exec_pre (stackPop r) (stackPush r) f" by (rule exec_ok_pre [OF ok r])
  have cov: "\<forall>(off, l) \<in> set (mem_need op (f_stack f)). covered (f_memory f) off l"
    using ok by (simp add: exec_ok_def)
  have nf: "\<not> free_op op" using op by (elim insertE emptyE) (simp_all add: free_op_def base_req_def)
  then have gas: "passes op (f_stack f) < N" "passes op (f_stack f) < 2 ^ 63" "Gas (f_contract f) < N"
    using ok by (auto simp: exec_ok_def)
  have ro: "readonly (f_env f) \<Longrightarrow> \<not> writes (newJumpTable (isHardfork2 (f_env f)) op :: 'd jumpPtr)"
      "readonly (f_env f) \<Longrightarrow> op = CALL \<Longrightarrow> f_stack f ! 2 = 0"
    using ok by (auto simp: exec_ok_def)
  consider "op = CREATE" | "op = CALL" | "op = CALLCODE" | "op = DELEGATECALL" | "op = STATICCALL"
    using op by blast
  then show ?thesis
  proof cases
    case 1
    have "\<not> readonly (f_env f)" using ro(1) 1 by (auto simp: newJumpTable_def newFrontierInstructionSet_def)
    with 1 pre r cov gas calls show ?thesis
      by (simp add: newJumpTable_def newFrontierInstructionSet_def base_req_def mem_need_def passes_def)
        (hypsubst?, rule opCreate_good, auto)
  next
    case 2
    then have p: "exec_pre 7 1 f" using pre r by (simp add: base_req_def) (hypsubst, simp)
    have "instr_good (passes op (f_stack f)) f (opCall calls f)"
      using 2 cov gas ro(2) by (intro opCall_good [OF p calls]) (auto simp: mem_need_def passes_def)
    with 2 show ?thesis by (simp add: newJumpTable_def newFrontierInstructionSet_def)
  next
    case 3
    then have p: "exec_pre 7 1 f" using pre r by (simp add: base_req_def) (hypsubst, simp)
    have "instr_good (passes op (f_stack f)) f (opCallCode calls f)"
      using 3 cov gas by (intro opCallCode_good [OF p calls]) (auto simp: mem_need_def passes_def)
    with 3 show ?thesis by (simp add: newJumpTable_def newFrontierInstructionSet_def)
  next
    case 4
    with pre r cov gas calls v show ?thesis
      by (simp add: newJumpTable_def newFrontierInstructionSet_def base_req_def mem_need_def passes_def
          split: if_splits) (hypsubst?, rule delegate_static_good, auto)
  next
    case 5
    with pre r cov gas calls v show ?thesis
      by (simp add: newJumpTable_def newFrontierInstructionSet_def base_req_def mem_need_def passes_def
          split: if_splits) (hypsubst?, rule delegate_static_good, auto)
  qed
qed

text \<open>Instructions with checks of their own, and those that write.\<close>

lemma exec_rest:
  assumes ok: "exec_ok N f op" and v: "valid (newJumpTable (isHardfork2 (f_env f)) op :: 'd jumpPtr)"
    and op: "op \<in> {STOP, SSTORE, SUICIDE, RETURNDATASIZE} \<or> (\<exists>k. op \<in> {LOGn k, SWAPn k, PUSHn k, DUPn k})"
  shows "instr_good 0 f (jp_fn (newJumpTable (isHardfork2 (f_env f)) op) calls f)"
proof -
  have fr: "frameok f" and pops: "op_pops op \<le> length (f_stack f)" and room: "base_room op (length (f_stack f))"
    and cov: "\<forall>(off, l) \<in> set (mem_need op (f_stack f)). covered (f_memory f) off l"
    and ro: "writes (newJumpTable (isHardfork2 (f_env f)) op :: 'd jumpPtr) \<Longrightarrow> \<not> readonly (f_env f)"
    using ok by (auto simp: exec_ok_def)
  have lim: "length (f_stack f) \<le> StackLimit" using fr by (simp add: frame_ok_def)
  show ?thesis
    using op fr pops room cov ro v lim
    by (elim insertE emptyE disjE exE; hypsubst)
      (auto simp: newJumpTable_def newFrontierInstructionSet_def need_defs exec_pre_def
        split: if_splits intro!: opStop_good opSstore_good opSuicide_good opReturnDataSize_good makeLog_good
          makeSwap_good makePush_good makeDup_good)
qed

lemma exec_good:
  assumes ok: "exec_ok N f op" and v: "valid (newJumpTable (isHardfork2 (f_env f)) op :: 'd jumpPtr)"
    and calls: "calls_ok N calls"
  shows "instr_good (passes op (f_stack f)) f (jp_fn (newJumpTable (isHardfork2 (f_env f)) op) calls f)"
proof (cases "op \<in> {CREATE, CALL, CALLCODE, DELEGATECALL, STATICCALL}")
  case True
  then show ?thesis by (rule exec_calls [OF ok v calls])
next
  case False
  then have "passes op (f_stack f) = 0" by (auto simp: passes_def split: OpCode.split)
  moreover have "instr_good 0 f (jp_fn (newJumpTable (isHardfork2 (f_env f)) op) calls f)"
    using exec_plain [OF ok v] exec_memory [OF ok v] exec_rest [OF ok v] False v
    by (cases op) (simp_all add: newJumpTable_def newFrontierInstructionSet_def split: if_splits)
  ultimately show ?thesis by simp
qed

text \<open>An instruction that may be free ends the run.\<close>

lemma free_stops:
  assumes "valid (newJumpTable h op :: 'd jumpPtr)" "free_op op"
  shows "halts (newJumpTable h op :: 'd jumpPtr) \<or> reverts (newJumpTable h op :: 'd jumpPtr)"
  using assms
  by (cases op) (auto simp: newJumpTable_def newFrontierInstructionSet_def free_op_def base_req_def split: if_splits)

section \<open>One iteration of the loop\<close>

text \<open>What a run, or a part of it, that starts with contract \<open>c\<close> may end with.\<close>

definition run_end :: "'d Environment \<Rightarrow> Contract \<Rightarrow> bytes \<Rightarrow> 'd Environment \<Rightarrow> Contract \<Rightarrow> bool" where
  "run_end env c ret env' c' \<longleftrightarrow> small ret \<and> env_step env env' \<and> contract_ok keccak c' \<and> contract_ext c c' \<and>
     Gas c' \<le> Gas c"

definition step_good :: "'d frame \<Rightarrow> 'd step_result outcome option \<Rightarrow> bool" where
  "step_good f r \<longleftrightarrow> (\<exists>s. r = Some (Done s) \<and>
     (case s of
        Continue f' \<Rightarrow> frameok f' \<and> env_step (f_env f) (f_env f') \<and>
          contract_ext (f_contract f) (f_contract f') \<and> Gas (f_contract f') < Gas (f_contract f)
      | Return ret err f' \<Rightarrow> run_end (f_env f) (f_contract f) ret (f_env f') (f_contract f')))"

lemma step_goodD:
  "step_good f r \<Longrightarrow> \<exists>s. r = Some (Done s)"
  "step_good f (Some (Done (Continue f'))) \<Longrightarrow> frameok f' \<and> Gas (f_contract f') < Gas (f_contract f)"
  by (auto simp: step_good_def)

lemma step_stop:
  assumes "frameok f" "env_step (f_env f) (f_env f')" "contract_ok keccak (f_contract f')"
    "contract_ext (f_contract f) (f_contract f')" "Gas (f_contract f') \<le> Gas (f_contract f)"
  shows "step_good f (Some (Done (Return [] err f')))"
  using assms by (simp add: step_good_def run_end_def small_def)

lemma env_step_return_data:
  "env_step env env' \<Longrightarrow> small r \<Longrightarrow> env_step env (env'\<lparr>env_ReturnData := r\<rparr>)"
  by (cases env; cases env') (auto simp: env_step_def env_ok_def same_static_def precompiles_def split: if_splits)

lemma length_mem_Resize: "length (mem_Resize m sz) = max (length m) (unat sz)"
  by (simp add: mem_Resize_def)

lemma passes_nonneg:
  assumes "list_all (\<lambda>x. 0 \<le> x) st" "op_pops op \<le> length st"
  shows "0 \<le> passes op st"
proof -
  have "op_pops op = 0 \<or> 0 \<le> st ! 0" using assms by (cases st) (auto simp: nth_Cons')
  then show ?thesis
    by (cases op) (auto simp: passes_def op_pops_def base_req_def callStipend_def)
qed

lemma mem_need_nonneg:
  assumes st: "list_all (\<lambda>x. 0 \<le> x) st" "op_pops op \<le> length st"
  shows "\<forall>(off, l) \<in> set (mem_need op st). 0 \<le> off \<and> 0 \<le> l"
proof -
  have "i < op_pops op \<Longrightarrow> 0 \<le> st ! i" for i using st by (auto simp: list_all_length)
  then show ?thesis by (cases op) (auto simp: mem_need_def op_pops_def base_req_def)
qed

text \<open>The charge pays for the memory, so its new size is a whole number of words within the bound.\<close>

lemma charged_memory:
  assumes f: "frameok f" and ch: "charged f op f1 n cost" and cost: "cost \<le> Gas (f_contract f)"
  shows "\<exists>w. length (mem_Resize (f_memory f) (big_Uint64 n)) = 32 * w \<and>
    memfee (int w) + (Gas (f_contract f) - cost) + passes op (f_stack f1) + min_price op < 2 ^ 63 \<and>
    passes op (f_stack f1) + min_price op \<le> cost \<and>
    n \<le> int (length (mem_Resize (f_memory f) (big_Uint64 n)))"
proof -
  obtain w where w: "length (f_memory f) = 32 * w" "memfee (int w) + Gas (f_contract f) < 2 ^ 63"
    using f by (auto simp: frame_ok_def mem_ok_def)
  from ch obtain k where k: "n = 32 * int k" by (auto simp: charged_def)
  let ?W = "max (int w) (int k)"
  have le: "memfee ?W - memfee (int w) + passes op (f_stack f1) + min_price op \<le> cost"
    using ch w(1) k by (auto simp: charged_def)
  have grow: "memfee (int w) \<le> memfee ?W" by (rule memfee_mono) auto
  have pos: "0 \<le> passes op (f_stack f1)"
    using ch by (intro passes_nonneg) (auto simp: charged_def)
  have "0 \<le> min_price op" by (simp add: min_price_def)
  with le cost w(2) pos have "memfee ?W < 2 ^ 63" by linarith
  from memfee_bound [OF this] have small: "?W < 2 ^ 36" by simp
  then have "uint (big_Uint64 n) = n" using k by (intro uint_big_Uint64_small) auto
  then have "unat (big_Uint64 n) = 32 * k" using k by (simp add: unat_eq_nat_uint)
  then have len: "length (mem_Resize (f_memory f) (big_Uint64 n)) = 32 * max w k"
    using w(1) by (simp add: length_mem_Resize)
  have "int (max w k) = ?W" by simp
  with le w(2) grow len k show ?thesis by (intro exI [of _ "max w k"]) auto
qed

lemma charged_exec:
  assumes f: "frameok f" and step: "env_step (f_env f) (f_env f1)"
    and f1: "f_contract f1 = f_contract f" "f_memory f1 = f_memory f"
    and ch: "charged f op f1 n cost" and cost: "cost \<le> Gas (f_contract f)"
    and prot: "write_protected f1 op = Some False"
    and f2: "f2 = f1\<lparr>f_contract := (f_contract f)\<lparr>Gas := Gas (f_contract f) - cost, UsedGas := u\<rparr>,
      f_memory := mem_Resize (f_memory f1) (big_Uint64 n)\<rparr>"
  shows "exec_ok (Gas (f_contract f)) f2 op"
proof -
  obtain w where w: "length (f_memory f2) = 32 * w"
    "memfee (int w) + (Gas (f_contract f) - cost) + passes op (f_stack f1) + min_price op < 2 ^ 63"
    "passes op (f_stack f1) + min_price op \<le> cost" "n \<le> int (length (f_memory f2))"
    using charged_memory [OF f ch cost] f1(2) f2 by auto
  have st: "list_all (\<lambda>x. 0 \<le> x) (f_stack f1)" "length (f_stack f1) = length (f_stack f)"
      "op_pops op \<le> length (f_stack f)" "base_room op (length (f_stack f))"
      "\<forall>(off, l) \<in> set (mem_need op (f_stack f1)). l = 0 \<or> off + l \<le> n"
    using ch by (auto simp: charged_def)
  have c: "contract_ok keccak (f_contract f)" by (rule frameokD(11) [OF f])
  have p: "0 \<le> passes op (f_stack f1)"
    using st(1-3) by (intro passes_nonneg) auto
  have m: "0 \<le> min_price op" by (simp add: min_price_def)
  have "frameok f2"
    unfolding frame_ok_def mem_ok_def
    using step st c f2 w p m cost frameokD [OF f] f
    by (auto simp: env_step_def contract_ok_def frame_ok_def)
  moreover have "\<forall>(off, l) \<in> set (mem_need op (f_stack f2)). covered (f_memory f2) off l"
  proof -
    have "\<forall>(off, l) \<in> set (mem_need op (f_stack f1)). 0 \<le> off \<and> 0 \<le> l"
      using st(1-3) by (intro mem_need_nonneg) auto
    with st(5) w(4) f2 show ?thesis by (fastforce simp: covered_def)
  qed
  moreover have "\<not> free_op op \<Longrightarrow> passes op (f_stack f2) < Gas (f_contract f) \<and>
      passes op (f_stack f2) < 2 ^ 63 \<and> Gas (f_contract f2) < Gas (f_contract f)"
    using w(2,3) cost p f2 memfee_nonneg [of "int w"] by (simp add: min_price_def)
  moreover have "readonly (f_env f2) \<Longrightarrow> \<not> writes (newJumpTable (isHardfork2 (f_env f2)) op :: 'd jumpPtr) \<and>
        (op = CALL \<longrightarrow> f_stack f2 ! 2 = 0)"
    using prot f2 st(2,3)
    by (auto simp: write_protected_def op_pops_def base_req_def stack_back_def split: if_splits)
  ultimately show ?thesis using st(2-4) f2 by (simp add: exec_ok_def)
qed

text \<open>The end of an iteration.\<close>

lemma after_instr_good:
  assumes f: "frameok f" and w: "length (f_memory f2) = 32 * w" and ops: "passes op (f_stack f2) \<le> p"
    and fee: "memfee (int w) + Gas (f_contract f2) + p + min_price op < 2 ^ 63"
    and gas: "Gas (f_contract f2) + p + min_price op \<le> Gas (f_contract f)"
    and step: "env_step (f_env f) (f_env f2)" "contract_ext (f_contract f) (f_contract f2)"
    and good: "instr_good p f2 (Some (Done (ret, err, f')))"
    and op: "\<not> free_op op \<or> halts j \<or> reverts j"
  shows "step_good f (Some (Done (after_instr j ret err f')))"
proof -
  have *: "small ret" "env_step (f_env f2) (f_env f')" "contract_ok keccak (f_contract f')"
      "contract_ext (f_contract f2) (f_contract f')" "Gas (f_contract f') \<le> Gas (f_contract f2) + p"
      "list_all (\<lambda>x. 0 \<le> x) (f_stack f')" "length (f_stack f') \<le> StackLimit"
      "length (f_memory f') = length (f_memory f2)"
    using good by (auto simp: instr_good_def)
  define e where "e = (if returns j then (f_env f')\<lparr>env_ReturnData := ret\<rparr> else f_env f')"
  have e: "env_step (f_env f) e"
    unfolding e_def using env_step_trans [OF step(1) *(2)] *(1) by (simp add: env_step_return_data)
  have c: "contract_ext (f_contract f) (f_contract f')" using step(2) *(4) by (rule contract_ext_trans)
  have m: "0 \<le> min_price op" by (simp add: min_price_def)
  have ee: "envok e" using e by (simp add: env_step_def)
  have mem: "mem_ok (f_memory f') (Gas (f_contract f'))"
    unfolding mem_ok_def using w *(5,8) fee m by (intro exI [of _ w]) auto
  have less: "Gas (f_contract f') \<le> Gas (f_contract f)" using *(5) gas m by linarith
  have strict: "\<not> free_op op \<Longrightarrow> Gas (f_contract f') < Gas (f_contract f)"
    using *(5) gas by (simp add: min_price_def)
  have "(if returns j then f'\<lparr>f_env := (f_env f')\<lparr>env_ReturnData := ret\<rparr>\<rparr> else f') = f'\<lparr>f_env := e\<rparr>"
    by (simp add: e_def)
  then have "after_instr j ret err f' =
      (if err \<noteq> None then Return [] err (f'\<lparr>f_env := e\<rparr>)
       else if reverts j then Return ret (Some ErrRevert) (f'\<lparr>f_env := e\<rparr>)
       else if halts j then Return ret None (f'\<lparr>f_env := e\<rparr>)
       else if \<not> jumps j then Continue (f'\<lparr>f_env := e, pc := pc f' + 1\<rparr>)
       else Continue (f'\<lparr>f_env := e\<rparr>))"
    by (simp add: after_instr_def)
  with * e c ee mem less strict op show ?thesis
    by (auto simp: step_good_def run_end_def frame_ok_def small_def)
qed

lemma write_protected_defined:
  assumes "op = CALL \<Longrightarrow> 7 \<le> length (f_stack f)"
  obtains prot where "write_protected f op = Some prot"
  using assms by (cases "write_protected f op") (auto simp: write_protected_def split: if_splits)

text \<open>An iteration whose charge is known.\<close>

lemma evm_step_eq:
  assumes "calculateGasAndSize f op = Some (Inr (n, cost), f1)" "write_protected f1 op = Some prot"
    "UseGas (f_contract f1) cost = (ok, c)" "op = GetOp (f_contract f) (pc f)"
    "j = newJumpTable (isHardfork2 (f_env f)) op"
    "f2 = f1\<lparr>f_contract := c, f_memory := mem_Resize (f_memory f1) (big_Uint64 n)\<rparr>"
  shows "evm_step calls f =
    (if prot then Some (Done (Return [] (Some ErrWriteProtection) f1))
     else if \<not> ok then Some (Done (Return [] (Some OutOfGasError) (f1\<lparr>f_contract := c\<rparr>)))
     else if \<not> valid j then Some (Done (Return [] (Some (InvalidOpcode op)) f2))
     else do { r \<leftarrow> jp_fn j calls f2;
       Some (map_outcome (\<lambda>(res, err, f). after_instr j res err f) r) })"
  using assms by (simp add: evm_step_def Let_def)

lemma step_charged:
  assumes f: "frameok f" and calls: "calls_ok (Gas (f_contract f)) calls"
    and step: "env_step (f_env f) (f_env f1)"
    and f1: "f_contract f1 = f_contract f" "f_memory f1 = f_memory f"
    and ch: "charged f op f1 n cost" and prot: "write_protected f1 op = Some False"
    and use: "UseGas (f_contract f) cost = (True, c)"
    and j: "j = (newJumpTable (isHardfork2 (f_env f)) op :: 'd jumpPtr)"
    and f2: "f2 = f1\<lparr>f_contract := c, f_memory := mem_Resize (f_memory f1) (big_Uint64 n)\<rparr>"
  shows "step_good f
    (if \<not> valid j then Some (Done (Return [] (Some (InvalidOpcode op)) f2))
     else do { r \<leftarrow> jp_fn j calls f2;
       Some (map_outcome (\<lambda>(res, err, f). after_instr j res err f) r) })"
proof -
  have hf: "isHardfork2 (f_env f1) = isHardfork2 (f_env f)"
    using step same_static_fields by (metis env_step_def)
  have c: "cost \<le> Gas (f_contract f)"
      "c = (f_contract f)\<lparr>Gas := Gas (f_contract f) - cost, UsedGas := UsedGas (f_contract f) + cost\<rparr>"
    using UseGas_True [OF use] by simp_all
  have ok: "exec_ok (Gas (f_contract f)) f2 op"
    using prot c(2) f2 by (intro charged_exec [OF f step f1 ch c(1)]) auto
  have cext: "contract_ext (f_contract f) c" using c(2) by (simp add: contract_ext_def)
  obtain w where w: "length (f_memory f2) = 32 * w"
    "memfee (int w) + Gas c + passes op (f_stack f1) + min_price op < 2 ^ 63"
    "passes op (f_stack f1) + min_price op \<le> cost"
    using charged_memory [OF f ch c(1)] f1(2) c(2) f2 by auto
  show ?thesis
  proof (cases "valid j")
    case False
    have "0 \<le> cost" using w(3) passes_nonneg [of "f_stack f1" op] ch
      by (auto simp: charged_def min_price_def split: if_splits)
    with False f step ok cext c f2 show ?thesis
      by (auto intro!: step_stop simp: exec_ok_def frame_ok_def)
  next
    case True
    have "isHardfork2 (f_env f2) = isHardfork2 (f_env f)" using hf f2 by simp
    with exec_good [OF ok _ calls] True f2 j
    have good: "instr_good (passes op (f_stack f1)) f2 (jp_fn j calls f2)" by simp
    then obtain ret err f' where r: "jp_fn j calls f2 = Some (Done (ret, err, f'))"
      by (auto simp: instr_good_def)
    have "step_good f (Some (Done (after_instr j ret err f')))"
      using w step cext c(2) f2 good r True free_stops j
      by (intro after_instr_good [OF f, of f2 w op "passes op (f_stack f1)"]) auto
    with r True show ?thesis by simp
  qed
qed

lemma evm_step_good:
  assumes f: "frameok f" and calls: "calls_ok (Gas (f_contract f)) calls"
  shows "step_good f (evm_step calls f)"
proof -
  define op where "op = GetOp (f_contract f) (pc f)"
  obtain res f1 where calc: "calculateGasAndSize f op = Some (res, f1)" and f1: "f_contract f1 = f_contract f"
      "f_memory f1 = f_memory f" "env_step (f_env f) (f_env f1)"
    and call: "op = CALL \<Longrightarrow> length (f_stack f1) = length (f_stack f) \<and> (isl res \<or> 7 \<le> length (f_stack f))"
    and ch: "case res of Inl e \<Rightarrow> True | Inr (n, cost) \<Rightarrow> cost \<le> Gas (f_contract f) \<longrightarrow> charged f op f1 n cost"
    using calculateGasAndSize_good [OF f, of op] by (auto simp: calc_good_def)
  have stop: "step_good f (Some (Done (Return [] err f1)))" for err
    using f f1 frameokD(11) [OF f] by (intro step_stop) auto
  show ?thesis
  proof (cases res)
    case (Inl e)
    with calc stop show ?thesis by (simp add: evm_step_def op_def)
  next
    case (Inr nc)
    obtain n cost where nc: "nc = (n, cost)" by (cases nc)
    obtain prot where prot: "write_protected f1 op = Some prot"
      by (rule write_protected_defined [of op f1]) (use call Inr in auto)
    obtain ok c where use: "UseGas (f_contract f) cost = (ok, c)" by fastforce
    note eq = evm_step_eq [OF calc [unfolded Inr nc] prot use [folded f1(1)] op_def refl refl, of calls]
    show ?thesis
    proof (cases "prot \<or> \<not> ok")
      case True
      have "\<not> ok \<Longrightarrow> f1\<lparr>f_contract := c\<rparr> = f1" using UseGas_False use f1(1) by force
      with True eq stop show ?thesis by (cases prot) simp_all
    next
      case False
      with use UseGas_True have "cost \<le> Gas (f_contract f)" by fastforce
      with ch Inr nc have "charged f op f1 n cost" by simp
      with False prot use eq show ?thesis
        using step_charged [OF f calls f1(3,1,2)] by simp
    qed
  qed
qed

end

end
