(* ===== verification/Vm_Calls.thy ===== *)
theory Vm_Calls
  imports Vm_Run
begin

text \<open>
  Message calls and creation are total when the interpreter loop is, keep the environment well-formed,
  give back at most the gas they were given, and leave the world as it was when they fail. With this
  the loop itself is total, by induction on the gas.
\<close>

section \<open>Contracts made for a call\<close>

fun ref_ok :: "(bytes \<Rightarrow> hash) \<Rightarrow> ContractRef \<Rightarrow> bool" where
  "ref_ok K (AccountRef a) = True"
| "ref_ok K (ParentRef c) = contract_ok K c"

text \<open>The caller after a call that left \<open>g\<close> gas: a contract gets at most that much back.\<close>

fun ref_step :: "(bytes \<Rightarrow> hash) \<Rightarrow> ContractRef \<Rightarrow> ContractRef \<Rightarrow> int \<Rightarrow> bool" where
  "ref_step K (AccountRef a) r g = (r = AccountRef a)"
| "ref_step K (ParentRef c) r g =
     (case r of
        AccountRef a \<Rightarrow> False
      | ParentRef c' \<Rightarrow> contract_ok K c' \<and> contract_ext c c' \<and> Gas c' \<le> Gas c + g)"

lemma ref_step_return: "ref_ok K r \<Longrightarrow> 0 \<le> g \<Longrightarrow> ref_step K r (Ref_ReturnGas r g) g"
  by (cases r) (auto simp: ReturnGas_def contract_ok_def contract_ext_def)

lemma ref_step_refl: "ref_ok K r \<Longrightarrow> 0 \<le> g \<Longrightarrow> ref_step K r r g"
  by (cases r) auto

lemma ref_step_Finalise:
  assumes "ref_ok K r" "0 \<le> Gas c" "cache_ok K (c_jumpdests c)"
  shows "ref_step K r (Finalise r c) (Gas c)"
  using assms by (cases r) (auto simp: ReturnGas_def contract_ok_def contract_ext_def)

lemma ref_step_Parent:
  "ref_step K (ParentRef c) r g \<Longrightarrow>
     \<exists>c'. r = ParentRef c' \<and> contract_ok K c' \<and> contract_ext c c' \<and> Gas c' \<le> Gas c + g"
  by (cases r) auto

lemma cache_ok_empty [simp]: "cache_ok K Map.empty"
  by (simp add: cache_ok_def)

lemma new_contract_ok:
  assumes "ref_ok K caller" "code_ok K h code" "0 \<le> v" "0 \<le> gas" "0 \<le> price"
  shows "contract_ok K (SetCallCode (NewContract caller addr v gas price) ca h code)"
  using assms by (cases caller) (auto simp: contract_ok_def SetCallCode_def NewContract_def small_def)

lemma UseAllGas_ok:
  assumes "contract_ok K c"
  shows "contract_ok K (UseAllGas c)" "Gas (UseAllGas c) = 0" "c_jumpdests (UseAllGas c) = c_jumpdests c"
  using assms by (auto simp: UseAllGas_def useGas_def contract_ok_def)

lemma precompiles_db [simp]: "precompiles (env\<lparr>env_Db := d\<rparr>) = precompiles env"
  by (simp add: precompiles_def)

section \<open>Balances under the changes a call starts with\<close>

lemma balance_CreateAccount [simp]: "w_balance (w_CreateAccount z w a) b = w_balance w b"
  by (simp add: w_CreateAccount_def w_balance_def split: option.split)

lemma balance_SetNonce [simp]: "a_balance z = 0 \<Longrightarrow> w_balance (w_SetNonce z w a n) b = w_balance w b"
  by (simp add: w_SetNonce_def w_upd_def w_get_def w_balance_def split: option.split)

lemma exists_CreateAccount [simp]: "w_exists (w_CreateAccount z w a) b \<longleftrightarrow> b = a \<or> w_exists w b"
  by (simp add: w_CreateAccount_def w_exists_def)

lemma exists_SetNonce [simp]: "w_exists (w_SetNonce z w a n) b \<longleftrightarrow> b = a \<or> w_exists w b"
  by (simp add: w_SetNonce_def w_upd_def w_exists_def)

text \<open>The three ways a creation ends: the code is stored, everything is kept, or everything is taken back.\<close>

lemma end_create_cases:
  assumes use: "UseGas c (int (length ret) * CreateDataGas) = (ok, c2)"
    and rev: "db_RevertToSnapshot (env_Ops env) (env_Db env) sid = Some d3"
    and ends: "\<And>ret' err' env' c'. ret' \<in> {ret, []} \<Longrightarrow>
      err' = None \<and> env' = env\<lparr>env_Db := db_SetCode (env_Ops env) (env_Db env) a ret\<rparr> \<and> c' = c2 \<or>
      err' \<noteq> None \<and> \<not> isHomestead env \<and> env' = env \<and> c' = c \<or>
      err' \<noteq> None \<and> env' = env\<lparr>env_Db := d3\<rparr> \<and> c' \<in> {c, UseAllGas c} \<Longrightarrow>
      P (Some (Done (ret', a, err', env', Finalise caller c', Gas c')))"
  shows "P (end_create caller a sid (Done (ret, err, env, c)))"
proof -
  let ?mx = "length ret > maxCodeSize \<and> isHardfork2 env"
  let ?all = "\<lambda>ret' err' c'. Some (Done (ret', a, err', env\<lparr>env_Db := d3\<rparr>, Finalise caller c', Gas c'))"
  have revert: "P (?all [] (Some e) (UseAllGas c))" "P (?all ret (Some e) c)" for e
    by (intro ends; simp)+
  have keep: "P (Some (Done ([], a, Some e, env, Finalise caller c, Gas c)))" if "\<not> isHomestead env" for e
    using that by (intro ends) simp_all
  have c2: "\<not> ok \<Longrightarrow> c2 = c" using use UseGas_False by simp
  have stored: "P (Some (Done (ret, a, None, env\<lparr>env_Db := db_SetCode (env_Ops env) (env_Db env) a ret\<rparr>,
      Finalise caller c2, Gas c2)))" by (intro ends) simp_all
  define r where "r = end_create caller a sid (Done (ret, err, env, c))"
  have "r =
    (if err = None \<and> \<not> ?mx then
       if ok then Some (Done (ret, a, None, env\<lparr>env_Db := db_SetCode (env_Ops env) (env_Db env) a ret\<rparr>,
         Finalise caller c2, Gas c2))
       else if isHomestead env then ?all [] (Some CodeStoreOutOfGasError) (UseAllGas c)
       else Some (Done ([], a, Some CodeStoreOutOfGasError, env, Finalise caller c, Gas c))
     else if err = None then ?all [] (Some ErrMaxCodeSizeExceeded) (UseAllGas c)
     else if err = Some ErrRevert then ?all ret err c
     else if ?mx \<or> isHomestead env \<or> err \<noteq> Some CodeStoreOutOfGasError then ?all [] err (UseAllGas c)
     else Some (Done ([], a, err, env, Finalise caller c, Gas c)))"
    using use rev c2 unfolding r_def end_create_def Let_def
    by (cases ok; cases "isHomestead env"; cases "maxCodeSize < length ret"; cases "isHardfork2 env"; cases err)
      simp_all
  then have "P r" using revert keep stored by (cases err) simp_all
  then show ?thesis by (simp add: r_def)
qed

context evm_world
begin

section \<open>The machine as a parameter of the calls\<close>

text \<open>As \<open>env_step\<close>, for a run that may be read-only.\<close>

definition env_run :: "bool \<Rightarrow> 'd Environment \<Rightarrow> 'd Environment \<Rightarrow> bool" where
  "env_run ro env env' \<longleftrightarrow> envok env' \<and> same_static env env' \<and> ext (env_Db env) (env_Db env') \<and>
     R (ro \<and> isHardfork2 env \<or> readonly env) (view (env_Db env)) (view (env_Db env'))"

definition loop_ok :: "int \<Rightarrow> ('d frame \<Rightarrow> 'd run_result outcome option) \<Rightarrow> bool" where
  "loop_ok N loop \<longleftrightarrow> (\<forall>f. frameok f \<longrightarrow> Gas (f_contract f) < N \<longrightarrow>
     (\<exists>ret err env' c'. loop f = Some (Done (ret, err, env', c')) \<and>
        run_end (f_env f) (f_contract f) ret env' c'))"

definition run_ok :: "int \<Rightarrow> 'd runner \<Rightarrow> bool" where
  "run_ok N run \<longleftrightarrow> (\<forall>env c input ro. envok env \<longrightarrow> contract_ok keccak c \<longrightarrow> small input \<longrightarrow> Gas c < N \<longrightarrow>
     Gas c < 2 ^ 63 \<longrightarrow>
     (\<exists>ret err env' c'. run env c input ro = Some (Done (ret, err, env', c')) \<and>
        small ret \<and> env_run ro env env' \<and> contract_ok keccak c' \<and> Gas c' \<le> Gas c))"

lemma env_run_step: "env_run ro env env' \<Longrightarrow> env_step env env'"
  using R_weaken by (cases "ro \<and> isHardfork2 env \<or> readonly env") (auto simp: env_run_def env_step_def)

lemma Run_env:
  assumes "envok env" "env1 = env\<lparr>env_Depth := d, evm_readOnly := ro \<or> evm_readOnly env, env_ReturnData := []\<rparr>"
  shows "envok env1" "env_step env1 env2 \<Longrightarrow>
    env_run ro env (env2\<lparr>evm_readOnly := evm_readOnly env, env_Depth := env_Depth env\<rparr>)"
proof -
  show "envok env1" using assms by (auto simp: env_ok_def precompiles_def small_def)
  assume *: "env_step env1 env2"
  have "same_static env (env2\<lparr>evm_readOnly := evm_readOnly env, env_Depth := env_Depth env\<rparr>)"
    using * assms(2) by (cases env; cases env2) (simp add: env_step_def same_static_def)
  with * assms show "env_run ro env (env2\<lparr>evm_readOnly := evm_readOnly env, env_Depth := env_Depth env\<rparr>)"
    by (auto simp: env_run_def env_step_def env_ok_def precompiles_def conj_disj_distribR)
qed

lemma RunPrecompiled_good:
  assumes "precompiles_ok ps" "ps a = Some p" "contract_ok keccak c"
  shows "\<exists>ret err c'. RunPrecompiled p input c = Some (ret, err, c') \<and> small ret \<and> contract_ok keccak c' \<and>
    Gas c' \<le> Gas c"
proof -
  obtain ok c' where use: "UseGas c (Precompiled_Gas p input) = (ok, c')" by fastforce
  have "0 \<le> Precompiled_Gas p input" "\<exists>ret err. Precompiled_Call p input = Some (ret, err) \<and> small ret"
    using assms(1,2) by (auto simp: precompiles_ok_def)
  with use assms(3) UseGas_True [of c "Precompiled_Gas p input" c'] UseGas_False [of c "Precompiled_Gas p input" c']
  show ?thesis
    by (cases ok) (auto simp: RunPrecompiled_def small_def contract_ok_def)
qed

lemma Run_good:
  assumes loop: "loop_ok N loop"
  shows "run_ok N (Run loop)"
  unfolding run_ok_def
proof (intro allI impI)
  fix env c input ro
  assume env: "envok env" and c: "contract_ok keccak c" and input: "small input" and gas: "Gas c < N" "Gas c < 2 ^ 63"
  define env1 where
    "env1 = env\<lparr>env_Depth := env_Depth env + 1, evm_readOnly := ro \<or> evm_readOnly env, env_ReturnData := []\<rparr>"
  let ?leave = "\<lambda>e :: 'd Environment. e\<lparr>evm_readOnly := evm_readOnly env, env_Depth := env_Depth env\<rparr>"
  note E = Run_env [OF env env1_def]
  have self: "env_run ro env (?leave env1)" using E env_step_refl by blast
  let ?enters = "ro \<and> \<not> evm_readOnly env"
  have e1: "(if ?enters then env\<lparr>env_Depth := env_Depth env + 1\<rparr>\<lparr>evm_readOnly := True\<rparr>
      else env\<lparr>env_Depth := env_Depth env + 1\<rparr>)\<lparr>env_ReturnData := []\<rparr> = env1"
    by (cases env) (auto simp: env1_def)
  have l1: "(if ?enters then env1\<lparr>evm_readOnly := False\<rparr> else env1)\<lparr>env_Depth := env_Depth env\<rparr> = ?leave env1"
    by (cases env) (auto simp: env1_def)
  have eq: "Run loop env c input ro =
      (case Option.bind (CodeAddr c) (precompiles env1) of
         Some p \<Rightarrow> map_option (\<lambda>(ret, err, c'). Done (ret, err, ?leave env1, c')) (RunPrecompiled p input c)
       | None \<Rightarrow> if Code c = [] then Some (Done ([], None, ?leave env1, c))
           else map_option (map_outcome (\<lambda>(ret, err, e, c'). (ret, err,
             (if ro \<and> \<not> evm_readOnly env then e\<lparr>evm_readOnly := False\<rparr> else e)\<lparr>env_Depth := env_Depth env\<rparr>, c')))
             (loop (init_frame env1 c input)))"
    unfolding Run_def Let_def e1 l1 by (rule refl)
  show "\<exists>ret err env' c'. Run loop env c input ro = Some (Done (ret, err, env', c')) \<and>
        small ret \<and> env_run ro env env' \<and> contract_ok keccak c' \<and> Gas c' \<le> Gas c"
  proof (cases "Option.bind (CodeAddr c) (precompiles env1)")
    case (Some p)
    then obtain a where "precompiles env1 a = Some p" by (cases "CodeAddr c") auto
    with RunPrecompiled_good [of "precompiles env1" a p c input] E(1) c
    obtain ret err c' where "RunPrecompiled p input c = Some (ret, err, c')" "small ret" "contract_ok keccak c'"
      "Gas c' \<le> Gas c" by (auto simp: env_ok_def)
    with eq Some self show ?thesis by simp
  next
    case None
    show ?thesis
    proof (cases "Code c = []")
      case True
      with eq None self c show ?thesis by (simp add: small_def)
    next
      case False
      let ?f = "init_frame env1 c input"
      have "frameok ?f"
        using E(1) c input gas
        by (auto simp: frame_ok_def init_frame_def contract_ok_def mem_ok_def NewMemory_def newstack_def)
      with loop gas(1) obtain ret err env' c' where l: "loop ?f = Some (Done (ret, err, env', c'))"
          "run_end env1 (c\<lparr>Input := input\<rparr>) ret env' c'"
        by (auto simp: loop_ok_def init_frame_def)
      then have "evm_readOnly env' = (ro \<or> evm_readOnly env)"
        by (auto simp: run_end_def env_step_def env1_def dest: same_static_fields(5))
      then have "(if ro \<and> \<not> evm_readOnly env then env'\<lparr>evm_readOnly := False\<rparr> else env') =
          env'\<lparr>evm_readOnly := evm_readOnly env\<rparr>" by (cases env') auto
      with eq None False l E(2) show ?thesis by (simp add: run_end_def)
    qed
  qed
qed

section \<open>Calls\<close>

text \<open>
  The result of a call: the world changes within \<open>R b\<close> and not at all on an error, and the gas that is
  left is at most the gas given.
\<close>

definition call_end ::
  "bool \<Rightarrow> int \<Rightarrow> 'd Environment \<Rightarrow> ContractRef \<Rightarrow> 'd call_result outcome option \<Rightarrow> bool" where
  "call_end b gas env caller r \<longleftrightarrow> (\<exists>ret err env' caller' g'. r = Some (Done (ret, err, env', caller', g')) \<and>
     small ret \<and> env_step env env' \<and> R b (view (env_Db env)) (view (env_Db env')) \<and>
     ref_step keccak caller caller' g' \<and> 0 \<le> g' \<and> g' \<le> gas \<and>
     (err \<noteq> None \<longrightarrow> view (env_Db env') = view (env_Db env)))"

text \<open>A state that came from \<open>d\<close> with the same view, and one that came with any view.\<close>

definition quiet :: "'d \<Rightarrow> 'd \<Rightarrow> bool" where
  "quiet d d' \<longleftrightarrow> dinv d' \<and> ext d d' \<and> view d' = view d"

lemma quiet_reads:
  assumes "dinv d"
  shows "db_GetBalance ops d a = (v, d') \<Longrightarrow> quiet d d' \<and> v = w_balance (view d) a"
    "db_Exist ops d a = (ex, d') \<Longrightarrow> quiet d d' \<and> ex = w_exists (view d) a"
    "db_GetNonce ops d a = (n, d') \<Longrightarrow> quiet d d' \<and> n = a_nonce (w_get z (view d) a)"
    "db_GetCodeHash ops d a = (h, d') \<Longrightarrow> quiet d d' \<and> h = w_codeHash (view d) a"
    "db_GetCode ops d a = (code, d') \<Longrightarrow> quiet d d' \<and> code = w_code (view d) a"
    "db_Snapshot ops d = (sid, d') \<Longrightarrow> quiet d d'"
  using GetBalance [OF assms] Exist [OF assms] GetNonce [OF assms] GetCodeHash [OF assms] GetCode [OF assms]
    Snapshot [OF assms] unfolding quiet_def by blast+

lemma quiet_trans: "quiet d1 d2 \<Longrightarrow> quiet d2 d3 \<Longrightarrow> quiet d1 d3"
  unfolding quiet_def by (metis ext_trans)

lemma quiet_refl: "dinv d \<Longrightarrow> quiet d d"
  by (simp add: quiet_def ext_refl)

lemma quiet_env: "envok env \<Longrightarrow> quiet (env_Db env) d \<Longrightarrow> env_step env (env\<lparr>env_Db := d\<rparr>)"
  unfolding quiet_def by (rule env_step_db) (auto simp: env_ok_def R_refl)

lemma env_step_swap:
  assumes "same_static env env'" "envok env'" "env_step env (env\<lparr>env_Db := d\<rparr>)"
  shows "env_step env (env'\<lparr>env_Db := d\<rparr>)"
  using assms by (cases env; cases env') (auto simp: env_step_def env_ok_def same_static_def precompiles_def)

lemma refuse_good:
  assumes "envok env" "quiet (env_Db env) d" "ref_ok keccak caller" "0 \<le> gas"
  shows "call_end b gas env caller (refuse_call (env\<lparr>env_Db := d\<rparr>) caller gas err)"
  using assms quiet_env [OF assms(1,2)] unfolding call_end_def
  by (auto simp: small_def ref_step_return quiet_def R_refl)

lemma end_call_good:
  assumes env: "envok env" and d0: "quiet (env_Db env) d0" "db_Snapshot ops d0 = (sid, d1)"
    and d7: "dinv d7" "ext d1 d7" "world_ok keccak (view d7)" "R b (view d0) (view d7)"
    and b: "b \<longleftrightarrow> ro \<and> isHardfork2 env \<or> readonly env"
    and run: "run_ok N run" and c: "contract_ok keccak c" "Gas c < N" "Gas c < 2 ^ 63" "Gas c = gas"
    and caller: "ref_ok keccak caller" and input: "small input"
  shows "call_end b gas env caller (do { r \<leftarrow> run (env\<lparr>env_Db := d7\<rparr>) c input ro; end_call caller sid r })"
proof -
  have ops: "env_Ops env = ops" using env by (simp add: env_ok_def)
  have q: "dinv d0" "ext (env_Db env) d0" "view d0 = view (env_Db env)" using d0(1) by (auto simp: quiet_def)
  have d1: "quiet d0 d1" by (rule quiet_reads(6) [OF q(1) d0(2)])
  have x7: "ext (env_Db env) d7" using q(2) d1 d7(2) ext_trans unfolding quiet_def by blast
  have e7: "envok (env\<lparr>env_Db := d7\<rparr>)" using env d7 by (simp add: env_ok_def precompiles_def split: if_splits)
  from run e7 c input obtain ret err env' c' where r: "run (env\<lparr>env_Db := d7\<rparr>) c input ro = Some (Done (ret, err, env', c'))"
      "small ret" "env_run ro (env\<lparr>env_Db := d7\<rparr>) env'" "contract_ok keccak c'" "Gas c' \<le> gas"
    unfolding run_ok_def by fastforce
  have rs: "ext d7 (env_Db env')" "R b (view d7) (view (env_Db env'))" "envok env'"
      "same_static (env\<lparr>env_Db := d7\<rparr>) env'"
    using r(3) b by (simp_all add: env_run_def)
  have st: "same_static env env'" using rs(4) by (cases env; cases env') (simp add: same_static_def)
  have Rb: "R b (view (env_Db env)) (view (env_Db env'))" using d7(4) rs(2) q(3) R_trans by metis
  have Rro: "R b w w' \<Longrightarrow> R (readonly env) w w'" for w w'
    using R_weaken b by (cases b) auto
  show ?thesis
  proof (cases "err = None")
    case True
    have "env_step env env'"
      unfolding env_step_def using rs st ext_trans [OF x7 rs(1)] Rro [OF Rb] by simp
    with True r Rb caller ref_step_Finalise [OF caller, of c'] show ?thesis
      by (auto simp: call_end_def end_call_def contract_ok_def)
  next
    case False
    have "dinv (env_Db env')" "ext d1 (env_Db env')"
      using rs(1,3) d7(2) ext_trans by (auto simp: env_ok_def)
    from Revert [OF q(1) d0(2) this] obtain d3 where d3: "db_RevertToSnapshot ops (env_Db env') sid = Some d3"
        "dinv d3" "ext d0 d3" "view d3 = view d0" by blast
    have q3: "quiet (env_Db env) d3" using d3 q ext_trans unfolding quiet_def by metis
    have step: "env_step env (env'\<lparr>env_Db := d3\<rparr>)"
      by (rule env_step_swap [OF st rs(3) quiet_env [OF env q3]])
    have "env_Ops env' = ops" using rs(3) by (simp add: env_ok_def)
    moreover define c'' where "c'' = (if err \<noteq> Some ErrRevert then UseAllGas c' else c')"
    ultimately have "run (env\<lparr>env_Db := d7\<rparr>) c input ro \<bind> end_call caller sid =
        Some (Done (ret, err, env'\<lparr>env_Db := d3\<rparr>, Finalise caller c'', Gas c''))"
      using False r(1) d3(1) by (simp add: end_call_def)
    moreover have "contract_ok keccak c''" "Gas c'' \<le> gas"
      using r(4,5) UseAllGas_ok [OF r(4)] c(1,4) by (auto simp: c''_def contract_ok_def)
    ultimately show ?thesis
      using r(2) step q3 R_refl ref_step_Finalise [OF caller, of c'']
      by (auto simp: call_end_def contract_ok_def quiet_def)
  qed
qed

lemma load_code_good:
  assumes "envok env" "load_code env c a = (c', env')"
  shows "\<exists>d h code. env' = env\<lparr>env_Db := d\<rparr> \<and> quiet (env_Db env) d \<and> c' = SetCallCode c (Some a) h code \<and>
    code_ok keccak h code"
proof -
  obtain h d1 where 1: "db_GetCodeHash ops (env_Db env) a = (h, d1)" by fastforce
  obtain code d2 where 2: "db_GetCode ops d1 a = (code, d2)" by fastforce
  have e: "dinv (env_Db env)" "world_ok keccak (view (env_Db env))" "env_Ops env = ops"
    using assms(1) by (auto simp: env_ok_def)
  have q1: "quiet (env_Db env) d1" "h = w_codeHash (view (env_Db env)) a" using quiet_reads(4) [OF e(1) 1] by auto
  then have "dinv d1" "view d1 = view (env_Db env)" by (auto simp: quiet_def)
  with quiet_reads(5) [OF _ 2] have q2: "quiet d1 d2" "code = w_code (view (env_Db env)) a" by auto
  have "code_ok keccak h code" unfolding q1(2) q2(2) by (rule w_code_ok [OF e(2)])
  with assms(2) 1 2 e(3) quiet_trans [OF q1(1) q2(1)] show ?thesis by (auto simp: load_code_def)
qed

lemma CanTransfer_good:
  assumes "envok env" "CanTransfer env a v = (can, env')"
  shows "\<exists>d. env' = env\<lparr>env_Db := d\<rparr> \<and> quiet (env_Db env) d \<and> (can \<longleftrightarrow> v \<le> w_balance (view (env_Db env)) a)"
proof -
  obtain bal d where 1: "db_GetBalance ops (env_Db env) a = (bal, d)" by fastforce
  have e: "dinv (env_Db env)" "env_Ops env = ops" using assms(1) by (auto simp: env_ok_def)
  from quiet_reads(1) [OF e(1) 1] assms(2) 1 e(2) show ?thesis by (auto simp: CanTransfer_def)
qed

lemma Transfer_good:
  assumes "dinv d" "world_ok keccak (view d)" "0 \<le> v" "v \<le> w_balance (view d) a" "w_exists (view d) a'"
  shows "\<exists>d'. Transfer ops d a a' v = Some d' \<and> dinv d' \<and> ext d d' \<and> world_ok keccak (view d') \<and>
    (v = 0 \<or> \<not> b \<longrightarrow> R b (view d) (view d'))"
proof -
  obtain w1 w2 where w: "w_acct_SubBalance (view d) a v = Some w1" "w_acct_AddBalance w1 a' v = Some w2"
    using transfer_defined [OF assms(3-5)] by blast
  obtain d1 where d1: "acct_SubBalance ops d a v = Some d1" "dinv d1" "ext d d1" "view d1 = w1"
    using acct_SubBalance_Some [OF assms(1) w(1)] by blast
  obtain d2 where d2: "acct_AddBalance ops d1 a' v = Some d2" "dinv d2" "ext d1 d2" "view d2 = w2"
    using acct_AddBalance_Some [OF d1(2)] d1(4) w(2) by blast
  have "world_ok keccak w2" by (rule world_ok_transfer [OF assms(2-4) w])
  moreover have "R b (view d) w2" if "v = 0 \<or> \<not> b"
  proof (cases b)
    case True
    with that w have "w2 = w_AddBalance z (view d) a' 0"
      by (auto simp: w_acct_SubBalance_def w_acct_AddBalance_def world_writes world_reads)
    then show ?thesis by (simp add: R_touch)
  next
    case False
    with R_Transfer [OF assms(2-4) w] show ?thesis by simp
  qed
  moreover have "Transfer ops d a a' v = Some d2" using d1(1) d2(1) by (simp add: Transfer_def)
  ultimately show ?thesis using d2 ext_trans [OF d1(3) d2(3)] by blast
qed

lemma create_missing:
  assumes "dinv d" "world_ok keccak (view d)" "ex = w_exists (view d) a"
    "d' = (if \<not> ex then db_CreateAccount ops d a else d)"
  shows "dinv d'" "ext d d'" "world_ok keccak (view d')" "w_exists (view d') a" "R b (view d) (view d')"
    "w_balance (view d') x = w_balance (view d) x"
proof -
  have "ex \<Longrightarrow> d' = d" using assms(4) by simp
  moreover have "\<not> ex \<Longrightarrow> dinv d' \<and> ext d d' \<and> view d' = w_CreateAccount z (view d) a"
    using assms(4) CreateAccount [OF assms(1), of d' a] by simp
  ultimately show "dinv d'" "ext d d'" "world_ok keccak (view d')" "w_exists (view d') a"
      "R b (view d) (view d')" "w_balance (view d') x = w_balance (view d) x"
    using assms(1-3) ext_refl R_refl R_create_new world_ok_setters(7) [OF assms(2) fresh(1,2)]
    by (cases ex; auto)+
qed

text \<open>What every call may assume of its arguments.\<close>

definition call_args :: "int \<Rightarrow> 'd runner \<Rightarrow> 'd Environment \<Rightarrow> ContractRef \<Rightarrow> bytes \<Rightarrow> int \<Rightarrow> int \<Rightarrow> bool" where
  "call_args N run env caller input gas price \<longleftrightarrow> run_ok N run \<and> envok env \<and> ref_ok keccak caller \<and>
     small input \<and> 0 \<le> gas \<and> gas < N \<and> gas < 2 ^ 63 \<and> 0 \<le> price"

lemma call_argsD:
  assumes "call_args N run env caller input gas price"
  shows "run_ok N run" "envok env" "ref_ok keccak caller" "small input" "0 \<le> gas" "gas < N" "gas < 2 ^ 63"
    "0 \<le> price" "env_Ops env = ops" "dinv (env_Db env)" "world_ok keccak (view (env_Db env))"
  using assms by (auto simp: call_args_def env_ok_def)

lemma refuse_same:
  assumes "call_args N run env caller input gas price"
  shows "call_end b gas env caller (refuse_call env caller gas err)"
  using refuse_good [of env "env_Db env" caller gas b err] call_argsD [OF assms] quiet_refl by simp

text \<open>The end of a call that has its code to load: the state is at \<open>d5\<close>, the snapshot was taken at \<open>d0\<close>.\<close>

lemma load_run_good:
  assumes args: "call_args N run env caller input gas price"
    and d0: "quiet (env_Db env) d0" "db_Snapshot ops d0 = (sid, d1)"
    and d5: "dinv d5" "ext d1 d5" "world_ok keccak (view d5)" "R b (view d0) (view d5)"
    and b: "b \<longleftrightarrow> ro \<and> isHardfork2 env \<or> readonly env"
    and c: "\<And>h code. code_ok keccak h code \<Longrightarrow> contract_ok keccak (SetCallCode c (Some a) h code)" "Gas c = gas"
    and touch: "touch = id \<or> touch = (\<lambda>d. db_AddBalance ops d a 0)"
  shows "call_end b gas env caller (case load_code (env\<lparr>env_Db := d5\<rparr>) c a of (contract, env1) \<Rightarrow>
    do { r \<leftarrow> run (env1\<lparr>env_Db := touch (env_Db env1)\<rparr>) contract input ro; end_call caller sid r })"
proof -
  have e5: "envok (env\<lparr>env_Db := d5\<rparr>)"
    using call_argsD(2) [OF args] d5 by (simp add: env_ok_def precompiles_def split: if_splits)
  obtain c' env1 where l: "load_code (env\<lparr>env_Db := d5\<rparr>) c a = (c', env1)" by fastforce
  from load_code_good [OF e5 l] obtain d6 h code where l': "env1 = env\<lparr>env_Db := d6\<rparr>" "quiet d5 d6"
      "c' = SetCallCode c (Some a) h code" "code_ok keccak h code" by auto
  let ?d7 = "touch d6"
  have d6: "dinv d6" "ext d1 d6" "world_ok keccak (view d6)" "R b (view d0) (view d6)"
    using l'(2) d5 ext_trans unfolding quiet_def by (blast, blast, simp_all)
  have "dinv ?d7 \<and> ext d6 ?d7 \<and> (view ?d7 = view d6 \<or> view ?d7 = w_AddBalance z (view d6) a 0)"
    using touch AddBalance [OF d6(1) refl, of a 0] ext_refl [OF d6(1)] d6(1) by auto
  then have d7: "dinv ?d7" "ext d1 ?d7" "world_ok keccak (view ?d7)" "R b (view d0) (view ?d7)"
    using d6 ext_trans R_trans [OF d6(4) R_touch] world_ok_setters(5) [OF d6(3) fresh(1,2)]
    by (blast, blast, auto)
  have "Gas c' = gas" using l'(3) c(2) by (simp add: SetCallCode_def)
  with end_call_good [OF call_argsD(2) [OF args] d0 d7 b call_argsD(1) [OF args] _ _ _ _ call_argsD(3,4) [OF args], of c' gas]
    call_argsD [OF args] c(1) l' l
  show ?thesis by simp
qed

lemma Call_good:
  assumes args: "call_args N run env caller input gas price" and v: "0 \<le> v" "readonly env \<Longrightarrow> v = 0"
  shows "call_end (readonly env) gas env caller (Call run env caller a input gas price v)"
proof (cases "env_Depth env > callCreateDepthMax")
  case True
  then show ?thesis using refuse_same [OF args] by (simp add: Call_def)
next
  case depth: False
  note A = call_argsD [OF args]
  let ?s = "Ref_Address caller"
  obtain can env1 where "CanTransfer env ?s v = (can, env1)" by fastforce
  with CanTransfer_good [OF A(2) this] obtain d1 where can: "CanTransfer env ?s v = (can, env\<lparr>env_Db := d1\<rparr>)"
      "quiet (env_Db env) d1" "can \<longleftrightarrow> v \<le> w_balance (view (env_Db env)) ?s" by auto
  have i1: "dinv d1" using can(2) by (simp add: quiet_def)
  show ?thesis
  proof (cases can)
    case False
    obtain bal d2 where g: "db_GetBalance ops d1 ?s = (bal, d2)" by fastforce
    from quiet_reads(1) [OF i1 g] have "quiet (env_Db env) d2" using quiet_trans [OF can(2)] by blast
    with depth can(1) False g A(9) refuse_good [OF A(2) _ A(3,5)] show ?thesis by (simp add: Call_def)
  next
    case True
    obtain x d2 where g2: "db_Exist ops d1 ?s = (x, d2)" by fastforce
    then have q2: "quiet (env_Db env) d2" using quiet_reads(2) [OF i1] quiet_trans [OF can(2)] by blast
    then have i2: "dinv d2" by (simp add: quiet_def)
    obtain sid d3 where g3: "db_Snapshot ops d2 = (sid, d3)" by fastforce
    from quiet_reads(6) [OF i2 g3] have q3: "quiet d2 d3" .
    then have i3: "dinv d3" by (simp add: quiet_def)
    obtain ex d4 where g4: "db_Exist ops d3 a = (ex, d4)" by fastforce
    from quiet_reads(2) [OF i3 g4] have q4: "quiet d3 d4" and ex: "ex = w_exists (view d3) a" by auto
    have v4: "dinv d4" "view d4 = view (env_Db env)" "ext d3 d4" "ex = w_exists (view d4) a" "quiet (env_Db env) d4"
      using q2 q3 q4 ex quiet_trans [OF q2 quiet_trans [OF q3 q4]] by (auto simp: quiet_def)
    define d5 where "d5 = (if \<not> ex then db_CreateAccount ops d4 a else d4)"
    have w4: "world_ok keccak (view d4)" using A(11) v4(2) by simp
    note C = create_missing [OF v4(1) w4 v4(4) d5_def]
    have "v \<le> w_balance (view d5) ?s" using True can(3) C(6) v4(2) by simp
    from Transfer_good [OF C(1,3) v(1) this C(4), of "readonly env"] v(2)
    obtain d6 where t: "Transfer ops d5 ?s a v = Some d6" "dinv d6" "ext d5 d6" "world_ok keccak (view d6)"
        "R (readonly env) (view d5) (view d6)" by blast
    have r6: "R (readonly env) (view d2) (view d6)"
      using R_trans [OF C(5) t(5)] v4(2) q2 by (simp add: quiet_def)
    have x6: "ext d3 d6" using v4(3) C(2) t(3) ext_trans by blast
    have eq: "Call run env caller a input gas price v =
        (if \<not> ex \<and> precompiles env a = None \<and> isHardfork2 env \<and> big_BitLen v = 0
         then refuse_call (env\<lparr>env_Db := d4\<rparr>) caller gas None
         else (case load_code (env\<lparr>env_Db := d6\<rparr>) (NewContract caller a v gas price) a of (contract, env1) \<Rightarrow>
           do { r \<leftarrow> run (env1\<lparr>env_Db := id (env_Db env1)\<rparr>) contract input False; end_call caller sid r }))"
      using depth can(1) True g2 g3 g4 t(1) A(9)
      by (simp add: Call_def d5_def [symmetric])
    have "call_end (readonly env) gas env caller
        (case load_code (env\<lparr>env_Db := d6\<rparr>) (NewContract caller a v gas price) a of (contract, env1) \<Rightarrow>
           do { r \<leftarrow> run (env1\<lparr>env_Db := id (env_Db env1)\<rparr>) contract input False; end_call caller sid r })"
      using new_contract_ok [OF A(3) _ v(1) A(5,8)]
      by (intro load_run_good [OF args q2 g3 t(2) x6 t(4) r6]) (auto simp: NewContract_def)
    with refuse_good [OF A(2) v4(5) A(3,5)] show ?thesis unfolding eq by simp
  qed
qed

lemma CallCode_good:
  assumes args: "call_args N run env caller input gas price" and v: "0 \<le> v"
  shows "call_end (readonly env) gas env caller (CallCode run env caller a input gas price v)"
proof (cases "env_Depth env > callCreateDepthMax")
  case True
  then show ?thesis using refuse_same [OF args] by (simp add: CallCode_def)
next
  case depth: False
  note A = call_argsD [OF args]
  let ?s = "Ref_Address caller"
  obtain can env1 where "CanTransfer env ?s v = (can, env1)" by fastforce
  with CanTransfer_good [OF A(2) this] obtain d1 where can: "CanTransfer env ?s v = (can, env\<lparr>env_Db := d1\<rparr>)"
      "quiet (env_Db env) d1" by auto
  have i1: "dinv d1" using can(2) by (simp add: quiet_def)
  show ?thesis
  proof (cases can)
    case False
    obtain bal d2 where g: "db_GetBalance ops d1 ?s = (bal, d2)" by fastforce
    from quiet_reads(1) [OF i1 g] have "quiet (env_Db env) d2" using quiet_trans [OF can(2)] by blast
    with depth can(1) False g A(9) refuse_good [OF A(2) _ A(3,5)] show ?thesis by (simp add: CallCode_def)
  next
    case True
    obtain x d2 where g2: "db_Exist ops d1 ?s = (x, d2)" by fastforce
    then have q2: "quiet (env_Db env) d2" using quiet_reads(2) [OF i1] quiet_trans [OF can(2)] by blast
    then have i2: "dinv d2" by (simp add: quiet_def)
    obtain sid d3 where g3: "db_Snapshot ops d2 = (sid, d3)" by fastforce
    from quiet_reads(6) [OF i2 g3] have q3: "quiet d2 d3" .
    have v3: "dinv d3" "ext d3 d3" "world_ok keccak (view d3)" "R (readonly env) (view d2) (view d3)"
      using q2 q3 A(11) ext_refl R_refl by (auto simp: quiet_def)
    have "CallCode run env caller a input gas price v =
        (case load_code (env\<lparr>env_Db := d3\<rparr>) (NewContract caller ?s v gas price) a of (contract, env1) \<Rightarrow>
           do { r \<leftarrow> run (env1\<lparr>env_Db := id (env_Db env1)\<rparr>) contract input False; end_call caller sid r })"
      using depth can(1) True g2 g3 A(9) by (simp add: CallCode_def)
    moreover have "call_end (readonly env) gas env caller \<dots>"
      using new_contract_ok [OF A(3) _ v(1) A(5,8)]
      by (intro load_run_good [OF args q2 g3 v3]) (auto simp: NewContract_def)
    ultimately show ?thesis by simp
  qed
qed

text \<open>The start of the calls that move no value: the account at \<open>a\<close> is there after it.\<close>

lemma snapshot_create:
  assumes args: "call_args N run env caller input gas price"
  obtains sid d1 ex d2 where "db_Snapshot ops (env_Db env) = (sid, d1)" "db_Exist ops d1 a = (ex, d2)"
    "dinv (if \<not> ex then db_CreateAccount ops d2 a else d2)"
    "ext d1 (if \<not> ex then db_CreateAccount ops d2 a else d2)"
    "world_ok keccak (view (if \<not> ex then db_CreateAccount ops d2 a else d2))"
    "\<forall>b. R b (view (env_Db env)) (view (if \<not> ex then db_CreateAccount ops d2 a else d2))"
proof -
  note A = call_argsD [OF args]
  obtain sid d1 where g1: "db_Snapshot ops (env_Db env) = (sid, d1)" by fastforce
  from quiet_reads(6) [OF A(10) g1] have q1: "quiet (env_Db env) d1" .
  then have i1: "dinv d1" by (simp add: quiet_def)
  obtain ex d2 where g2: "db_Exist ops d1 a = (ex, d2)" by fastforce
  from quiet_reads(2) [OF i1 g2] have q2: "quiet d1 d2" "ex = w_exists (view d1) a" by auto
  have v2: "dinv d2" "world_ok keccak (view d2)" "ex = w_exists (view d2) a" "ext d1 d2"
      "view d2 = view (env_Db env)"
    using q1 q2 A(11) by (auto simp: quiet_def)
  note C = create_missing [OF v2(1-3) refl]
  show thesis
    using ext_trans [OF v2(4) C(2)] C(5) v2(5) by (intro that [OF g1 g2 C(1) _ C(3)]) auto
qed

lemma StaticCall_good:
  assumes args: "call_args N run env caller input gas price"
  shows "call_end (isHardfork2 env \<or> readonly env) gas env caller (StaticCall run env caller a input gas price)"
proof (cases "env_Depth env > callCreateDepthMax")
  case True
  then show ?thesis using refuse_same [OF args] by (simp add: StaticCall_def)
next
  case depth: False
  note A = call_argsD [OF args]
  obtain sid d1 ex d2 where s: "db_Snapshot ops (env_Db env) = (sid, d1)" "db_Exist ops d1 a = (ex, d2)"
    "dinv (if \<not> ex then db_CreateAccount ops d2 a else d2)"
    "ext d1 (if \<not> ex then db_CreateAccount ops d2 a else d2)"
    "world_ok keccak (view (if \<not> ex then db_CreateAccount ops d2 a else d2))"
    "\<forall>b. R b (view (env_Db env)) (view (if \<not> ex then db_CreateAccount ops d2 a else d2))"
    by (rule snapshot_create [OF args, where a = a])
  let ?d = "if \<not> ex then db_CreateAccount ops d2 a else d2"
  have "StaticCall run env caller a input gas price =
      (case load_code (env\<lparr>env_Db := ?d\<rparr>) (NewContract caller a 0 gas price) a of (contract, env1) \<Rightarrow>
         do { r \<leftarrow> run (env1\<lparr>env_Db := db_AddBalance ops (env_Db env1) a 0\<rparr>) contract input True;
              end_call caller sid r })"
    using depth s(1,2) A(9) by (simp add: StaticCall_def split: prod.split)
  moreover have "call_end (isHardfork2 env \<or> readonly env) gas env caller \<dots>"
    using new_contract_ok [OF A(3) _ _ A(5,8)]
    by (intro load_run_good [OF args quiet_refl [OF A(10)] s(1,3-5) s(6) [rule_format]]) (auto simp: NewContract_def)
  ultimately show ?thesis by simp
qed

lemma DelegateCall_good:
  assumes args: "call_args N run env caller input gas price" and p: "caller = ParentRef p"
  shows "call_end (readonly env) gas env caller (DelegateCall run env caller a input gas price)"
proof (cases "env_Depth env > callCreateDepthMax")
  case True
  then show ?thesis using refuse_same [OF args] by (simp add: DelegateCall_def)
next
  case depth: False
  note A = call_argsD [OF args]
  let ?s = "Ref_Address caller"
  obtain sid d1 ex d2 where s: "db_Snapshot ops (env_Db env) = (sid, d1)" "db_Exist ops d1 ?s = (ex, d2)"
    "dinv (if \<not> ex then db_CreateAccount ops d2 ?s else d2)"
    "ext d1 (if \<not> ex then db_CreateAccount ops d2 ?s else d2)"
    "world_ok keccak (view (if \<not> ex then db_CreateAccount ops d2 ?s else d2))"
    "\<forall>b. R b (view (env_Db env)) (view (if \<not> ex then db_CreateAccount ops d2 ?s else d2))"
    by (rule snapshot_create [OF args, where a = "Ref_Address caller"])
  let ?d = "if \<not> ex then db_CreateAccount ops d2 ?s else d2"
  let ?c = "(NewContract caller ?s (c_value p) gas price)\<lparr>c_DelegateCall := True, CallerAddress := CallerAddress p\<rparr>"
  have c: "contract_ok keccak (SetCallCode ?c (Some a) h code)" if "code_ok keccak h code" for h code
    using A(3) p new_contract_ok [OF A(3) that _ A(5,8), of "c_value p" ?s "Some a"]
    by (simp add: contract_ok_def SetCallCode_def)
  have "DelegateCall run env caller a input gas price =
      (case load_code (env\<lparr>env_Db := ?d\<rparr>) ?c a of (contract, env1) \<Rightarrow>
         do { r \<leftarrow> run (env1\<lparr>env_Db := id (env_Db env1)\<rparr>) contract input False; end_call caller sid r })"
    using depth s(1,2) A(9) p by (simp add: DelegateCall_def)
  moreover have "call_end (readonly env) gas env caller \<dots>"
    using c by (intro load_run_good [OF args quiet_refl [OF A(10)] s(1,3-5) s(6) [rule_format]]) (auto simp: NewContract_def)
  ultimately show ?thesis by simp
qed

section \<open>Creation\<close>

text \<open>
  The result of a creation. A failed one leaves at most the caller's new nonce, from Homestead on: before,
  a contract that could not pay for its code was kept without code.
\<close>

definition create_end ::
  "int \<Rightarrow> 'd Environment \<Rightarrow> ContractRef \<Rightarrow> world set \<Rightarrow> 'd create_result outcome option \<Rightarrow> bool" where
  "create_end gas env caller W r \<longleftrightarrow> (\<exists>ret a err env' caller' g'. r = Some (Done (ret, a, err, env', caller', g')) \<and>
     small ret \<and> env_step env env' \<and> ref_step keccak caller caller' g' \<and> 0 \<le> g' \<and> g' \<le> gas \<and>
     (err \<noteq> None \<and> isHomestead env \<longrightarrow> view (env_Db env') \<in> W))"

lemma store_code_good:
  assumes c: "contract_ok keccak c" and d: "dinv d" "world_ok keccak (view d)" and ret: "small ret"
    and use: "UseGas c (int (length ret) * CreateDataGas) = (ok, c')"
  shows "contract_ok keccak c'" "Gas c' \<le> Gas c" "dinv (db_SetCode ops d a ret)" "ext d (db_SetCode ops d a ret)"
    "world_ok keccak (view (db_SetCode ops d a ret))" "R False (view d) (view (db_SetCode ops d a ret))"
proof -
  have "contract_ok keccak c' \<and> Gas c' \<le> Gas c"
  proof (cases ok)
    case True
    with use have "UseGas c (int (length ret) * CreateDataGas) = (True, c')" by simp
    from UseGas_True [OF this] c show ?thesis by (simp add: contract_ok_def CreateDataGas_def)
  next
    case False
    with use have "UseGas c (int (length ret) * CreateDataGas) = (False, c')" by simp
    from UseGas_False [OF this] c show ?thesis by simp
  qed
  then show "contract_ok keccak c'" "Gas c' \<le> Gas c" by auto
  note S = SetCode [OF d(1) refl, of a ret]
  from S show "dinv (db_SetCode ops d a ret)" "ext d (db_SetCode ops d a ret)" by simp_all
  from S show "world_ok keccak (view (db_SetCode ops d a ret))" "R False (view d) (view (db_SetCode ops d a ret))"
    using world_ok_setters(6) [OF d(2) fresh(1,2) ret] by (simp_all add: R_SetCode)
qed

lemma end_create_revert:
  assumes env: "envok env" "same_static env env'" "envok env'" "env_step env (env\<lparr>env_Db := d0\<rparr>)"
    and d0: "dinv d0" "world_ok keccak (view d0)" "db_Snapshot ops d0 = (sid, d1)" "ext d1 (env_Db env')"
  obtains d3 where "db_RevertToSnapshot ops (env_Db env') sid = Some d3" "env_step env (env'\<lparr>env_Db := d3\<rparr>)"
    "view d3 = view d0"
proof -
  have "dinv (env_Db env')" using env(3) by (simp add: env_ok_def)
  from Revert [OF d0(1,3) this d0(4)] obtain d3 where d3: "db_RevertToSnapshot ops (env_Db env') sid = Some d3"
    "dinv d3" "ext d0 d3" "view d3 = view d0" by blast
  have "ext (env_Db env) d0" using env(4) by (simp add: env_step_def)
  with d3(3) have "ext (env_Db env) d3" using ext_trans by blast
  moreover have "R (readonly env) (view (env_Db env)) (view d3)" using env(4) d3(4) by (simp add: env_step_def)
  ultimately have "env_step env (env\<lparr>env_Db := d3\<rparr>)"
    using d3(2,4) d0(2) by (intro env_step_db [OF env(1)]) simp_all
  from env_step_swap [OF env(2,3) this] d3 show thesis using that by blast
qed

lemma end_create_good:
  assumes env: "envok env" "\<not> readonly env" "env_step env (env\<lparr>env_Db := d0\<rparr>)" "ext (env_Db env) d0"
    and d0: "dinv d0" "world_ok keccak (view d0)" "db_Snapshot ops d0 = (sid, d1)"
    and d7: "ext d1 (env_Db env')" "envok env'" "env_step env env'" "same_static env env'"
    and c: "contract_ok keccak c'" "Gas c' \<le> gas" and caller: "ref_ok keccak caller" and ret: "small ret"
  shows "create_end gas env caller {view d0} (end_create caller a sid (Done (ret, err, env', c')))"
proof -
  have ops: "env_Ops env' = ops" and i': "dinv (env_Db env')" "world_ok keccak (view (env_Db env'))"
    using d7(2) by (auto simp: env_ok_def)
  have hs: "isHomestead env' = isHomestead env" "isHardfork2 env' = isHardfork2 env"
    using same_static_fields [OF d7(4)] by auto
  obtain d3 where d3: "db_RevertToSnapshot ops (env_Db env') sid = Some d3" "env_step env (env'\<lparr>env_Db := d3\<rparr>)"
      "view d3 = view d0"
    by (rule end_create_revert [OF env(1) d7(4,2) env(3) d0 d7(1)])
  obtain ok c2 where use: "UseGas c' (int (length ret) * CreateDataGas) = (ok, c2)" by fastforce
  note S = store_code_good [OF c(1) i' ret use]
  have stored: "env_step env (env'\<lparr>env_Db := db_SetCode ops (env_Db env') a ret\<rparr>)"
  proof -
    have "env_step env' (env'\<lparr>env_Db := db_SetCode ops (env_Db env') a ret\<rparr>)"
      using S R_writable [OF S(6)] env(2) hs same_static_fields [OF d7(4)] by (intro env_step_db d7(2)) auto
    with d7(3) show ?thesis by (rule env_step_trans)
  qed
  have fin: "ref_step keccak caller (Finalise caller x) (Gas x)" "0 \<le> Gas x"
    if "contract_ok keccak x" for x
    using that ref_step_Finalise [OF caller, of x] by (auto simp: contract_ok_def)
  show ?thesis
  proof (rule end_create_cases [OF use, where sid = sid and ?d3.0 = d3])
    show "db_RevertToSnapshot (env_Ops env') (env_Db env') sid = Some d3" using d3(1) ops by simp
    fix ret' :: bytes and err' :: "vm_error option" and e x
    assume ret': "ret' \<in> {ret, []}" and "err' = None \<and>
        e = env'\<lparr>env_Db := db_SetCode (env_Ops env') (env_Db env') a ret\<rparr> \<and> x = c2 \<or>
      err' \<noteq> None \<and> \<not> isHomestead env' \<and> e = env' \<and> x = c' \<or>
      err' \<noteq> None \<and> e = env'\<lparr>env_Db := d3\<rparr> \<and> x \<in> {c', UseAllGas c'}"
    then have "contract_ok keccak x \<and> Gas x \<le> gas \<and> env_step env e \<and>
        (err' \<noteq> None \<and> isHomestead env \<longrightarrow> view (env_Db e) \<in> {view d0})"
    proof (elim disjE)
      assume *: "err' = None \<and> e = env'\<lparr>env_Db := db_SetCode (env_Ops env') (env_Db env') a ret\<rparr> \<and> x = c2"
      with S(1,2) c(2) stored ops show ?thesis by simp
    next
      assume "err' \<noteq> None \<and> \<not> isHomestead env' \<and> e = env' \<and> x = c'"
      with c d7(3) hs(1) show ?thesis by simp
    next
      assume "err' \<noteq> None \<and> e = env'\<lparr>env_Db := d3\<rparr> \<and> x \<in> {c', UseAllGas c'}"
      moreover have "0 \<le> gas" using c by (simp add: contract_ok_def)
      ultimately show ?thesis using c UseAllGas_ok [OF c(1)] d3(2,3) by auto
    qed
    moreover have "small ret'" using ret' ret by (auto simp: small_def)
    ultimately show "create_end gas env caller {view d0}
        (Some (Done (ret', a, err', e, Finalise caller x, Gas x)))"
      using fin unfolding create_end_def by blast
  qed
qed

text \<open>The caller's nonce after a creation has begun, and the worlds a failed creation may leave.\<close>

definition bumped :: "world \<Rightarrow> address \<Rightarrow> world" where
  "bumped w a = w_SetNonce z w a (a_nonce (w_get z w a) + 1)"

lemma create_refuse:
  assumes args: "call_args N run env caller code gas price" and d: "env_step env (env\<lparr>env_Db := d\<rparr>)"
    and W: "view d \<in> W" and caller': "caller' = caller \<or> caller' = Ref_ReturnGas caller gas"
  shows "create_end gas env caller W (Some (Done ([], a, err, env\<lparr>env_Db := d\<rparr>, caller', gas)))"
  using call_argsD [OF args] d W caller' unfolding create_end_def
  by (auto simp: small_def ref_step_return ref_step_refl)

lemma nonce_good:
  assumes args: "call_args N run env caller code gas price" and ro: "\<not> readonly env"
    and d1: "quiet (env_Db env) d1" and n: "db_GetNonce ops d1 (Ref_Address caller) = (n, d2)"
    and d3: "d3 = db_SetNonce ops d2 (Ref_Address caller) (n + 1)"
  shows "dinv d3" "view d3 = bumped (view (env_Db env)) (Ref_Address caller)" "env_step env (env\<lparr>env_Db := d3\<rparr>)"
proof -
  note A = call_argsD [OF args]
  have i1: "dinv d1" "view d1 = view (env_Db env)" using d1 by (auto simp: quiet_def)
  from quiet_reads(3) [OF i1(1) n] quiet_trans [OF d1]
  have 2: "quiet (env_Db env) d2" "n = a_nonce (w_get z (view (env_Db env)) (Ref_Address caller))"
    using i1 by auto
  from 2(1) have i2: "dinv d2" "view d2 = view (env_Db env)" "ext (env_Db env) d2" by (auto simp: quiet_def)
  from SetNonce [OF i2(1) d3] have 3: "dinv d3" "ext d2 d3"
      "view d3 = bumped (view (env_Db env)) (Ref_Address caller)"
    using i2 2(2) by (auto simp: bumped_def)
  then show "dinv d3" "view d3 = bumped (view (env_Db env)) (Ref_Address caller)" by simp_all
  have "R (readonly env) (view (env_Db env)) (view d3)"
    unfolding 3(3) bumped_def using R_SetNonce ro by (rule R_writable)
  moreover have "world_ok keccak (view d3)"
    unfolding 3(3) bumped_def by (rule world_ok_setters(3) [OF A(11) fresh(1,2)])
  ultimately show "env_step env (env\<lparr>env_Db := d3\<rparr>)"
    using 3(1) ext_trans [OF i2(3) 3(2)] by (intro env_step_db [OF A(2)])
qed

text \<open>The account of the new contract, and the value it gets.\<close>

lemma new_account_good:
  assumes d: "dinv d0" "world_ok keccak (view d0)" and v: "0 \<le> v" "v \<le> w_balance (view d0) s"
  shows "\<exists>d. Transfer ops (if hf then db_SetNonce ops (db_CreateAccount ops d0 a) a n
      else db_CreateAccount ops d0 a) s a v = Some d \<and>
    dinv d \<and> ext d0 d \<and> world_ok keccak (view d) \<and> R False (view d0) (view d)"
proof -
  define d1 where "d1 = db_CreateAccount ops d0 a"
  define d2 where "d2 = (if hf then db_SetNonce ops d1 a n else d1)"
  from CreateAccount [OF d(1) d1_def] have 1: "dinv d1" "ext d0 d1" "view d1 = w_CreateAccount z (view d0) a" by auto
  then have w1: "world_ok keccak (view d1)" "R False (view d0) (view d1)"
    using world_ok_setters(7) [OF d(2) fresh(1,2)] R_CreateAccount by auto
  have "dinv d2 \<and> ext d1 d2 \<and> (view d2 = view d1 \<or> view d2 = w_SetNonce z (view d1) a n)"
    using SetNonce [OF 1(1) refl, of a n] ext_refl [OF 1(1)] 1(1) by (auto simp: d2_def)
  then have 2: "dinv d2" "ext d0 d2" "world_ok keccak (view d2)" "R False (view d0) (view d2)"
      "w_balance (view d2) s = w_balance (view d0) s" "w_exists (view d2) a"
    using w1 1 ext_trans [OF 1(2)] R_trans [OF w1(2) R_SetNonce] world_ok_setters(3) [OF w1(1) fresh(1,2)] fresh(1)
    by auto
  with v have "v \<le> w_balance (view d2) s" by simp
  from Transfer_good [OF 2(1,3) v(1) this 2(6), of False] obtain d3 where
    3: "Transfer ops d2 s a v = Some d3" "dinv d3" "ext d2 d3" "world_ok keccak (view d3)" "R False (view d2) (view d3)"
    by auto
  have "(if hf then db_SetNonce ops (db_CreateAccount ops d0 a) a n else db_CreateAccount ops d0 a) = d2"
    by (simp add: d2_def d1_def)
  with 3 ext_trans [OF 2(2) 3(3)] R_trans [OF 2(4) 3(5)] show ?thesis by auto
qed

lemma create_run_good:
  assumes args: "call_args N run env caller code gas price" and ro: "\<not> readonly env" and v: "0 \<le> v"
    and d0: "dinv d0" "env_step env (env\<lparr>env_Db := d0\<rparr>)" "v \<le> w_balance (view d0) (Ref_Address caller)"
    and s: "db_Snapshot ops d0 = (sid, d1)" and x: "db_Exist ops d1 (Ref_Address caller) = (ex, d2)"
    and c: "c = SetCallCode (NewContract caller a v gas price) None (env_Keccak256 env code) code"
  shows "create_end gas env caller {view d0} (do {
     d \<leftarrow> Transfer ops (if hf then db_SetNonce ops (db_CreateAccount ops d2 a) a n
       else db_CreateAccount ops d2 a) (Ref_Address caller) a v;
     r \<leftarrow> run (env\<lparr>env_Db := d\<rparr>) c [] False;
     end_create caller a sid r })"
proof -
  note A = call_argsD [OF args]
  have w0: "world_ok keccak (view d0)" "ext (env_Db env) d0" using d0(2) by (auto simp: env_step_def env_ok_def)
  from quiet_reads(6) [OF d0(1) s] have q1: "quiet d0 d1" .
  then have i1: "dinv d1" by (simp add: quiet_def)
  from quiet_reads(2) [OF i1 x] have q2: "quiet d1 d2" by blast
  have i2: "dinv d2" "view d2 = view d0" "ext d1 d2" using q1 q2 by (auto simp: quiet_def)
  have "\<exists>d. Transfer ops (if hf then db_SetNonce ops (db_CreateAccount ops d2 a) a n
       else db_CreateAccount ops d2 a) (Ref_Address caller) a v = Some d \<and>
    dinv d \<and> ext d2 d \<and> world_ok keccak (view d) \<and> R False (view d2) (view d)"
    using i2 w0(1) d0(3) by (intro new_account_good [OF _ _ v]) auto
  then obtain d where d: "Transfer ops (if hf then db_SetNonce ops (db_CreateAccount ops d2 a) a n
       else db_CreateAccount ops d2 a) (Ref_Address caller) a v = Some d"
    "dinv d" "ext d2 d" "world_ok keccak (view d)" "R False (view d0) (view d)" using i2(2) by auto
  have x1: "ext d1 d" using i2(3) d(3) by (rule ext_trans)
  have "ext d0 d1" using q1 by (simp add: quiet_def)
  with w0(2) x1 ext_trans have xe: "ext (env_Db env) d" by blast
  have R0: "R (readonly env) (view (env_Db env)) (view d)"
  proof -
    have "R (readonly env) (view (env_Db env)) (view d0)" using d0(2) by (simp add: env_step_def)
    with R_writable [OF d(5) ro] show ?thesis using R_trans by blast
  qed
  have step: "env_step env (env\<lparr>env_Db := d\<rparr>)" using d(2,4) xe R0 by (intro env_step_db [OF A(2)])
  then have ed: "envok (env\<lparr>env_Db := d\<rparr>)" by (simp add: env_step_def)
  have k: "env_Keccak256 env = keccak" using A(2) by (simp add: env_ok_def)
  have ck: "contract_ok keccak c" "Gas c = gas"
    using new_contract_ok [OF A(3) _ v A(5,8), of "keccak code" code a None] A(4) c k
    by (auto simp: code_ok_def SetCallCode_def NewContract_def)
  have "small []" by (simp add: small_def)
  with A(1,6,7) ed ck obtain ret err env' c' where r: "run (env\<lparr>env_Db := d\<rparr>) c [] False = Some (Done (ret, err, env', c'))"
      "small ret" "env_run False (env\<lparr>env_Db := d\<rparr>) env'" "contract_ok keccak c'" "Gas c' \<le> gas"
    unfolding run_ok_def by metis
  have e': "env_step env env'" by (rule env_step_trans [OF step env_run_step [OF r(3)]])
  have "ext d (env_Db env')" using r(3) by (simp add: env_run_def)
  with x1 have "ext d1 (env_Db env')" using ext_trans by blast
  from end_create_good [OF A(2) ro d0(2) w0(2) d0(1) w0(1) s this _ e' _ r(4,5) A(3) r(2)] e'
  have "create_end gas env caller {view d0} (end_create caller a sid (Done (ret, err, env', c')))"
    by (simp add: env_step_def)
  with d(1) r(1) show ?thesis by simp
qed

lemma Create_good:
  assumes args: "call_args N run env caller code gas price" and ro: "\<not> readonly env" and v: "0 \<le> v"
  shows "create_end gas env caller {view (env_Db env), bumped (view (env_Db env)) (Ref_Address caller)}
    (Create run env caller code gas price v)"
proof -
  note A = call_argsD [OF args]
  let ?s = "Ref_Address caller" and ?W = "{view (env_Db env), bumped (view (env_Db env)) (Ref_Address caller)}"
  obtain can env1 where "CanTransfer env ?s v = (can, env1)" by fastforce
  with CanTransfer_good [OF A(2) this] obtain d1 where can: "CanTransfer env ?s v = (can, env\<lparr>env_Db := d1\<rparr>)"
      "quiet (env_Db env) d1" "can \<longleftrightarrow> v \<le> w_balance (view (env_Db env)) ?s" by auto
  have i1: "dinv d1" "view d1 = view (env_Db env)" using can(2) by (auto simp: quiet_def)
  consider "env_Depth env > callCreateDepthMax" | "\<not> env_Depth env > callCreateDepthMax" "\<not> can"
    | "\<not> env_Depth env > callCreateDepthMax" can by blast
  then show ?thesis
  proof cases
    case 1
    with create_refuse [OF args, of "env_Db env" ?W] quiet_env [OF A(2) quiet_refl [OF A(10)]]
    show ?thesis by (simp add: Create_def)
  next
    case 2
    obtain bal d2 where g: "db_GetBalance ops d1 ?s = (bal, d2)" by fastforce
    from quiet_reads(1) [OF i1(1) g] have q: "quiet (env_Db env) d2" using quiet_trans [OF can(2)] by blast
    with 2 can(1) g A(9) create_refuse [OF args quiet_env [OF A(2) q], of ?W] show ?thesis
      by (simp add: Create_def quiet_def)
  next
    case 3
    obtain n d2 where g2: "db_GetNonce ops d1 ?s = (n, d2)" by fastforce
    define d3 where "d3 = db_SetNonce ops d2 ?s (n + 1)"
    note N = nonce_good [OF args ro can(2) g2 d3_def]
    define a where "a = env_CreateAddress env ?s n"
    obtain h d4 where g4: "db_GetCodeHash ops d3 a = (h, d4)" by fastforce
    from quiet_reads(4) [OF N(1) g4] have q4: "quiet d3 d4" by blast
    then have i4: "dinv d4" by (simp add: quiet_def)
    obtain n' d5 where g5: "db_GetNonce ops d4 a = (n', d5)" by fastforce
    from quiet_reads(3) [OF i4 g5] have "quiet d4 d5" by blast
    with q4 have q5: "quiet d3 d5" by (rule quiet_trans)
    then have i5: "dinv d5" "view d5 = bumped (view (env_Db env)) ?s" using N(2) by (auto simp: quiet_def)
    have "env_step (env\<lparr>env_Db := d3\<rparr>) (env\<lparr>env_Db := d3\<rparr>\<lparr>env_Db := d5\<rparr>)"
      using N(3) q5 by (intro quiet_env) (auto simp: env_step_def)
    with N(3) have s5: "env_step env (env\<lparr>env_Db := d5\<rparr>)" using env_step_trans by fastforce
    have b5: "v \<le> w_balance (view d5) ?s" using 3(2) can(3) i5(2) fresh(1) by (simp add: bumped_def)
    obtain sid d6 where g6: "db_Snapshot ops d5 = (sid, d6)" by fastforce
    obtain ex d7 where g7: "db_Exist ops d6 ?s = (ex, d7)" by fastforce
    have W: "create_end gas env caller {view d5} r \<Longrightarrow> create_end gas env caller ?W r" for r
      using i5(2) by (fastforce simp: create_end_def)
    from W [OF create_run_good [OF args ro v i5(1) s5 b5 g6 g7 refl,
          of "isHardfork2 env" a "env_StartingNonce env + 1"]] create_refuse [OF args s5, of ?W] i5(2)
    show ?thesis
      using 3 can(1) g2 g4 g5 g6 g7 A(9) unfolding Create_def
      by (cases "isHardfork2 env") (simp_all add: d3_def [symmetric] a_def [symmetric] Let_def)
  qed
qed

section \<open>The interpreter returns\<close>

lemma mk_calls_ok:
  assumes "run_ok N run"
  shows "calls_ok N (mk_calls run)"
  unfolding calls_ok_def
proof (intro allI impI conjI)
  fix env c a input gas price and v :: int
  assume "call_pre N env c input gas price"
  with assms have args: "call_args N run env (ParentRef c) input gas price"
    by (simp add: call_args_def call_pre_def)
  have good: "call_end b gas env (ParentRef c) r \<Longrightarrow> call_good gas env c r" for b r
    unfolding call_end_def call_good_def by (elim exE conjE) (fastforce dest: ref_step_Parent)
  have cgood: "create_end gas env (ParentRef c) W r \<Longrightarrow> create_good gas env c r" for W r
    unfolding create_end_def create_good_def by (elim exE conjE) (fastforce dest: ref_step_Parent)
  show "call_good gas env c (env_DelegateCall (mk_calls run) env (ParentRef c) a input gas price)"
    "call_good gas env c (env_StaticCall (mk_calls run) env (ParentRef c) a input gas price)"
    unfolding mk_calls_def Calls.simps
    using good [OF DelegateCall_good [OF args refl]] good [OF StaticCall_good [OF args]] by blast+
  assume v: "0 \<le> v"
  then show "call_good gas env c (env_CallCode (mk_calls run) env (ParentRef c) a input gas price v)"
    unfolding mk_calls_def Calls.simps by (rule good [OF CallCode_good [OF args]])
  show "call_good gas env c (env_Call (mk_calls run) env (ParentRef c) a input gas price v)"
    if "readonly env \<longrightarrow> v = 0"
    unfolding mk_calls_def Calls.simps using that by (intro good [OF Call_good [OF args v]]) simp
  show "create_good gas env c (env_Create (mk_calls run) env (ParentRef c) input gas price v)"
    if "\<not> readonly env"
    unfolding mk_calls_def Calls.simps by (rule cgood [OF Create_good [OF args that v]])
qed

lemma evm_loop_ok: "loop_ok (int n) (evm_loop n)"
proof (induction n)
  case 0
  then show ?case by (auto simp: loop_ok_def frame_ok_def contract_ok_def)
next
  case (Suc n)
  show ?case
    unfolding loop_ok_def
  proof (intro allI impI)
    fix f assume f: "frameok f" "Gas (f_contract f) < int (Suc n)"
    let ?calls = "mk_calls (Run (evm_loop n))"
    have "calls_ok (int n) ?calls" by (rule mk_calls_ok [OF Run_good [OF Suc.IH]])
    then have "calls_ok (Gas (f_contract f)) ?calls" using f(2) by (auto simp: calls_ok_def call_pre_def)
    from evm_step_good [OF f(1) this] obtain s where s: "evm_step ?calls f = Some (Done s)"
      "case s of
        Continue f' \<Rightarrow> frameok f' \<and> env_step (f_env f) (f_env f') \<and>
          contract_ext (f_contract f) (f_contract f') \<and> Gas (f_contract f') < Gas (f_contract f)
      | Return ret err f' \<Rightarrow> run_end (f_env f) (f_contract f) ret (f_env f') (f_contract f')"
      by (auto simp: step_good_def)
    show "\<exists>ret err env' c'. evm_loop (Suc n) f = Some (Done (ret, err, env', c')) \<and>
        run_end (f_env f) (f_contract f) ret env' c'"
    proof (cases s)
      case (Continue f')
      with s(2) have c: "frameok f'" "env_step (f_env f) (f_env f')"
        "contract_ext (f_contract f) (f_contract f')" "Gas (f_contract f') < Gas (f_contract f)" by auto
      with f(2) have "Gas (f_contract f') < int n" by simp
      with Suc.IH c(1) obtain ret err env' c' where "evm_loop n f' = Some (Done (ret, err, env', c'))"
        "run_end (f_env f') (f_contract f') ret env' c'" unfolding loop_ok_def by blast
      with c s(1) Continue show ?thesis
        by (auto simp: run_end_def intro: env_step_trans contract_ext_trans)
    next
      case (Return ret err f')
      with s show ?thesis by auto
    qed
  qed
qed

lemma evm_Run_ok: "run_ok (int n) (evm_Run n)"
  unfolding evm_Run_def by (rule Run_good [OF evm_loop_ok])

end

end
