(* ===== verification/State.thy ===== *)
theory State
  imports World
begin

text \<open>
  \<^verbatim>\<open>core/state\<close>: state objects (\<^verbatim>\<open>state_object.go\<close>), the journal of changes (\<^verbatim>\<open>journal.go\<close>) and the state
  database (\<^verbatim>\<open>statedb.go\<close>). A trie is the finite map it stores, from addresses to accounts and from keys
  to non-zero values; that reading a trie node from disk may fail is not modelled. The pointer from a
  state object to its database is the explicit argument. An object is changed in place in Go; here
  the changed object is put back under its address.
\<close>

section \<open>Accounts and state objects\<close>

type_synonym storage = "hash \<rightharpoonup> hash"

record Account =
  Nonce :: uint64
  Balance :: int
  Root :: hash
  acct_CodeHash :: hash

text \<open>
  What the package uses of \<^verbatim>\<open>database.go\<close>, package trie and package crypto. The address hash that
  \<^verbatim>\<open>ContractCode\<close> and \<^verbatim>\<open>OpenStorageTrie\<close> take is not used by \<^verbatim>\<open>cachingDB\<close> and is left out. \<open>None\<close> is an error.
\<close>

record Backend =
  OpenStorageTrie :: "hash \<Rightarrow> storage option"
  ContractCode :: "hash \<Rightarrow> bytes option"
  Storage_Hash :: "storage \<Rightarrow> hash"
  Keccak256 :: "bytes \<Rightarrow> hash"
  StartingNonce :: uint64

text \<open>\<^verbatim>\<open>ContractCodeSize\<close>: the cache of sizes holds the lengths of codes it has seen.\<close>

definition ContractCodeSize :: "Backend \<Rightarrow> hash \<Rightarrow> nat option" where
  "ContractCodeSize b h = map_option length (ContractCode b h)"

text \<open>
  An empty code list stands for a nil slice. \<^verbatim>\<open>dbErr\<close> remembers the first error; here whether there
  was one.
\<close>

record StateObject =
  so_address :: address
  so_data :: Account
  so_dbErr :: bool
  so_trie :: "storage option"
  so_code :: bytes
  cachedStorage :: storage
  dirtyStorage :: storage
  dirtyCode :: bool
  suicided :: bool
  deleted :: bool

definition so_empty :: "Backend \<Rightarrow> StateObject \<Rightarrow> bool" where
  "so_empty b ob \<longleftrightarrow> Nonce (so_data ob) = StartingNonce b \<and> big_Sign (Balance (so_data ob)) = 0 \<and>
     acct_CodeHash (so_data ob) = Keccak256 b []"

definition newObject :: "address \<Rightarrow> Account \<Rightarrow> StateObject" where
  "newObject a data =
     \<lparr>so_address = a, so_data = data, so_dbErr = False, so_trie = None, so_code = [],
      cachedStorage = Map.empty, dirtyStorage = Map.empty, dirtyCode = False,
      suicided = False, deleted = False\<rparr>"

definition getTrie :: "Backend \<Rightarrow> StateObject \<Rightarrow> storage \<times> StateObject" where
  "getTrie b ob =
     (case so_trie ob of
        Some t \<Rightarrow> (t, ob)
      | None \<Rightarrow>
          (case OpenStorageTrie b (Root (so_data ob)) of
             Some t \<Rightarrow> (t, ob\<lparr>so_trie := Some t\<rparr>)
           | None \<Rightarrow>
               (let t = (case OpenStorageTrie b 0 of Some t \<Rightarrow> t | None \<Rightarrow> Map.empty)
                in (t, ob\<lparr>so_trie := Some t, so_dbErr := True\<rparr>))))"

definition so_GetState :: "Backend \<Rightarrow> StateObject \<Rightarrow> hash \<Rightarrow> hash \<times> StateObject" where
  "so_GetState b ob key =
     (case cachedStorage ob key of
        Some v \<Rightarrow> (v, ob)
      | None \<Rightarrow>
          (let (t, ob) = getTrie b ob;
               v = (case t key of Some v \<Rightarrow> v | None \<Rightarrow> 0)
           in (v, if v \<noteq> 0 then ob\<lparr>cachedStorage := (cachedStorage ob)(key \<mapsto> v)\<rparr> else ob)))"

definition so_setState :: "StateObject \<Rightarrow> hash \<Rightarrow> hash \<Rightarrow> StateObject" where
  "so_setState ob key v =
     ob\<lparr>cachedStorage := (cachedStorage ob)(key \<mapsto> v), dirtyStorage := (dirtyStorage ob)(key \<mapsto> v)\<rparr>"

text \<open>
  \<^verbatim>\<open>updateTrie\<close> writes every dirty entry to the trie, a zero value as a deletion, and forgets it. The
  keys are distinct, so the order in which the Go map is iterated does not matter.
\<close>

definition updateTrie :: "Backend \<Rightarrow> StateObject \<Rightarrow> StateObject" where
  "updateTrie b ob =
     (let (t, ob) = getTrie b ob
      in ob\<lparr>so_trie := Some (\<lambda>k. case dirtyStorage ob k of
                None \<Rightarrow> t k | Some v \<Rightarrow> if v = 0 then None else Some v),
            dirtyStorage := Map.empty\<rparr>)"

definition updateRoot :: "Backend \<Rightarrow> StateObject \<Rightarrow> StateObject" where
  "updateRoot b ob =
     (let ob = updateTrie b ob
      in ob\<lparr>so_data := (so_data ob)\<lparr>Root := Storage_Hash b (the (so_trie ob))\<rparr>\<rparr>)"

definition so_Code :: "Backend \<Rightarrow> StateObject \<Rightarrow> bytes \<times> StateObject" where
  "so_Code b ob =
     (if so_code ob \<noteq> [] then (so_code ob, ob)
      else if acct_CodeHash (so_data ob) = Keccak256 b [] then ([], ob)
      else (case ContractCode b (acct_CodeHash (so_data ob)) of
              None \<Rightarrow> ([], ob\<lparr>so_dbErr := True\<rparr>)
            | Some c \<Rightarrow> (c, ob\<lparr>so_code := c\<rparr>)))"

definition so_setBalance :: "StateObject \<Rightarrow> int \<Rightarrow> StateObject" where
  "so_setBalance ob v = ob\<lparr>so_data := (so_data ob)\<lparr>Balance := v\<rparr>\<rparr>"

definition so_setNonce :: "StateObject \<Rightarrow> uint64 \<Rightarrow> StateObject" where
  "so_setNonce ob n = ob\<lparr>so_data := (so_data ob)\<lparr>Nonce := n\<rparr>\<rparr>"

definition so_setCode :: "StateObject \<Rightarrow> hash \<Rightarrow> bytes \<Rightarrow> StateObject" where
  "so_setCode ob h code =
     ob\<lparr>so_code := code, so_data := (so_data ob)\<lparr>acct_CodeHash := h\<rparr>, dirtyCode := True\<rparr>"

definition deepCopy :: "StateObject \<Rightarrow> StateObject" where
  "deepCopy ob = (newObject (so_address ob) (so_data ob))
     \<lparr>so_trie := so_trie ob, so_code := so_code ob, dirtyStorage := dirtyStorage ob,
      cachedStorage := dirtyStorage ob, suicided := suicided ob, dirtyCode := dirtyCode ob,
      deleted := deleted ob\<rparr>"

section \<open>The journal and the database\<close>

datatype (plugins only: code size) journalEntry =
    createObjectChange address
  | resetObjectChange StateObject
  | suicideChange address bool int
  | balanceChange address int
  | nonceChange address uint64
  | storageChange address hash hash
  | codeChange address bytes hash
  | refundChange int
  | addLogChange hash
  | addPreimageChange hash
  | touchChange address

definition dirtied :: "journalEntry \<Rightarrow> address option" where
  "dirtied e = (case e of
     createObjectChange a \<Rightarrow> Some a
   | resetObjectChange ob \<Rightarrow> None
   | suicideChange a p bal \<Rightarrow> Some a
   | balanceChange a p \<Rightarrow> Some a
   | nonceChange a p \<Rightarrow> Some a
   | storageChange a k p \<Rightarrow> Some a
   | codeChange a c h \<Rightarrow> Some a
   | refundChange p \<Rightarrow> None
   | addLogChange h \<Rightarrow> None
   | addPreimageChange h \<Rightarrow> None
   | touchChange a \<Rightarrow> Some a)"

text \<open>The journal's \<^verbatim>\<open>entries\<close> are kept newest first. A revision is an id and a length of the journal.\<close>

record StateDB =
  sdb_db :: Backend
  sdb_trie :: "address \<rightharpoonup> Account"
  sdb_dbErr :: bool
  stateObjects :: "address \<rightharpoonup> StateObject"
  stateObjectsDirty :: "address set"
  refund :: int
  thash :: hash
  bhash :: hash
  txIndex :: nat
  logs :: "hash \<rightharpoonup> Log list"
  logSize :: nat
  entries :: "journalEntry list"
  dirties :: "address \<rightharpoonup> int"
  validRevisions :: "(nat \<times> nat) list"
  nextRevisionId :: nat
  preimages :: "hash \<rightharpoonup> bytes"

definition state_New :: "Backend \<Rightarrow> (address \<rightharpoonup> Account) \<Rightarrow> StateDB" where
  "state_New b t =
     \<lparr>sdb_db = b, sdb_trie = t, sdb_dbErr = False, stateObjects = Map.empty, stateObjectsDirty = {},
      refund = 0, thash = 0, bhash = 0, txIndex = 0, logs = Map.empty, logSize = 0,
      entries = [], dirties = Map.empty, validRevisions = [], nextRevisionId = 0,
      preimages = Map.empty\<rparr>"

definition dirties_count :: "(address \<rightharpoonup> int) \<Rightarrow> address \<Rightarrow> int" where
  "dirties_count m a = (case m a of Some n \<Rightarrow> n | None \<Rightarrow> 0)"

definition journal_dirty :: "StateDB \<Rightarrow> address \<Rightarrow> StateDB" where
  "journal_dirty d a = d\<lparr>dirties := (dirties d)(a \<mapsto> dirties_count (dirties d) a + 1)\<rparr>"

definition journal_append :: "StateDB \<Rightarrow> journalEntry \<Rightarrow> StateDB" where
  "journal_append d e =
     (let d = d\<lparr>entries := e # entries d\<rparr> in
      case dirtied e of None \<Rightarrow> d | Some a \<Rightarrow> journal_dirty d a)"

definition setStateObject :: "StateDB \<Rightarrow> StateObject \<Rightarrow> StateDB" where
  "setStateObject d ob = d\<lparr>stateObjects := (stateObjects d)(so_address ob \<mapsto> ob)\<rparr>"

definition getStateObject :: "StateDB \<Rightarrow> address \<Rightarrow> StateObject option \<times> StateDB" where
  "getStateObject d a =
     (case stateObjects d a of
        Some ob \<Rightarrow> (if deleted ob then None else Some ob, d)
      | None \<Rightarrow>
          (case sdb_trie d a of
             None \<Rightarrow> (None, d)
           | Some data \<Rightarrow> (let ob = newObject a data in (Some ob, setStateObject d ob))))"

section \<open>Journalled changes of an object\<close>

definition ripemd :: address where "ripemd = 3"

definition so_touch :: "StateDB \<Rightarrow> StateObject \<Rightarrow> StateDB" where
  "so_touch d ob =
     (let d = journal_append d (touchChange (so_address ob)) in
      if so_address ob = ripemd then journal_dirty d (so_address ob) else d)"

definition so_SetBalance :: "StateDB \<Rightarrow> StateObject \<Rightarrow> int \<Rightarrow> StateDB" where
  "so_SetBalance d ob v =
     setStateObject (journal_append d (balanceChange (so_address ob) (Balance (so_data ob))))
       (so_setBalance ob v)"

definition so_AddBalance :: "StateDB \<Rightarrow> StateObject \<Rightarrow> int \<Rightarrow> StateDB" where
  "so_AddBalance d ob v =
     (if big_Sign v = 0 then (if so_empty (sdb_db d) ob then so_touch d ob else d)
      else so_SetBalance d ob (Balance (so_data ob) + v))"

definition so_SubBalance :: "StateDB \<Rightarrow> StateObject \<Rightarrow> int \<Rightarrow> StateDB" where
  "so_SubBalance d ob v =
     (if big_Sign v = 0 then d else so_SetBalance d ob (Balance (so_data ob) - v))"

definition so_SetNonce :: "StateDB \<Rightarrow> StateObject \<Rightarrow> uint64 \<Rightarrow> StateDB" where
  "so_SetNonce d ob n =
     setStateObject (journal_append d (nonceChange (so_address ob) (Nonce (so_data ob))))
       (so_setNonce ob n)"

definition so_SetState :: "StateDB \<Rightarrow> StateObject \<Rightarrow> hash \<Rightarrow> hash \<Rightarrow> StateDB" where
  "so_SetState d ob key v =
     (let (prev, ob) = so_GetState (sdb_db d) ob key
      in setStateObject (journal_append d (storageChange (so_address ob) key prev))
           (so_setState ob key v))"

definition so_SetCode :: "StateDB \<Rightarrow> StateObject \<Rightarrow> hash \<Rightarrow> bytes \<Rightarrow> StateDB" where
  "so_SetCode d ob h code =
     (let (prevcode, ob) = so_Code (sdb_db d) ob
      in setStateObject
           (journal_append d (codeChange (so_address ob) prevcode (acct_CodeHash (so_data ob))))
           (so_setCode ob h code))"

section \<open>Reverting\<close>

text \<open>
  The \<^verbatim>\<open>revert\<close> method of each kind of change. A change of an account that cannot be found is a nil
  dereference.
\<close>

definition revert_object ::
  "StateDB \<Rightarrow> address \<Rightarrow> (StateObject \<Rightarrow> StateObject) \<Rightarrow> StateDB option" where
  "revert_object d a g =
     (case getStateObject d a of
        (None, d) \<Rightarrow> None
      | (Some ob, d) \<Rightarrow> Some (setStateObject d (g ob)))"

definition entry_revert :: "journalEntry \<Rightarrow> StateDB \<Rightarrow> StateDB option" where
  "entry_revert e d = (case e of
     createObjectChange a \<Rightarrow>
       Some (d\<lparr>stateObjects := (stateObjects d)(a := None),
               stateObjectsDirty := stateObjectsDirty d - {a}\<rparr>)
   | resetObjectChange ob \<Rightarrow> Some (setStateObject d ob)
   | suicideChange a prev prevbalance \<Rightarrow>
       (case getStateObject d a of
          (None, d) \<Rightarrow> Some d
        | (Some ob, d) \<Rightarrow>
            Some (setStateObject d (so_setBalance (ob\<lparr>suicided := prev\<rparr>) prevbalance)))
   | balanceChange a prev \<Rightarrow> revert_object d a (\<lambda>ob. so_setBalance ob prev)
   | nonceChange a prev \<Rightarrow> revert_object d a (\<lambda>ob. so_setNonce ob prev)
   | storageChange a key prev \<Rightarrow> revert_object d a (\<lambda>ob. so_setState ob key prev)
   | codeChange a prevcode prevhash \<Rightarrow> revert_object d a (\<lambda>ob. so_setCode ob prevhash prevcode)
   | refundChange prev \<Rightarrow> Some (d\<lparr>refund := prev\<rparr>)
   | addLogChange h \<Rightarrow>
       (let ls = (case logs d h of Some ls \<Rightarrow> ls | None \<Rightarrow> []) in
        if ls = [] then None
        else Some (d\<lparr>logs := (if length ls = 1 then (logs d)(h := None)
                              else (logs d)(h \<mapsto> take (length ls - 1) ls)),
                     logSize := logSize d - 1\<rparr>))
   | addPreimageChange h \<Rightarrow> Some (d\<lparr>preimages := (preimages d)(h := None)\<rparr>)
   | touchChange a \<Rightarrow> Some d)"

definition undirty :: "StateDB \<Rightarrow> journalEntry \<Rightarrow> StateDB" where
  "undirty d e =
     (case dirtied e of
        None \<Rightarrow> d
      | Some a \<Rightarrow>
          (let n = dirties_count (dirties d) a - 1 in
           d\<lparr>dirties := (if n = 0 then (dirties d)(a := None) else (dirties d)(a \<mapsto> n))\<rparr>))"

text \<open>The loop of \<^verbatim>\<open>journal.revert\<close>, over the number of entries to take back.\<close>

primrec journal_undo :: "nat \<Rightarrow> StateDB \<Rightarrow> StateDB option" where
  "journal_undo 0 d = Some d"
| "journal_undo (Suc k) d =
     (case entries d of
        [] \<Rightarrow> None
      | e # es \<Rightarrow> do {
          d' \<leftarrow> entry_revert e d;
          journal_undo k ((undirty d' e)\<lparr>entries := es\<rparr>)
        })"

definition journal_revert :: "StateDB \<Rightarrow> nat \<Rightarrow> StateDB option" where
  "journal_revert d snapshot =
     (if snapshot \<le> length (entries d) then journal_undo (length (entries d) - snapshot) d else None)"

definition sdb_Snapshot :: "StateDB \<Rightarrow> nat \<times> StateDB" where
  "sdb_Snapshot d =
     (let i = nextRevisionId d
      in (i, d\<lparr>nextRevisionId := i + 1,
               validRevisions := validRevisions d @ [(i, length (entries d))]\<rparr>))"

text \<open>The binary search of Go's \<^verbatim>\<open>sort.Search\<close>: the least index in \<open>[i, j)\<close> where \<open>p\<close> holds, or \<open>j\<close>.\<close>

function sort_Search :: "(nat \<Rightarrow> bool) \<Rightarrow> nat \<Rightarrow> nat \<Rightarrow> nat" where
  "sort_Search p i j =
     (if i < j then
        (let h = (i + j) div 2 in
         if \<not> p h then sort_Search p (h + 1) j else sort_Search p i h)
      else i)"
  by pat_completeness auto
termination
  by (relation "measure (\<lambda>(p, i, j). j - i)") auto

declare sort_Search.simps [simp del]

definition sdb_RevertToSnapshot :: "StateDB \<Rightarrow> nat \<Rightarrow> StateDB option" where
  "sdb_RevertToSnapshot d revid =
     (let revs = validRevisions d;
          idx = sort_Search (\<lambda>i. fst (revs ! i) \<ge> revid) 0 (length revs)
      in if idx = length revs \<or> fst (revs ! idx) \<noteq> revid then None
         else do {
           d \<leftarrow> journal_revert d (snd (revs ! idx));
           Some (d\<lparr>validRevisions := take idx revs\<rparr>)
         })"

section \<open>Getters\<close>

definition sdb_Empty :: "StateDB \<Rightarrow> address \<Rightarrow> bool \<times> StateDB" where
  "sdb_Empty d a =
     (let (ob, d) = getStateObject d a
      in ((case ob of None \<Rightarrow> True | Some ob \<Rightarrow> so_empty (sdb_db d) ob), d))"

definition sdb_Exist :: "StateDB \<Rightarrow> address \<Rightarrow> bool \<times> StateDB" where
  "sdb_Exist d a = (let (ob, d) = getStateObject d a in (ob \<noteq> None, d))"

definition sdb_GetBalance :: "StateDB \<Rightarrow> address \<Rightarrow> int \<times> StateDB" where
  "sdb_GetBalance d a =
     (let (ob, d) = getStateObject d a
      in ((case ob of None \<Rightarrow> 0 | Some ob \<Rightarrow> Balance (so_data ob)), d))"

definition sdb_GetNonce :: "StateDB \<Rightarrow> address \<Rightarrow> uint64 \<times> StateDB" where
  "sdb_GetNonce d a =
     (let (ob, d) = getStateObject d a
      in ((case ob of None \<Rightarrow> StartingNonce (sdb_db d) | Some ob \<Rightarrow> Nonce (so_data ob)), d))"

definition sdb_GetCode :: "StateDB \<Rightarrow> address \<Rightarrow> bytes \<times> StateDB" where
  "sdb_GetCode d a =
     (case getStateObject d a of
        (None, d) \<Rightarrow> ([], d)
      | (Some ob, d) \<Rightarrow> (let (c, ob) = so_Code (sdb_db d) ob in (c, setStateObject d ob)))"

definition sdb_GetCodeSize :: "StateDB \<Rightarrow> address \<Rightarrow> nat \<times> StateDB" where
  "sdb_GetCodeSize d a =
     (case getStateObject d a of
        (None, d) \<Rightarrow> (0, d)
      | (Some ob, d) \<Rightarrow>
          if so_code ob \<noteq> [] then (length (so_code ob), d)
          else (case ContractCodeSize (sdb_db d) (acct_CodeHash (so_data ob)) of
                  Some n \<Rightarrow> (n, d)
                | None \<Rightarrow> (0, d\<lparr>sdb_dbErr := True\<rparr>)))"

definition sdb_GetCodeHash :: "StateDB \<Rightarrow> address \<Rightarrow> hash \<times> StateDB" where
  "sdb_GetCodeHash d a =
     (let (ob, d) = getStateObject d a
      in ((case ob of None \<Rightarrow> 0 | Some ob \<Rightarrow> acct_CodeHash (so_data ob)), d))"

definition sdb_GetState :: "StateDB \<Rightarrow> address \<Rightarrow> hash \<Rightarrow> hash \<times> StateDB" where
  "sdb_GetState d a k =
     (case getStateObject d a of
        (None, d) \<Rightarrow> (0, d)
      | (Some ob, d) \<Rightarrow> (let (v, ob) = so_GetState (sdb_db d) ob k in (v, setStateObject d ob)))"

definition sdb_HasSuicided :: "StateDB \<Rightarrow> address \<Rightarrow> bool \<times> StateDB" where
  "sdb_HasSuicided d a =
     (let (ob, d) = getStateObject d a
      in ((case ob of None \<Rightarrow> False | Some ob \<Rightarrow> suicided ob), d))"

definition sdb_GetRefund :: "StateDB \<Rightarrow> int" where
  "sdb_GetRefund d = refund d"

definition sdb_GetLogs :: "StateDB \<Rightarrow> hash \<Rightarrow> Log list" where
  "sdb_GetLogs d h = (case logs d h of Some ls \<Rightarrow> ls | None \<Rightarrow> [])"

section \<open>Setters\<close>

definition sdb_StartRecord :: "StateDB \<Rightarrow> hash \<Rightarrow> hash \<Rightarrow> nat \<Rightarrow> StateDB" where
  "sdb_StartRecord d th bh ti = d\<lparr>thash := th, bhash := bh, txIndex := ti\<rparr>"

definition sdb_AddLog :: "StateDB \<Rightarrow> Log \<Rightarrow> StateDB" where
  "sdb_AddLog d log =
     (let d = journal_append d (addLogChange (thash d));
          log = log\<lparr>TxHash := thash d, BlockHash := bhash d, TxIndex := txIndex d,
                    Log_Index := logSize d\<rparr>
      in d\<lparr>logs := (logs d)(thash d \<mapsto> sdb_GetLogs d (thash d) @ [log]), logSize := logSize d + 1\<rparr>)"

definition sdb_AddRefund :: "StateDB \<Rightarrow> int \<Rightarrow> StateDB" where
  "sdb_AddRefund d gas =
     (let d = journal_append d (refundChange (refund d)) in d\<lparr>refund := refund d + gas\<rparr>)"

text \<open>A new object; \<^verbatim>\<open>newObject\<close> replaces the nil balance and code hash of an empty account.\<close>

definition createObject :: "StateDB \<Rightarrow> address \<Rightarrow> StateObject \<times> StateObject option \<times> StateDB" where
  "createObject d a =
     (let (prev, d) = getStateObject d a;
          newobj = newObject a
            \<lparr>Nonce = 0, Balance = 0, Root = 0, acct_CodeHash = Keccak256 (sdb_db d) []\<rparr>;
          newobj = so_setNonce newobj (StartingNonce (sdb_db d));
          d = journal_append d (case prev of
                None \<Rightarrow> createObjectChange a | Some ob \<Rightarrow> resetObjectChange ob)
      in (newobj, prev, setStateObject d newobj))"

definition GetOrNewStateObject :: "StateDB \<Rightarrow> address \<Rightarrow> StateObject \<times> StateDB" where
  "GetOrNewStateObject d a =
     (case getStateObject d a of
        (Some ob, d) \<Rightarrow> (ob, d)
      | (None, d) \<Rightarrow> (let (ob, _, d) = createObject d a in (ob, d)))"

definition sdb_CreateAccount :: "StateDB \<Rightarrow> address \<Rightarrow> StateDB" where
  "sdb_CreateAccount d a =
     (let (new, prev, d) = createObject d a in
      case prev of
        None \<Rightarrow> d
      | Some p \<Rightarrow> setStateObject d (so_setBalance new (Balance (so_data p))))"

definition sdb_AddBalance :: "StateDB \<Rightarrow> address \<Rightarrow> int \<Rightarrow> StateDB" where
  "sdb_AddBalance d a v = (let (ob, d) = GetOrNewStateObject d a in so_AddBalance d ob v)"

definition sdb_SetBalance :: "StateDB \<Rightarrow> address \<Rightarrow> int \<Rightarrow> StateDB" where
  "sdb_SetBalance d a v = (let (ob, d) = GetOrNewStateObject d a in so_SetBalance d ob v)"

definition sdb_SetNonce :: "StateDB \<Rightarrow> address \<Rightarrow> uint64 \<Rightarrow> StateDB" where
  "sdb_SetNonce d a n = (let (ob, d) = GetOrNewStateObject d a in so_SetNonce d ob n)"

definition sdb_SetCode :: "StateDB \<Rightarrow> address \<Rightarrow> bytes \<Rightarrow> StateDB" where
  "sdb_SetCode d a code =
     (let (ob, d) = GetOrNewStateObject d a in so_SetCode d ob (Keccak256 (sdb_db d) code) code)"

definition sdb_SetState :: "StateDB \<Rightarrow> address \<Rightarrow> hash \<Rightarrow> hash \<Rightarrow> StateDB" where
  "sdb_SetState d a k v = (let (ob, d) = GetOrNewStateObject d a in so_SetState d ob k v)"

definition sdb_Suicide :: "StateDB \<Rightarrow> address \<Rightarrow> bool \<times> StateDB" where
  "sdb_Suicide d a =
     (case getStateObject d a of
        (None, d) \<Rightarrow> (False, d)
      | (Some ob, d) \<Rightarrow>
          (let d = journal_append d (suicideChange a (suicided ob) (Balance (so_data ob)))
           in (True, setStateObject d (so_setBalance (ob\<lparr>suicided := True\<rparr>) 0))))"

text \<open>
  The methods of an account that \<^verbatim>\<open>GetAccount\<close> returned, which is nil when there is none: \<^verbatim>\<open>SubBalance\<close> of 0
  returns before it uses the object.
\<close>

definition obj_SubBalance :: "StateDB \<Rightarrow> address \<Rightarrow> int \<Rightarrow> StateDB option" where
  "obj_SubBalance d a v =
     (if big_Sign v = 0 then Some d
      else (case getStateObject d a of
              (None, d) \<Rightarrow> None | (Some ob, d) \<Rightarrow> Some (so_SubBalance d ob v)))"

definition obj_AddBalance :: "StateDB \<Rightarrow> address \<Rightarrow> int \<Rightarrow> StateDB option" where
  "obj_AddBalance d a v =
     (case getStateObject d a of
        (None, d) \<Rightarrow> None | (Some ob, d) \<Rightarrow> Some (so_AddBalance d ob v))"

definition stateDB_ops :: "StateDB Database" where
  "stateDB_ops =
     \<lparr>db_GetBalance = sdb_GetBalance, db_AddBalance = sdb_AddBalance, db_GetNonce = sdb_GetNonce,
      db_SetNonce = sdb_SetNonce, db_GetCodeHash = sdb_GetCodeHash, db_GetCodeSize = sdb_GetCodeSize,
      db_GetCode = sdb_GetCode, db_SetCode = sdb_SetCode, db_AddRefund = sdb_AddRefund,
      db_GetRefund = sdb_GetRefund, db_GetState = sdb_GetState, db_SetState = sdb_SetState,
      db_Suicide = sdb_Suicide, db_HasSuicided = sdb_HasSuicided, db_Exist = sdb_Exist,
      db_Empty = sdb_Empty, db_CreateAccount = sdb_CreateAccount, acct_SubBalance = obj_SubBalance,
      acct_AddBalance = obj_AddBalance, db_AddLog = sdb_AddLog, db_Snapshot = sdb_Snapshot,
      db_RevertToSnapshot = sdb_RevertToSnapshot\<rparr>"

section \<open>Copying and finishing a transaction\<close>

definition clearJournalAndRefund :: "StateDB \<Rightarrow> StateDB" where
  "clearJournalAndRefund d = d\<lparr>entries := [], dirties := Map.empty, validRevisions := [], refund := 0\<rparr>"

definition updateStateObject :: "StateDB \<Rightarrow> StateObject \<Rightarrow> StateDB" where
  "updateStateObject d ob = d\<lparr>sdb_trie := (sdb_trie d)(so_address ob \<mapsto> so_data ob)\<rparr>"

definition deleteStateObject :: "StateDB \<Rightarrow> StateObject \<Rightarrow> StateDB" where
  "deleteStateObject d ob =
     (let d = setStateObject d (ob\<lparr>deleted := True\<rparr>)
      in d\<lparr>sdb_trie := (sdb_trie d)(so_address ob := None)\<rparr>)"

text \<open>One iteration of the loop of \<^verbatim>\<open>Finalise\<close>.\<close>

definition finalise_one :: "bool \<Rightarrow> address \<Rightarrow> StateDB \<Rightarrow> StateDB" where
  "finalise_one deleteEmptyObjects a d =
     (case stateObjects d a of
        None \<Rightarrow> d
      | Some ob \<Rightarrow>
          (let d = (if suicided ob \<or> (deleteEmptyObjects \<and> so_empty (sdb_db d) ob)
                    then deleteStateObject d ob
                    else (let ob = updateRoot (sdb_db d) ob
                          in updateStateObject (setStateObject d ob) ob))
           in d\<lparr>stateObjectsDirty := insert a (stateObjectsDirty d)\<rparr>))"

text \<open>\<^verbatim>\<open>Finalise\<close>; \<open>order\<close> is the order in which the Go map \<^verbatim>\<open>dirties\<close> is iterated.\<close>

definition sdb_Finalise :: "address list \<Rightarrow> bool \<Rightarrow> StateDB \<Rightarrow> StateDB" where
  "sdb_Finalise order deleteEmptyObjects d =
     clearJournalAndRefund (fold (finalise_one deleteEmptyObjects) order d)"

text \<open>
  \<^verbatim>\<open>Copy\<close>. The first loop copies the objects of the dirty accounts and dereferences nil when an account
  is dirty without an object.
\<close>

definition sdb_Copy :: "StateDB \<Rightarrow> StateDB option" where
  "sdb_Copy d =
     (if \<exists>a. dirties d a \<noteq> None \<and> stateObjects d a = None then None
      else if \<exists>a \<in> stateObjectsDirty d. dirties d a = None \<and> stateObjects d a = None then None
      else
        (let dirty = {a. dirties d a \<noteq> None} \<union> stateObjectsDirty d
         in Some \<lparr>sdb_db = sdb_db d, sdb_trie = sdb_trie d, sdb_dbErr = False,
              stateObjects = (\<lambda>a. if a \<in> dirty then map_option deepCopy (stateObjects d a) else None),
              stateObjectsDirty = dirty, refund = refund d, thash = 0, bhash = 0, txIndex = 0,
              logs = logs d, logSize = logSize d, entries = [], dirties = Map.empty,
              validRevisions = [], nextRevisionId = 0, preimages = preimages d\<rparr>))"

end
