(* ===== verification/State_Refinement.thy ===== *)
theory State_Refinement
  imports State
begin

text \<open>
  The state database implements the world interface. \<open>sdb_view\<close> is the world that the getters see; the
  caches of loaded objects, tries, codes and storage entries do not show in it. Undoing a journal
  entry is a function of the world (\<open>w_revert\<close>), which gives the theorem on snapshots: whatever
  journalled changes were made since, a revert succeeds and restores the world.
\<close>

section \<open>The world seen through a state database\<close>

definition code_of :: "Backend \<Rightarrow> bytes \<Rightarrow> hash \<Rightarrow> bytes" where
  "code_of b c h =
     (if c \<noteq> [] then c else if h = Keccak256 b [] then []
      else case ContractCode b h of Some c \<Rightarrow> c | None \<Rightarrow> [])"

definition so_view :: "Backend \<Rightarrow> StateObject \<Rightarrow> account" where
  "so_view b ob =
     \<lparr>a_nonce = Nonce (so_data ob), a_balance = Balance (so_data ob),
      a_codeHash = acct_CodeHash (so_data ob),
      a_code = code_of b (so_code ob) (acct_CodeHash (so_data ob)),
      a_storage = (\<lambda>k. fst (so_GetState b ob k)), a_suicided = suicided ob\<rparr>"

definition trie_view :: "Backend \<Rightarrow> (address \<rightharpoonup> Account) \<Rightarrow> address \<rightharpoonup> account" where
  "trie_view b t a = map_option (\<lambda>data. so_view b (newObject a data)) (t a)"

definition sdb_accts :: "StateDB \<Rightarrow> address \<rightharpoonup> account" where
  "sdb_accts d a =
     (case stateObjects d a of
        Some ob \<Rightarrow> if deleted ob then None else Some (so_view (sdb_db d) ob)
      | None \<Rightarrow> trie_view (sdb_db d) (sdb_trie d) a)"

definition sdb_view :: "StateDB \<Rightarrow> world" where
  "sdb_view d =
     \<lparr>w_accts = sdb_accts d, w_refund = refund d, w_logs = sdb_GetLogs d, w_logSize = logSize d,
      w_thash = thash d, w_bhash = bhash d, w_txIndex = txIndex d\<rparr>"

text \<open>A newly created account.\<close>

definition fresh_account :: "Backend \<Rightarrow> account" where
  "fresh_account b =
     \<lparr>a_nonce = StartingNonce b, a_balance = 0, a_codeHash = Keccak256 b [], a_code = [],
      a_storage = (\<lambda>_. 0), a_suicided = False\<rparr>"

text \<open>
  What is relied on of the backend: the zero root is the empty trie, and no code but the empty one
  is stored under the hash of the empty code.
\<close>

definition backend_ok :: "Backend \<Rightarrow> bool" where
  "backend_ok b \<longleftrightarrow> OpenStorageTrie b 0 = Some Map.empty \<and>
     (\<forall>c. ContractCode b (Keccak256 b []) = Some c \<longrightarrow> c = [])"

definition entry_ok :: "journalEntry \<Rightarrow> bool" where
  "entry_ok e \<longleftrightarrow> (case e of resetObjectChange ob \<Rightarrow> \<not> deleted ob | _ \<Rightarrow> True)"

text \<open>
  An entry that changes no account or only the account \<open>a\<close>, and a deleted object: it is in no trie, and no change
  of it waits in the journal.
\<close>

definition entry_for :: "address \<Rightarrow> journalEntry \<Rightarrow> bool" where
  "entry_for a e \<longleftrightarrow> entry_ok e \<and> (dirtied e = None \<or> dirtied e = Some a)"

definition gone :: "StateDB \<Rightarrow> address \<Rightarrow> bool" where
  "gone d a \<longleftrightarrow> sdb_trie d a = None \<and> dirties d a = None \<and> (\<forall>e\<in>set (entries d). dirtied e \<noteq> Some a)"

definition objects_ok :: "StateDB \<Rightarrow> bool" where
  "objects_ok d \<longleftrightarrow>
     (\<forall>a ob. stateObjects d a = Some ob \<longrightarrow> so_address ob = a \<and> (deleted ob \<longrightarrow> gone d a))"

lemma gone_cong:
  "sdb_trie d' = sdb_trie d \<Longrightarrow> dirties d' = dirties d \<Longrightarrow> entries d' = entries d \<Longrightarrow> gone d' a = gone d a"
  by (simp add: gone_def)

definition revisions_ok :: "StateDB \<Rightarrow> bool" where
  "revisions_ok d \<longleftrightarrow> sorted_wrt (\<lambda>x y. fst x < fst y) (validRevisions d) \<and>
     (\<forall>(i, n) \<in> set (validRevisions d). i < nextRevisionId d \<and> n \<le> length (entries d))"

definition sdb_core :: "Backend \<Rightarrow> StateDB \<Rightarrow> bool" where
  "sdb_core b d \<longleftrightarrow> sdb_db d = b \<and> backend_ok b \<and> objects_ok d \<and> list_all entry_ok (entries d)"

definition sdb_inv :: "Backend \<Rightarrow> StateDB \<Rightarrow> bool" where
  "sdb_inv b d \<longleftrightarrow> sdb_core b d \<and> revisions_ok d"

section \<open>Caches are not observable\<close>

lemma getTrie_fst_snd: "fst (getTrie b (snd (getTrie b ob))) = fst (getTrie b ob)"
  by (auto simp: getTrie_def Let_def split: option.splits)

lemma cachedStorage_getTrie [simp]: "cachedStorage (snd (getTrie b ob)) = cachedStorage ob"
  by (auto simp: getTrie_def Let_def split: option.splits)

lemma getTrie_same_fields [simp]:
  "so_data (snd (getTrie b ob)) = so_data ob" "so_code (snd (getTrie b ob)) = so_code ob"
  "suicided (snd (getTrie b ob)) = suicided ob" "deleted (snd (getTrie b ob)) = deleted ob"
  "so_address (snd (getTrie b ob)) = so_address ob"
  by (auto simp: getTrie_def Let_def split: option.splits)

definition lookup_storage :: "storage \<Rightarrow> storage \<Rightarrow> hash \<Rightarrow> hash" where
  "lookup_storage c t k =
     (case c k of Some v \<Rightarrow> v | None \<Rightarrow> (case t k of Some v \<Rightarrow> v | None \<Rightarrow> 0))"

lemma fst_so_GetState:
  "fst (so_GetState b ob k) = lookup_storage (cachedStorage ob) (fst (getTrie b ob)) k"
  by (auto simp: so_GetState_def lookup_storage_def Let_def split: option.splits prod.splits)

lemma getTrie_cached_irrelevant [simp]:
  "fst (getTrie b (ob\<lparr>cachedStorage := m\<rparr>)) = fst (getTrie b ob)"
  by (auto simp: getTrie_def Let_def split: option.splits)

lemma snd_so_GetState:
  "snd (so_GetState b ob k) =
     (if cachedStorage ob k \<noteq> None then ob
      else let ob' = snd (getTrie b ob); v = fst (so_GetState b ob k) in
          if v \<noteq> 0 then ob'\<lparr>cachedStorage := (cachedStorage ob')(k \<mapsto> v)\<rparr> else ob')"
  using cachedStorage_getTrie [of b ob]
  by (auto simp: so_GetState_def Let_def split: option.splits prod.splits simp del: cachedStorage_getTrie)

lemma so_GetState_cache: "fst (so_GetState b (snd (so_GetState b ob k)) k') = fst (so_GetState b ob k')"
  by (auto simp: snd_so_GetState fst_so_GetState getTrie_fst_snd lookup_storage_def Let_def
      split: option.splits)

lemma so_GetState_same_fields [simp]:
  "so_data (snd (so_GetState b ob k)) = so_data ob" "so_code (snd (so_GetState b ob k)) = so_code ob"
  "suicided (snd (so_GetState b ob k)) = suicided ob" "deleted (snd (so_GetState b ob k)) = deleted ob"
  "so_address (snd (so_GetState b ob k)) = so_address ob"
  by (auto simp: snd_so_GetState Let_def split: option.splits)

lemma so_view_GetState [simp]: "so_view b (snd (so_GetState b ob k)) = so_view b ob"
  by (simp add: so_view_def so_GetState_cache)

lemma fst_so_Code: "fst (so_Code b ob) = code_of b (so_code ob) (acct_CodeHash (so_data ob))"
  by (auto simp: so_Code_def code_of_def split: option.splits)

lemma so_Code_same_fields [simp]:
  "so_data (snd (so_Code b ob)) = so_data ob" "suicided (snd (so_Code b ob)) = suicided ob"
  "deleted (snd (so_Code b ob)) = deleted ob" "so_address (snd (so_Code b ob)) = so_address ob"
  "cachedStorage (snd (so_Code b ob)) = cachedStorage ob"
  "so_trie (snd (so_Code b ob)) = so_trie ob"
  by (auto simp: so_Code_def split: option.splits)

lemma fst_getTrie_cong:
  "so_trie ob = so_trie ob' \<Longrightarrow> so_data ob = so_data ob' \<Longrightarrow> fst (getTrie b ob) = fst (getTrie b ob')"
  by (auto simp: getTrie_def Let_def split: option.splits)

lemma code_of_so_Code:
  "code_of b (so_code (snd (so_Code b ob))) (acct_CodeHash (so_data ob)) =
   code_of b (so_code ob) (acct_CodeHash (so_data ob))"
  by (auto simp: so_Code_def code_of_def split: option.splits)

lemma so_view_Code [simp]: "so_view b (snd (so_Code b ob)) = so_view b ob"
  by (simp add: so_view_def code_of_so_Code fst_so_GetState
      fst_getTrie_cong [of "snd (so_Code b ob)" ob])

section \<open>Changes of an object in the view\<close>

lemma fst_getTrie_balance [simp]:
  "fst (getTrie b (ob\<lparr>so_data := (so_data ob)\<lparr>Balance := v\<rparr>\<rparr>)) = fst (getTrie b ob)"
  "fst (getTrie b (ob\<lparr>so_data := (so_data ob)\<lparr>Nonce := n\<rparr>\<rparr>)) = fst (getTrie b ob)"
  "fst (getTrie b (ob\<lparr>suicided := s\<rparr>)) = fst (getTrie b ob)"
  by (auto simp: getTrie_def Let_def split: option.splits)

lemma so_view_setBalance: "so_view b (so_setBalance ob v) = (so_view b ob)\<lparr>a_balance := v\<rparr>"
  by (simp add: so_view_def so_setBalance_def fst_so_GetState)

lemma so_view_setNonce: "so_view b (so_setNonce ob n) = (so_view b ob)\<lparr>a_nonce := n\<rparr>"
  by (simp add: so_view_def so_setNonce_def fst_so_GetState)

lemma so_view_suicided: "so_view b (ob\<lparr>suicided := s\<rparr>) = (so_view b ob)\<lparr>a_suicided := s\<rparr>"
  by (simp add: so_view_def fst_so_GetState)

lemma so_view_setState:
  "so_view b (so_setState ob k v) = (so_view b ob)\<lparr>a_storage := (a_storage (so_view b ob))(k := v)\<rparr>"
proof -
  have "fst (getTrie b (so_setState ob k v)) = fst (getTrie b ob)"
    by (rule fst_getTrie_cong) (simp_all add: so_setState_def)
  then show ?thesis
    by (simp add: so_view_def fst_so_GetState) (auto simp: so_setState_def lookup_storage_def)
qed

lemma so_view_setCode:
  "so_view b (so_setCode ob h c) = (so_view b ob)\<lparr>a_codeHash := h, a_code := code_of b c h\<rparr>"
proof -
  have "fst (getTrie b (so_setCode ob h c)) = fst (getTrie b ob)"
    by (auto simp: so_setCode_def getTrie_def Let_def split: option.splits)
  then show ?thesis
    by (simp add: so_view_def fst_so_GetState) (simp add: so_setCode_def)
qed

lemmas so_view_simps =
  so_view_setBalance so_view_setNonce so_view_suicided so_view_setState so_view_setCode

lemma so_set_fields [simp]:
  "so_address (so_setBalance ob v) = so_address ob" "deleted (so_setBalance ob v) = deleted ob"
  "so_address (so_setNonce ob n) = so_address ob" "deleted (so_setNonce ob n) = deleted ob"
  "so_address (so_setState ob k x) = so_address ob" "deleted (so_setState ob k x) = deleted ob"
  "so_address (so_setCode ob h c) = so_address ob" "deleted (so_setCode ob h c) = deleted ob"
  by (simp_all add: so_setBalance_def so_setNonce_def so_setState_def so_setCode_def)

lemma newObject_fields [simp]:
  "so_address (newObject a data) = a" "\<not> deleted (newObject a data)"
  by (simp_all add: newObject_def)

lemma a_fields_so_view [simp]:
  "a_balance (so_view b ob) = Balance (so_data ob)" "a_nonce (so_view b ob) = Nonce (so_data ob)"
  "a_codeHash (so_view b ob) = acct_CodeHash (so_data ob)"
  "a_suicided (so_view b ob) = suicided ob"
  "a_storage (so_view b ob) k = fst (so_GetState b ob k)"
  "a_code (so_view b ob) = fst (so_Code b ob)"
  by (simp_all add: so_view_def fst_so_Code)

section \<open>The view of a database\<close>

lemma sdb_view_simps [simp]:
  "w_accts (sdb_view d) = sdb_accts d" "w_refund (sdb_view d) = refund d"
  "w_logs (sdb_view d) = sdb_GetLogs d" "w_logSize (sdb_view d) = logSize d"
  "w_thash (sdb_view d) = thash d" "w_bhash (sdb_view d) = bhash d" "w_txIndex (sdb_view d) = txIndex d"
  by (simp_all add: sdb_view_def)

lemma sdb_view_eqI:
  "sdb_accts d' = sdb_accts d \<Longrightarrow> refund d' = refund d \<Longrightarrow> logs d' = logs d \<Longrightarrow> logSize d' = logSize d \<Longrightarrow>
   thash d' = thash d \<Longrightarrow> bhash d' = bhash d \<Longrightarrow> txIndex d' = txIndex d \<Longrightarrow> sdb_view d' = sdb_view d"
  by (simp add: sdb_view_def sdb_GetLogs_def fun_eq_iff)

text \<open>Everything but the objects; a load or a change of an object keeps it.\<close>

lemma setStateObject_fields [simp]:
  "sdb_db (setStateObject d ob) = sdb_db d" "sdb_trie (setStateObject d ob) = sdb_trie d"
  "refund (setStateObject d ob) = refund d" "logs (setStateObject d ob) = logs d"
  "logSize (setStateObject d ob) = logSize d" "thash (setStateObject d ob) = thash d"
  "bhash (setStateObject d ob) = bhash d" "txIndex (setStateObject d ob) = txIndex d"
  "entries (setStateObject d ob) = entries d" "dirties (setStateObject d ob) = dirties d"
  "validRevisions (setStateObject d ob) = validRevisions d"
  "nextRevisionId (setStateObject d ob) = nextRevisionId d"
  "stateObjects (setStateObject d ob) = (stateObjects d)(so_address ob \<mapsto> ob)"
  by (simp_all add: setStateObject_def)

lemma journal_append_fields [simp]:
  "sdb_db (journal_append d e) = sdb_db d" "sdb_trie (journal_append d e) = sdb_trie d"
  "refund (journal_append d e) = refund d" "logs (journal_append d e) = logs d"
  "logSize (journal_append d e) = logSize d" "thash (journal_append d e) = thash d"
  "bhash (journal_append d e) = bhash d" "txIndex (journal_append d e) = txIndex d"
  "entries (journal_append d e) = e # entries d"
  "validRevisions (journal_append d e) = validRevisions d"
  "nextRevisionId (journal_append d e) = nextRevisionId d"
  "stateObjects (journal_append d e) = stateObjects d"
  by (simp_all add: journal_append_def journal_dirty_def Let_def split: option.split)

lemma sdb_accts_cong:
  "sdb_db d' = sdb_db d \<Longrightarrow> sdb_trie d' = sdb_trie d \<Longrightarrow> stateObjects d' = stateObjects d \<Longrightarrow>
   sdb_accts d' = sdb_accts d"
  by (rule ext) (simp add: sdb_accts_def split: option.split)

lemma sdb_accts_setStateObject [simp]:
  "\<not> deleted ob \<Longrightarrow>
   sdb_accts (setStateObject d ob) = (sdb_accts d)(so_address ob \<mapsto> so_view (sdb_db d) ob)"
  by (rule ext) (simp add: sdb_accts_def split: option.split)

lemma sdb_accts_journal_append [simp]: "sdb_accts (journal_append d e) = sdb_accts d"
  by (rule sdb_accts_cong) simp_all

lemma getStateObject_None:
  "getStateObject d a = (None, d') \<Longrightarrow> d' = d \<and> sdb_accts d a = None"
  by (auto simp: getStateObject_def sdb_accts_def trie_view_def Let_def split: option.splits if_splits)

lemma getStateObject_Some:
  assumes "getStateObject d a = (Some ob, d')" "objects_ok d"
  shows "so_address ob = a" "\<not> deleted ob" "stateObjects d' a = Some ob"
    "sdb_accts d a = Some (so_view (sdb_db d) ob)" "d' = d \<or> d' = setStateObject d ob"
    "sdb_accts d' = sdb_accts d"
proof -
  show *: "so_address ob = a" "\<not> deleted ob" "stateObjects d' a = Some ob"
    "sdb_accts d a = Some (so_view (sdb_db d) ob)" "d' = d \<or> d' = setStateObject d ob"
    using assms
    by (auto simp: getStateObject_def sdb_accts_def trie_view_def objects_ok_def Let_def
        split: option.splits if_splits)
  then show "sdb_accts d' = sdb_accts d" by auto
qed

lemma dirties_setStateObject [simp]: "dirties (setStateObject d ob) = dirties d"
  by (simp add: setStateObject_def)

lemma setStateObject_core:
  "sdb_core b d \<Longrightarrow> \<not> deleted ob \<Longrightarrow> sdb_core b (setStateObject d ob)"
  by (auto simp: sdb_core_def objects_ok_def gone_def)

lemma dirties_journal_append [simp]: "dirtied e \<noteq> Some a \<Longrightarrow> dirties (journal_append d e) a = dirties d a"
  by (auto simp: journal_append_def journal_dirty_def Let_def split: option.split)

lemma journalled_core:
  assumes "sdb_core b d" "entry_for (so_address ob) e" "\<not> deleted ob"
  shows "sdb_core b (setStateObject (journal_append d e) ob)"
proof -
  have "gone (setStateObject (journal_append d e) ob) a" if "gone d a" "a \<noteq> so_address ob" for a
    using that assms(2) by (auto simp: gone_def entry_for_def)
  with assms show ?thesis by (auto simp: sdb_core_def objects_ok_def entry_for_def)
qed

lemma setStateObject_inv:
  "sdb_inv b d \<Longrightarrow> \<not> deleted ob \<Longrightarrow> sdb_inv b (setStateObject d ob)"
  by (simp add: sdb_inv_def setStateObject_core revisions_ok_def)

lemma journalled_inv:
  "sdb_inv b d \<Longrightarrow> entry_for (so_address ob) e \<Longrightarrow> \<not> deleted ob \<Longrightarrow>
   sdb_inv b (setStateObject (journal_append d e) ob)"
  by (auto simp: sdb_inv_def journalled_core revisions_ok_def)

section \<open>Undoing a change is a function of the world\<close>

definition w_revert :: "Backend \<Rightarrow> (address \<rightharpoonup> Account) \<Rightarrow> journalEntry \<Rightarrow> world \<Rightarrow> world option" where
  "w_revert b t e w =
     (let m = w_accts w;
          upd = (\<lambda>a g. map_option (\<lambda>x. w\<lparr>w_accts := m(a \<mapsto> g x)\<rparr>) (m a))
      in case e of
        createObjectChange a \<Rightarrow> Some (w\<lparr>w_accts := m(a := trie_view b t a)\<rparr>)
      | resetObjectChange ob \<Rightarrow> Some (w\<lparr>w_accts := m(so_address ob \<mapsto> so_view b ob)\<rparr>)
      | suicideChange a p v \<Rightarrow>
          (case m a of None \<Rightarrow> Some w
           | Some x \<Rightarrow> Some (w\<lparr>w_accts := m(a \<mapsto> x\<lparr>a_suicided := p, a_balance := v\<rparr>)\<rparr>))
      | balanceChange a v \<Rightarrow> upd a (\<lambda>x. x\<lparr>a_balance := v\<rparr>)
      | nonceChange a n \<Rightarrow> upd a (\<lambda>x. x\<lparr>a_nonce := n\<rparr>)
      | storageChange a k v \<Rightarrow> upd a (\<lambda>x. x\<lparr>a_storage := (a_storage x)(k := v)\<rparr>)
      | codeChange a c h \<Rightarrow> upd a (\<lambda>x. x\<lparr>a_codeHash := h, a_code := code_of b c h\<rparr>)
      | refundChange v \<Rightarrow> Some (w\<lparr>w_refund := v\<rparr>)
      | addLogChange h \<Rightarrow>
          (if w_logs w h = [] then None
           else Some (w\<lparr>w_logs := (w_logs w)(h := butlast (w_logs w h)), w_logSize := w_logSize w - 1\<rparr>))
      | addPreimageChange h \<Rightarrow> Some w
      | touchChange a \<Rightarrow> Some w)"

text \<open>What taking an entry back keeps of a database.\<close>

definition same_base :: "StateDB \<Rightarrow> StateDB \<Rightarrow> bool" where
  "same_base d d' \<longleftrightarrow> sdb_db d' = sdb_db d \<and> sdb_trie d' = sdb_trie d \<and> entries d' = entries d \<and>
     validRevisions d' = validRevisions d \<and> nextRevisionId d' = nextRevisionId d"

lemma revert_object_refines:
  assumes "sdb_core b d" "sdb_accts d a = Some x"
    and view: "\<And>ob. so_view b (g ob) = h (so_view b ob)"
    and g: "\<And>ob. so_address (g ob) = so_address ob" "\<And>ob. deleted (g ob) = deleted ob"
  shows "\<exists>d'. revert_object d a g = Some d' \<and> sdb_core b d' \<and> same_base d d' \<and>
    sdb_view d' = (sdb_view d)\<lparr>w_accts := (sdb_accts d)(a \<mapsto> h x)\<rparr>"
proof -
  obtain r d1 where get: "getStateObject d a = (r, d1)" by fastforce
  with assms(2) obtain ob where "r = Some ob"
    using getStateObject_None by (cases r) fastforce+
  with get assms(1) have *: "getStateObject d a = (Some ob, d1)" "objects_ok d" "sdb_db d = b"
    by (auto simp: sdb_core_def)
  note ob = getStateObject_Some [OF *(1,2)]
  from ob assms(1) have "sdb_core b d1" by (metis setStateObject_core)
  with ob * assms(2) g view show ?thesis
    by (auto simp: revert_object_def same_base_def sdb_view_def sdb_GetLogs_def fun_eq_iff
        intro!: setStateObject_core)
qed

lemma undirty_fields [simp]:
  "sdb_db (undirty d e) = sdb_db d" "sdb_trie (undirty d e) = sdb_trie d"
  "stateObjects (undirty d e) = stateObjects d" "entries (undirty d e) = entries d"
  "refund (undirty d e) = refund d" "logs (undirty d e) = logs d"
  "logSize (undirty d e) = logSize d" "thash (undirty d e) = thash d"
  "bhash (undirty d e) = bhash d" "txIndex (undirty d e) = txIndex d"
  "validRevisions (undirty d e) = validRevisions d" "nextRevisionId (undirty d e) = nextRevisionId d"
  by (simp_all add: undirty_def Let_def split: option.split)

text \<open>\<open>reverts_to b d e w\<close>: taking back \<open>e\<close> succeeds, keeps the invariant, and shows the world \<open>w\<close>.\<close>

definition reverts_to :: "Backend \<Rightarrow> StateDB \<Rightarrow> journalEntry \<Rightarrow> world \<Rightarrow> bool" where
  "reverts_to b d e w \<longleftrightarrow>
     (\<exists>d'. entry_revert e d = Some d' \<and> sdb_core b d' \<and> same_base d d' \<and> sdb_view d' = w)"

lemma sdb_GetLogs_cong: "logs d' = logs d \<Longrightarrow> sdb_GetLogs d' = sdb_GetLogs d"
  by (simp add: sdb_GetLogs_def fun_eq_iff)

lemma revert_createObject:
  assumes inv: "sdb_core b d"
    and w: "w_revert b (sdb_trie d) (createObjectChange a) (sdb_view d) = Some w"
  shows "reverts_to b d (createObjectChange a) w"
proof -
  let ?d = "d\<lparr>stateObjects := (stateObjects d)(a := None), stateObjectsDirty := stateObjectsDirty d - {a}\<rparr>"
  have "sdb_accts ?d = (sdb_accts d)(a := trie_view b (sdb_trie d) a)"
    using inv by (intro ext) (simp add: sdb_accts_def sdb_core_def split: option.split)
  moreover have "sdb_core b ?d"
    using inv by (auto simp: sdb_core_def objects_ok_def gone_def)
  moreover have "sdb_GetLogs ?d = sdb_GetLogs d" by (rule sdb_GetLogs_cong) simp
  ultimately show ?thesis
    using w by (simp add: reverts_to_def entry_revert_def w_revert_def same_base_def sdb_view_def)
qed

lemma revert_resetObject:
  assumes inv: "sdb_core b d" and "\<not> deleted ob"
    and w: "w_revert b (sdb_trie d) (resetObjectChange ob) (sdb_view d) = Some w"
  shows "reverts_to b d (resetObjectChange ob) w"
proof -
  have "sdb_db d = b" using inv by (simp add: sdb_core_def)
  moreover have "sdb_GetLogs (setStateObject d ob) = sdb_GetLogs d" by (rule sdb_GetLogs_cong) simp
  ultimately show ?thesis
    using assms setStateObject_core [OF assms(1,2)]
    by (simp add: reverts_to_def entry_revert_def w_revert_def same_base_def sdb_view_def)
qed

lemma revert_suicide:
  assumes inv: "sdb_core b d"
    and w: "w_revert b (sdb_trie d) (suicideChange a p v) (sdb_view d) = Some w"
  shows "reverts_to b d (suicideChange a p v) w"
proof -
  obtain r d1 where get: "getStateObject d a = (r, d1)" by fastforce
  show ?thesis
  proof (cases r)
    case None
    with get getStateObject_None [of d a d1] inv w show ?thesis
      by (auto simp: reverts_to_def entry_revert_def w_revert_def same_base_def)
  next
    case (Some ob)
    with get inv have *: "getStateObject d a = (Some ob, d1)" "objects_ok d" "sdb_db d = b"
      by (auto simp: sdb_core_def)
    note ob = getStateObject_Some [OF *(1,2)]
    let ?ob = "so_setBalance (ob\<lparr>suicided := p\<rparr>) v"
    from ob inv have "sdb_core b d1" by (metis setStateObject_core)
    with ob have "sdb_core b (setStateObject d1 ?ob)" by (simp add: setStateObject_core)
    moreover from ob have "sdb_GetLogs (setStateObject d1 ?ob) = sdb_GetLogs d"
      by (intro sdb_GetLogs_cong) auto
    ultimately show ?thesis
      using ob * w
      by (auto simp: reverts_to_def entry_revert_def w_revert_def same_base_def sdb_view_def
          so_view_setBalance so_view_suicided)
  qed
qed

text \<open>Changes of one field of an account.\<close>

lemma revert_account:
  assumes inv: "sdb_core b d"
    and w: "w_revert b (sdb_trie d) e (sdb_view d) = Some w"
    and e: "entry_revert e d = revert_object d a g"
      "w_revert b (sdb_trie d) e (sdb_view d) =
         map_option (\<lambda>x. (sdb_view d)\<lparr>w_accts := (sdb_accts d)(a \<mapsto> h x)\<rparr>) (sdb_accts d a)"
    and g: "\<And>ob. so_view b (g ob) = h (so_view b ob)"
      "\<And>ob. so_address (g ob) = so_address ob" "\<And>ob. deleted (g ob) = deleted ob"
  shows "reverts_to b d e w"
proof -
  from w e(2) obtain x where "sdb_accts d a = Some x"
      and "w = (sdb_view d)\<lparr>w_accts := (sdb_accts d)(a \<mapsto> h x)\<rparr>"
    by auto
  with revert_object_refines [OF inv, of a x g h] g e(1) show ?thesis
    by (simp add: reverts_to_def)
qed

text \<open>Changes of a field of the database.\<close>

lemma revert_field:
  assumes inv: "sdb_core b d"
    and "entry_revert e d = Some d'" "same_base d d'" "stateObjects d' = stateObjects d"
    and "dirties d' = dirties d" "thash d' = thash d" "bhash d' = bhash d" "txIndex d' = txIndex d"
    and w: "w = (sdb_view d)\<lparr>w_refund := refund d', w_logs := sdb_GetLogs d', w_logSize := logSize d'\<rparr>"
  shows "reverts_to b d e w"
proof -
  have "sdb_accts d' = sdb_accts d"
    using assms(3,4) by (intro sdb_accts_cong) (simp_all add: same_base_def)
  moreover have "sdb_core b d'"
    using assms by (simp add: same_base_def sdb_core_def objects_ok_def gone_def)
  ultimately show ?thesis
    using assms(2-8) w by (simp add: reverts_to_def sdb_view_def)
qed

lemma revert_addLog:
  assumes inv: "sdb_core b d"
    and w: "w_revert b (sdb_trie d) (addLogChange h) (sdb_view d) = Some w"
  shows "reverts_to b d (addLogChange h) w"
proof -
  let ?ls = "sdb_GetLogs d h"
  from w have ne: "?ls \<noteq> []"
      and w': "w = (sdb_view d)\<lparr>w_logs := (sdb_GetLogs d)(h := butlast ?ls), w_logSize := logSize d - 1\<rparr>"
    by (auto simp: w_revert_def split: if_splits)
  define d' where "d' = d\<lparr>logs := (if length ?ls = 1 then (logs d)(h := None)
      else (logs d)(h \<mapsto> take (length ?ls - 1) ?ls)), logSize := logSize d - 1\<rparr>"
  have logs: "sdb_GetLogs d' = (sdb_GetLogs d)(h := butlast ?ls)"
    using ne by (auto simp: d'_def sdb_GetLogs_def fun_eq_iff butlast_conv_take length_Suc_conv)
  have "entry_revert (addLogChange h) d = Some d'"
    using ne by (simp add: d'_def entry_revert_def sdb_GetLogs_def Let_def)
  moreover have "same_base d d'" "stateObjects d' = stateObjects d" "dirties d' = dirties d" "thash d' = thash d"
      "bhash d' = bhash d" "txIndex d' = txIndex d" "refund d' = refund d" "logSize d' = logSize d - 1"
    by (simp_all add: d'_def same_base_def)
  ultimately show ?thesis
    by (intro revert_field [OF inv, where d' = d']) (simp_all add: w' logs sdb_view_def)
qed

lemma entry_revert_refines:
  assumes inv: "sdb_core b d" and e: "entry_ok e"
    and w: "w_revert b (sdb_trie d) e (sdb_view d) = Some w"
  shows "reverts_to b d e w"
proof (cases e)
  case (balanceChange a v)
  then show ?thesis
    by (intro revert_account [OF inv w, where a = a and g = "\<lambda>ob. so_setBalance ob v" and h = "\<lambda>x. x\<lparr>a_balance := v\<rparr>"])
      (simp_all add: entry_revert_def w_revert_def Let_def so_view_setBalance)
next
  case (nonceChange a n)
  then show ?thesis
    by (intro revert_account [OF inv w, where a = a and g = "\<lambda>ob. so_setNonce ob n" and h = "\<lambda>x. x\<lparr>a_nonce := n\<rparr>"])
      (simp_all add: entry_revert_def w_revert_def Let_def so_view_setNonce)
next
  case (storageChange a k v)
  then show ?thesis
    by (intro revert_account [OF inv w, where a = a and g = "\<lambda>ob. so_setState ob k v"
          and h = "\<lambda>x. x\<lparr>a_storage := (a_storage x)(k := v)\<rparr>"])
      (simp_all add: entry_revert_def w_revert_def Let_def so_view_setState)
next
  case (codeChange a c h)
  then show ?thesis
    by (intro revert_account [OF inv w, where a = a and g = "\<lambda>ob. so_setCode ob h c" and h = "\<lambda>x. x\<lparr>a_codeHash := h, a_code := code_of b c h\<rparr>"])
      (simp_all add: entry_revert_def w_revert_def Let_def so_view_setCode)
next
  case (refundChange v)
  with w show ?thesis
    by (intro revert_field [OF inv, where d' = "d\<lparr>refund := v\<rparr>"])
      (auto simp: entry_revert_def w_revert_def same_base_def sdb_view_def sdb_GetLogs_def [abs_def])
next
  case (addPreimageChange h)
  with w show ?thesis
    by (intro revert_field [OF inv, where d' = "d\<lparr>preimages := (preimages d)(h := None)\<rparr>"])
      (auto simp: entry_revert_def w_revert_def same_base_def sdb_view_def sdb_GetLogs_def [abs_def])
next
  case (touchChange a)
  with w show ?thesis
    by (intro revert_field [OF inv])
      (auto simp: entry_revert_def w_revert_def same_base_def sdb_view_def)
qed (use assms in \<open>auto simp: entry_ok_def
      intro: revert_createObject revert_resetObject revert_suicide revert_addLog\<close>)

section \<open>Snapshots\<close>

text \<open>Taking back a list of entries, newest first.\<close>

primrec w_unwind ::
  "Backend \<Rightarrow> (address \<rightharpoonup> Account) \<Rightarrow> journalEntry list \<Rightarrow> world \<Rightarrow> world option" where
  "w_unwind b t [] w = Some w"
| "w_unwind b t (e # es) w = Option.bind (w_revert b t e w) (w_unwind b t es)"

lemma w_unwind_append:
  "w_unwind b t (es @ es') w = Option.bind (w_unwind b t es w) (w_unwind b t es')"
  by (induction es arbitrary: w) (auto split: Option.bind_splits)

lemma journal_undo_refines:
  assumes "sdb_core b d" "entries d = es @ rest" "w_unwind b (sdb_trie d) es (sdb_view d) = Some w"
  shows "\<exists>d'. journal_undo (length es) d = Some d' \<and> sdb_core b d' \<and> entries d' = rest \<and>
    sdb_trie d' = sdb_trie d \<and> validRevisions d' = validRevisions d \<and>
    nextRevisionId d' = nextRevisionId d \<and> sdb_view d' = w"
  using assms
proof (induction es arbitrary: d)
  case (Cons e es)
  from Cons.prems obtain w1 where w1: "w_revert b (sdb_trie d) e (sdb_view d) = Some w1"
      and w: "w_unwind b (sdb_trie d) es w1 = Some w"
    by (auto simp: bind_eq_Some_conv)
  have "entry_ok e" using Cons.prems(1,2) by (simp add: sdb_core_def)
  with entry_revert_refines [OF Cons.prems(1) _ w1] obtain d1 where
    d1: "entry_revert e d = Some d1" "sdb_core b d1" "same_base d d1" "sdb_view d1 = w1"
    by (auto simp: reverts_to_def)
  let ?d = "(undirty d1 e)\<lparr>entries := es @ rest\<rparr>"
  have "sdb_accts ?d = sdb_accts d1" by (rule sdb_accts_cong) simp_all
  then have view: "sdb_view ?d = w1" using d1(4) sdb_view_eqI [of ?d d1] by simp
  have "gone ?d a" if "gone d1 a" for a
  proof -
    have "entries d1 = e # es @ rest" using d1(3) Cons.prems(2) by (simp add: same_base_def)
    with that show ?thesis by (auto simp: gone_def undirty_def Let_def split: option.split)
  qed
  then have "sdb_core b ?d"
    using d1(2,3) Cons.prems(1,2) by (auto simp: sdb_core_def objects_ok_def same_base_def)
  moreover have "w_unwind b (sdb_trie ?d) es (sdb_view ?d) = Some w"
    using w view d1(3) by (simp add: same_base_def)
  ultimately obtain d' where "journal_undo (length es) ?d = Some d'" "sdb_core b d'" "entries d' = rest"
    "sdb_trie d' = sdb_trie ?d" "validRevisions d' = validRevisions ?d"
    "nextRevisionId d' = nextRevisionId ?d" "sdb_view d' = w"
    using Cons.IH [of ?d] by auto
  with Cons.prems(2) d1(1,3) show ?case by (auto simp: same_base_def)
qed simp

text \<open>\<^verbatim>\<open>sort.Search\<close> finds the first index at which a monotone predicate holds.\<close>

lemma sort_Search_least:
  assumes "i \<le> k" "k \<le> j" "\<And>x. i \<le> x \<Longrightarrow> x < j \<Longrightarrow> p x \<longleftrightarrow> k \<le> x"
  shows "sort_Search p i j = k"
  using assms
proof (induction p i j rule: sort_Search.induct)
  case (1 p i j)
  show ?case
  proof (cases "i < j")
    case True
    then have "i \<le> (i + j) div 2" "(i + j) div 2 < j" by auto
    with 1 True show ?thesis
      by (subst sort_Search.simps) (auto simp: Let_def)
  qed (use 1 in \<open>simp add: sort_Search.simps\<close>)
qed

text \<open>
  \<open>sdb_ext b d d'\<close>: the journal of \<open>d'\<close> extends that of \<open>d\<close>, unwinding the added entries gives back the
  world of \<open>d\<close>, and the revisions added since have new ids.
\<close>

definition sdb_ext :: "Backend \<Rightarrow> StateDB \<Rightarrow> StateDB \<Rightarrow> bool" where
  "sdb_ext b d d' \<longleftrightarrow> sdb_trie d' = sdb_trie d \<and> nextRevisionId d \<le> nextRevisionId d' \<and>
     (\<exists>es. entries d' = es @ entries d \<and>
           w_unwind b (sdb_trie d) es (sdb_view d') = Some (sdb_view d)) \<and>
     (\<exists>rs. validRevisions d' = validRevisions d @ rs \<and> (\<forall>r \<in> set rs. nextRevisionId d \<le> fst r))"

lemma sdb_ext_refl: "sdb_ext b d d"
  by (simp add: sdb_ext_def)

lemma sdb_ext_trans: "sdb_ext b d1 d2 \<Longrightarrow> sdb_ext b d2 d3 \<Longrightarrow> sdb_ext b d1 d3"
proof -
  assume 1: "sdb_ext b d1 d2" and 2: "sdb_ext b d2 d3"
  from 1 obtain es rs where A: "entries d2 = es @ entries d1"
      "w_unwind b (sdb_trie d1) es (sdb_view d2) = Some (sdb_view d1)"
      "validRevisions d2 = validRevisions d1 @ rs" "\<forall>r \<in> set rs. nextRevisionId d1 \<le> fst r"
    by (auto simp: sdb_ext_def)
  from 2 obtain es' rs' where B: "entries d3 = es' @ entries d2"
      "w_unwind b (sdb_trie d2) es' (sdb_view d3) = Some (sdb_view d2)"
      "validRevisions d3 = validRevisions d2 @ rs'" "\<forall>r \<in> set rs'. nextRevisionId d2 \<le> fst r"
    by (auto simp: sdb_ext_def)
  from 1 2 have C: "sdb_trie d2 = sdb_trie d1" "sdb_trie d3 = sdb_trie d2"
      "nextRevisionId d1 \<le> nextRevisionId d2" "nextRevisionId d2 \<le> nextRevisionId d3"
    by (auto simp: sdb_ext_def)
  have "w_unwind b (sdb_trie d1) (es' @ es) (sdb_view d3) = Some (sdb_view d1)"
    using A(2) B(2) C(1) by (simp add: w_unwind_append)
  moreover have "\<forall>r \<in> set (rs @ rs'). nextRevisionId d1 \<le> fst r"
    using A(4) B(4) C(3) by fastforce
  ultimately show ?thesis
    unfolding sdb_ext_def using A(1,3) B(1,3) C by (intro conjI exI) auto
qed

lemma sdb_ext_same: "same_base d d' \<Longrightarrow> sdb_view d' = sdb_view d \<Longrightarrow> sdb_ext b d d'"
  by (simp add: sdb_ext_def same_base_def)

lemma sdb_ext_entry:
  "sdb_trie d' = sdb_trie d \<Longrightarrow> entries d' = e # entries d \<Longrightarrow> validRevisions d' = validRevisions d \<Longrightarrow>
   nextRevisionId d' = nextRevisionId d \<Longrightarrow>
   w_revert b (sdb_trie d) e (sdb_view d') = Some (sdb_view d) \<Longrightarrow> sdb_ext b d d'"
  unfolding sdb_ext_def by (intro conjI exI [of _ "[e]"]) auto

lemma sdb_Snapshot_ok:
  assumes "sdb_inv b d" "sdb_Snapshot d = (sid, d')"
  shows "sdb_inv b d'" "sdb_ext b d d'" "sdb_view d' = sdb_view d"
proof -
  from assms(2) have d': "sid = nextRevisionId d"
      "d' = d\<lparr>nextRevisionId := sid + 1, validRevisions := validRevisions d @ [(sid, length (entries d))]\<rparr>"
    by (auto simp: sdb_Snapshot_def Let_def)
  then have "sdb_core b d'"
    using assms(1) by (simp add: sdb_inv_def sdb_core_def objects_ok_def gone_def)
  moreover have "revisions_ok d'"
    using assms(1) d' by (auto simp: sdb_inv_def revisions_ok_def sorted_wrt_append less_Suc_eq)
  ultimately show "sdb_inv b d'" by (simp add: sdb_inv_def)
  have "sdb_accts d' = sdb_accts d" by (rule sdb_accts_cong) (simp_all add: d')
  then show view: "sdb_view d' = sdb_view d" by (rule sdb_view_eqI) (simp_all add: d')
  show "sdb_ext b d d'"
    unfolding sdb_ext_def using view by (simp add: d')
qed

lemma search_revision:
  fixes sid :: nat
  assumes "sorted_wrt (\<lambda>x y. fst x < fst y) (xs @ (sid, n) # ys)"
  shows "sort_Search (\<lambda>i. sid \<le> fst ((xs @ (sid, n) # ys) ! i)) 0 (length (xs @ (sid, n) # ys)) = length xs"
proof (rule sort_Search_least)
  fix x assume x: "0 \<le> x" "x < length (xs @ (sid, n) # ys)"
  from assms have A: "\<And>r. r \<in> set xs \<Longrightarrow> fst r < sid" and B: "\<And>r. r \<in> set ys \<Longrightarrow> sid < fst r"
    by (auto simp: sorted_wrt_append)
  consider "x < length xs" | "x = length xs" | k where "x = Suc (length xs + k)" "k < length ys"
    using x(2) less_imp_Suc_add [of "length xs" x] by fastforce
  then show "sid \<le> fst ((xs @ (sid, n) # ys) ! x) \<longleftrightarrow> length xs \<le> x"
  proof cases
    case 1
    with A [OF nth_mem [OF 1]] show ?thesis by (simp add: nth_append)
  next
    case (3 k)
    with B [OF nth_mem [OF 3(2)]] show ?thesis by (simp add: nth_append)
  qed (simp add: nth_append)
qed auto

text \<open>A revert after any journalled changes restores the world of the snapshot.\<close>

lemma sdb_Revert_ok:
  assumes inv: "sdb_inv b d" and snap: "sdb_Snapshot d = (sid, d1)"
    and inv2: "sdb_inv b d2" and ext: "sdb_ext b d1 d2"
  shows "\<exists>d3. sdb_RevertToSnapshot d2 sid = Some d3 \<and> sdb_inv b d3 \<and> sdb_ext b d d3 \<and>
    sdb_view d3 = sdb_view d"
proof -
  from snap have d1: "entries d1 = entries d" "sdb_trie d1 = sdb_trie d"
      "validRevisions d1 = validRevisions d @ [(sid, length (entries d))]"
      "nextRevisionId d \<le> nextRevisionId d1"
    by (auto simp: sdb_Snapshot_def Let_def)
  have view: "sdb_view d1 = sdb_view d" by (rule sdb_Snapshot_ok [OF inv snap])
  have base: "sdb_trie d2 = sdb_trie d" "nextRevisionId d \<le> nextRevisionId d2"
    using ext d1(2,4) by (simp_all add: sdb_ext_def)
  obtain es where es: "entries d2 = es @ entries d"
      "w_unwind b (sdb_trie d2) es (sdb_view d2) = Some (sdb_view d)"
    using ext unfolding sdb_ext_def view d1(1,2) base(1) by blast
  obtain rs where "validRevisions d2 = validRevisions d1 @ rs"
    using ext unfolding sdb_ext_def by blast
  then have rs: "validRevisions d2 = validRevisions d @ (sid, length (entries d)) # rs"
    by (simp add: d1(3))
  have sorted: "sorted_wrt (\<lambda>x y. fst x < fst y) (validRevisions d2)" and core: "sdb_core b d2"
    using inv2 by (simp_all add: sdb_inv_def revisions_ok_def)
  from sorted have search: "sort_Search (\<lambda>i. sid \<le> fst (validRevisions d2 ! i)) 0 (length (validRevisions d2)) =
      length (validRevisions d)"
    unfolding rs by (rule search_revision)
  obtain d3 where
    d3: "journal_undo (length es) d2 = Some d3" "sdb_core b d3" "entries d3 = entries d"
      "sdb_trie d3 = sdb_trie d2" "nextRevisionId d3 = nextRevisionId d2" "sdb_view d3 = sdb_view d"
    using journal_undo_refines [OF core es] by blast
  with search have rev: "sdb_RevertToSnapshot d2 sid = Some (d3\<lparr>validRevisions := validRevisions d\<rparr>)"
    using es(1) rs by (simp add: sdb_RevertToSnapshot_def journal_revert_def Let_def)
  let ?d = "d3\<lparr>validRevisions := validRevisions d\<rparr>"
  have "sdb_accts ?d = sdb_accts d3" by (rule sdb_accts_cong) simp_all
  then have view3: "sdb_view ?d = sdb_view d" using d3(6) sdb_view_eqI [of ?d d3] by simp
  moreover have "sdb_core b ?d" using d3(2) by (simp add: sdb_core_def objects_ok_def gone_def)
  moreover have "revisions_ok ?d"
    using inv d3(3,5) base(2) by (auto simp: sdb_inv_def revisions_ok_def intro: less_le_trans)
  moreover have "sdb_ext b d ?d"
    using d3 base view3 by (simp add: sdb_ext_def)
  ultimately show ?thesis using rev by (simp add: sdb_inv_def)
qed

section \<open>Every method refines its specification\<close>

lemma getStateObject_ok:
  assumes inv: "sdb_inv b d" and get: "getStateObject d a = (r, d')"
  shows "sdb_inv b d'" "sdb_ext b d d'" "sdb_view d' = sdb_view d"
    "sdb_accts d a = map_option (so_view b) r" "sdb_db d' = b"
    "\<And>ob. r = Some ob \<Longrightarrow> so_address ob = a \<and> \<not> deleted ob \<and> stateObjects d' a = Some ob"
proof -
  have ok: "objects_ok d" "sdb_db d = b" using inv by (auto simp: sdb_inv_def sdb_core_def)
  have *: "sdb_inv b d' \<and> same_base d d' \<and> sdb_view d' = sdb_view d \<and> sdb_db d' = b \<and>
    sdb_accts d a = map_option (so_view b) r \<and>
    (\<forall>ob. r = Some ob \<longrightarrow> so_address ob = a \<and> \<not> deleted ob \<and> stateObjects d' a = Some ob)"
  proof (cases r)
    case None
    with get getStateObject_None [of d a d'] inv ok show ?thesis by (simp add: same_base_def)
  next
    case (Some ob)
    note ob = getStateObject_Some [OF get [unfolded Some] ok(1)]
    from ob(5) consider "d' = d" | "d' = setStateObject d ob" by blast
    then show ?thesis
    proof cases
      case 2
      have "sdb_view d' = sdb_view d" using ob(6) by (rule sdb_view_eqI) (simp_all add: 2)
      with Some ob inv ok 2 show ?thesis by (simp add: same_base_def setStateObject_inv)
    qed (use Some ob inv ok in \<open>simp add: same_base_def\<close>)
  qed
  then show "sdb_inv b d'" "sdb_ext b d d'" "sdb_view d' = sdb_view d"
    "sdb_accts d a = map_option (so_view b) r" "sdb_db d' = b"
    "\<And>ob. r = Some ob \<Longrightarrow> so_address ob = a \<and> \<not> deleted ob \<and> stateObjects d' a = Some ob"
    by (simp_all add: sdb_ext_same)
qed

text \<open>Putting back an object that looks the same.\<close>

lemma recache_ok:
  assumes "sdb_inv b d" "sdb_accts d (so_address ob) = Some (so_view b ob)" "\<not> deleted ob"
  shows "sdb_inv b (setStateObject d ob)" "sdb_ext b d (setStateObject d ob)"
    "sdb_view (setStateObject d ob) = sdb_view d"
proof -
  show "sdb_inv b (setStateObject d ob)" by (rule setStateObject_inv [OF assms(1,3)])
  have "sdb_db d = b" using assms(1) by (simp add: sdb_inv_def sdb_core_def)
  then have "sdb_accts (setStateObject d ob) = sdb_accts d" using assms(2,3) by auto
  then show view: "sdb_view (setStateObject d ob) = sdb_view d" by (rule sdb_view_eqI) simp_all
  then show "sdb_ext b d (setStateObject d ob)" by (intro sdb_ext_same) (simp_all add: same_base_def)
qed

text \<open>A journalled change of an object.\<close>

lemma journalled_ok:
  assumes inv: "sdb_inv b d" and ob: "so_address ob = a" "\<not> deleted ob" and e: "entry_for a e"
    and undo: "w_revert b (sdb_trie d) e
      ((sdb_view d)\<lparr>w_accts := (sdb_accts d)(a \<mapsto> so_view b ob)\<rparr>) = Some (sdb_view d)"
    and d': "d' = setStateObject (journal_append d e) ob"
  shows "sdb_inv b d'" "sdb_ext b d d'"
    "sdb_view d' = (sdb_view d)\<lparr>w_accts := (sdb_accts d)(a \<mapsto> so_view b ob)\<rparr>"
proof -
  have db: "sdb_db d = b" using inv by (simp add: sdb_inv_def sdb_core_def)
  show "sdb_inv b d'" unfolding d' using e ob by (intro journalled_inv [OF inv]) simp_all
  have "sdb_GetLogs d' = sdb_GetLogs d" by (rule sdb_GetLogs_cong) (simp add: d')
  then show view: "sdb_view d' = (sdb_view d)\<lparr>w_accts := (sdb_accts d)(a \<mapsto> so_view b ob)\<rparr>"
    using ob db by (simp add: sdb_view_def d')
  show "sdb_ext b d d'"
    by (rule sdb_ext_entry [where e = e]) (simp_all add: view undo, simp_all add: d')
qed

lemma sdb_view_upd_same: "sdb_accts d a = Some x \<Longrightarrow> (sdb_view d)\<lparr>w_accts := (sdb_accts d)(a \<mapsto> x)\<rparr> = sdb_view d"
  by (simp add: sdb_view_def fun_upd_idem)

lemma sdb_view_acctsD: "sdb_view d' = w \<Longrightarrow> sdb_accts d' = w_accts w"
  by auto

lemma sdb_view_accts_same: "(sdb_view d)\<lparr>w_accts := sdb_accts d\<rparr> = sdb_view d"
  by (simp add: sdb_view_def)

lemma so_view_fresh:
  assumes "backend_ok b"
  shows "so_view b (so_setNonce (newObject a
    \<lparr>Nonce = 0, Balance = 0, Root = 0, acct_CodeHash = Keccak256 b []\<rparr>) (StartingNonce b)) = fresh_account b"
  using assms
  by (auto simp: so_view_def so_setNonce_def newObject_def fresh_account_def code_of_def backend_ok_def
      fst_so_GetState getTrie_def lookup_storage_def)

lemma createObject_ok:
  assumes inv: "sdb_inv b d" and cr: "createObject d a = (ob, prev, d')"
  shows "sdb_inv b d'" "sdb_ext b d d'" "stateObjects d' a = Some ob" "so_address ob = a" "\<not> deleted ob"
    "sdb_view d' = (sdb_view d)\<lparr>w_accts := (sdb_accts d)(a \<mapsto> fresh_account b)\<rparr>"
    "so_view b ob = fresh_account b" "sdb_accts d a = map_option (so_view b) prev"
proof -
  obtain r d1 where get: "getStateObject d a = (r, d1)" by fastforce
  note g = getStateObject_ok [OF inv get]
  let ?new = "so_setNonce (newObject a
    \<lparr>Nonce = 0, Balance = 0, Root = 0, acct_CodeHash = Keccak256 b []\<rparr>) (StartingNonce b)"
  let ?e = "case r of None \<Rightarrow> createObjectChange a | Some ob \<Rightarrow> resetObjectChange ob"
  from cr get g(5) have eqs: "ob = ?new" "prev = r" "d' = setStateObject (journal_append d1 ?e) ?new"
    by (auto simp: createObject_def Let_def)
  have "backend_ok b" using inv by (simp add: sdb_inv_def sdb_core_def)
  then show ob: "so_view b ob = fresh_account b" using so_view_fresh eqs(1) by simp
  show "sdb_accts d a = map_option (so_view b) prev" using g(4) eqs(2) by simp
  have accts: "sdb_accts d1 = sdb_accts d" using sdb_view_acctsD [OF g(3)] by simp
  have none: "trie_view b (sdb_trie d1) a = None" if "r = None"
  proof -
    have "stateObjects d1 a = None \<or> (\<exists>o'. stateObjects d1 a = Some o' \<and> deleted o')"
      using that get by (auto simp: getStateObject_def Let_def split: option.splits if_splits)
    with that g(1,4,5) accts show ?thesis
      by (auto simp: sdb_accts_def sdb_inv_def sdb_core_def objects_ok_def gone_def trie_view_def
          dest!: fun_cong [of "sdb_accts d1" _ a] split: option.splits)
  qed
  have "entry_for a ?e" using g(6) by (auto simp: entry_for_def entry_ok_def dirtied_def split: option.split)
  moreover have "w_revert b (sdb_trie d1) ?e ((sdb_view d1)\<lparr>w_accts := (sdb_accts d1)(a \<mapsto> so_view b ?new)\<rparr>)
      = Some (sdb_view d1)"
    using g(4,6) accts none
    by (cases r) (auto simp: w_revert_def Let_def fun_upd_idem sdb_view_accts_same)
  ultimately have *: "sdb_inv b d'" "sdb_ext b d1 d'"
      "sdb_view d' = (sdb_view d1)\<lparr>w_accts := (sdb_accts d1)(a \<mapsto> so_view b ?new)\<rparr>"
    by (intro journalled_ok [OF g(1), where a = a and ob = ?new and e = ?e]; simp add: eqs)+
  then show "sdb_inv b d'" "sdb_ext b d d'"
    "sdb_view d' = (sdb_view d)\<lparr>w_accts := (sdb_accts d)(a \<mapsto> fresh_account b)\<rparr>"
    using g(2,3) accts ob eqs(1) sdb_ext_trans by auto
  show "stateObjects d' a = Some ob" "so_address ob = a" "\<not> deleted ob" by (simp_all add: eqs)
qed

lemma GetOrNewStateObject_ok:
  assumes inv: "sdb_inv b d" and get: "GetOrNewStateObject d a = (ob, d')"
  shows "sdb_inv b d'" "sdb_ext b d d'" "stateObjects d' a = Some ob" "so_address ob = a" "\<not> deleted ob"
    "so_view b ob = w_get (fresh_account b) (sdb_view d) a"
    "sdb_view d' = (sdb_view d)\<lparr>w_accts := (sdb_accts d)(a \<mapsto> so_view b ob)\<rparr>"
proof -
  obtain r d1 where g: "getStateObject d a = (r, d1)" by fastforce
  note ok = getStateObject_ok [OF inv g]
  have "sdb_inv b d' \<and> sdb_ext b d d' \<and> stateObjects d' a = Some ob \<and> so_address ob = a \<and> \<not> deleted ob \<and>
    so_view b ob = w_get (fresh_account b) (sdb_view d) a \<and>
    sdb_view d' = (sdb_view d)\<lparr>w_accts := (sdb_accts d)(a \<mapsto> so_view b ob)\<rparr>"
  proof (cases r)
    case (Some o')
    with get g have "o' = ob" "d' = d1" by (auto simp: GetOrNewStateObject_def)
    with Some ok show ?thesis by (auto simp: w_get_def sdb_view_upd_same)
  next
    case None
    with get g obtain p where "createObject d1 a = (ob, p, d')"
      by (auto simp: GetOrNewStateObject_def split: prod.splits)
    note cr = createObject_ok [OF ok(1) this]
    have "sdb_accts d1 = sdb_accts d" using sdb_view_acctsD [OF ok(3)] by simp
    with None ok cr show ?thesis by (auto simp: w_get_def intro: sdb_ext_trans)
  qed
  then show "sdb_inv b d'" "sdb_ext b d d'" "stateObjects d' a = Some ob" "so_address ob = a" "\<not> deleted ob"
    "so_view b ob = w_get (fresh_account b) (sdb_view d) a"
    "sdb_view d' = (sdb_view d)\<lparr>w_accts := (sdb_accts d)(a \<mapsto> so_view b ob)\<rparr>"
    by blast+
qed

text \<open>An object that is in the database, and a journalled change of it.\<close>

definition holds :: "Backend \<Rightarrow> StateDB \<Rightarrow> address \<Rightarrow> StateObject \<Rightarrow> bool" where
  "holds b d a ob \<longleftrightarrow> sdb_inv b d \<and> so_address ob = a \<and> \<not> deleted ob \<and> sdb_accts d a = Some (so_view b ob)"

lemma holds_change:
  assumes h: "holds b d a ob" and ob': "so_address ob' = a" "\<not> deleted ob'" and e: "entry_for a e"
    and undo: "w_revert b (sdb_trie d) e
      ((sdb_view d)\<lparr>w_accts := (sdb_accts d)(a \<mapsto> so_view b ob')\<rparr>) =
      Some ((sdb_view d)\<lparr>w_accts := (sdb_accts d)(a \<mapsto> so_view b ob)\<rparr>)"
    and d': "d' = setStateObject (journal_append d e) ob'"
  shows "sdb_inv b d' \<and> sdb_ext b d d' \<and>
    sdb_view d' = (sdb_view d)\<lparr>w_accts := (sdb_accts d)(a \<mapsto> so_view b ob')\<rparr>"
proof -
  have "(sdb_view d)\<lparr>w_accts := (sdb_accts d)(a \<mapsto> so_view b ob)\<rparr> = sdb_view d"
    using h by (intro sdb_view_upd_same) (simp add: holds_def)
  with undo journalled_ok [OF _ ob' e _ d'] h show ?thesis by (simp add: holds_def)
qed

lemma so_view_restore:
  "(so_view b ob)\<lparr>a_balance := Balance (so_data ob)\<rparr> = so_view b ob"
  "(so_view b ob)\<lparr>a_nonce := Nonce (so_data ob)\<rparr> = so_view b ob"
  "(so_view b ob)\<lparr>a_codeHash := acct_CodeHash (so_data ob),
     a_code := code_of b (fst (so_Code b ob)) (acct_CodeHash (so_data ob))\<rparr> = so_view b ob"
  by (auto simp: so_view_def fst_so_Code code_of_def split: option.split)

lemma so_SetBalance_ok:
  assumes "holds b d a ob" "d' = so_SetBalance d ob v"
  shows "sdb_inv b d' \<and> sdb_ext b d d' \<and>
    sdb_view d' = (sdb_view d)\<lparr>w_accts := (sdb_accts d)(a \<mapsto> (so_view b ob)\<lparr>a_balance := v\<rparr>)\<rparr>"
  unfolding so_view_setBalance [symmetric]
  by (rule holds_change [OF assms(1), where e = "balanceChange a (Balance (so_data ob))"])
    (use assms in \<open>auto simp: holds_def so_SetBalance_def entry_for_def entry_ok_def dirtied_def w_revert_def so_view_setBalance so_view_restore\<close>)

lemma so_SetNonce_ok:
  assumes "holds b d a ob" "d' = so_SetNonce d ob n"
  shows "sdb_inv b d' \<and> sdb_ext b d d' \<and>
    sdb_view d' = (sdb_view d)\<lparr>w_accts := (sdb_accts d)(a \<mapsto> (so_view b ob)\<lparr>a_nonce := n\<rparr>)\<rparr>"
  unfolding so_view_setNonce [symmetric]
  by (rule holds_change [OF assms(1), where e = "nonceChange a (Nonce (so_data ob))"])
    (use assms in \<open>auto simp: holds_def so_SetNonce_def entry_for_def entry_ok_def dirtied_def w_revert_def so_view_setNonce so_view_restore\<close>)

lemma so_SetState_ok:
  assumes h: "holds b d a ob" and d': "d' = so_SetState d ob k v"
  shows "sdb_inv b d' \<and> sdb_ext b d d' \<and>
    sdb_view d' = (sdb_view d)\<lparr>w_accts := (sdb_accts d)(a \<mapsto>
      (so_view b ob)\<lparr>a_storage := (a_storage (so_view b ob))(k := v)\<rparr>)\<rparr>"
proof -
  let ?ob = "snd (so_GetState b ob k)" and ?p = "fst (so_GetState b ob k)"
  have "sdb_db d = b" using h by (simp add: holds_def sdb_inv_def sdb_core_def)
  then have d: "d' = setStateObject (journal_append d (storageChange a k ?p)) (so_setState ?ob k v)"
    using d' h by (simp add: so_SetState_def holds_def split_beta)
  have "sdb_inv b d' \<and> sdb_ext b d d' \<and>
    sdb_view d' = (sdb_view d)\<lparr>w_accts := (sdb_accts d)(a \<mapsto> so_view b (so_setState ?ob k v))\<rparr>"
    by (rule holds_change [OF h _ _ _ _ d])
      (use h in \<open>auto simp: holds_def entry_for_def entry_ok_def dirtied_def w_revert_def so_view_setState fun_eq_iff\<close>)
  then show ?thesis by (simp add: so_view_setState)
qed

lemma so_SetCode_ok:
  assumes h: "holds b d a ob" and d': "d' = so_SetCode d ob (Keccak256 b code) code"
  shows "sdb_inv b d' \<and> sdb_ext b d d' \<and>
    sdb_view d' = (sdb_view d)\<lparr>w_accts := (sdb_accts d)(a \<mapsto>
      (so_view b ob)\<lparr>a_codeHash := Keccak256 b code, a_code := code\<rparr>)\<rparr>"
proof -
  let ?ob = "snd (so_Code b ob)" and ?p = "fst (so_Code b ob)"
  have "sdb_db d = b" using h by (simp add: holds_def sdb_inv_def sdb_core_def)
  then have d: "d' = setStateObject (journal_append d (codeChange a ?p (acct_CodeHash (so_data ob))))
      (so_setCode ?ob (Keccak256 b code) code)"
    using d' h by (simp add: so_SetCode_def holds_def split_beta)
  have new: "code_of b code (Keccak256 b code) = code" by (simp add: code_of_def)
  have "sdb_inv b d' \<and> sdb_ext b d d' \<and>
    sdb_view d' = (sdb_view d)\<lparr>w_accts := (sdb_accts d)(a \<mapsto> so_view b (so_setCode ?ob (Keccak256 b code) code))\<rparr>"
    by (rule holds_change [OF h _ _ _ _ d])
      (use h in \<open>auto simp: holds_def entry_for_def entry_ok_def dirtied_def w_revert_def so_view_setCode so_view_restore\<close>)
  then show ?thesis by (simp add: so_view_setCode new)
qed

lemma sdb_ext_touch:
  assumes "sdb_inv b d" "sdb_accts d (so_address ob) = Some x"
  shows "sdb_inv b (so_touch d ob) \<and> sdb_ext b d (so_touch d ob) \<and> sdb_view (so_touch d ob) = sdb_view d"
proof -
  have eq: "stateObjects (so_touch d ob) = stateObjects d" "sdb_db (so_touch d ob) = sdb_db d"
    "sdb_trie (so_touch d ob) = sdb_trie d" "entries (so_touch d ob) = touchChange (so_address ob) # entries d"
    "validRevisions (so_touch d ob) = validRevisions d" "nextRevisionId (so_touch d ob) = nextRevisionId d"
    "refund (so_touch d ob) = refund d" "logs (so_touch d ob) = logs d" "logSize (so_touch d ob) = logSize d"
    "thash (so_touch d ob) = thash d" "bhash (so_touch d ob) = bhash d" "txIndex (so_touch d ob) = txIndex d"
    by (simp_all add: so_touch_def journal_dirty_def Let_def)
  have "sdb_accts (so_touch d ob) = sdb_accts d" by (rule sdb_accts_cong) (simp_all add: eq)
  then have view: "sdb_view (so_touch d ob) = sdb_view d" by (rule sdb_view_eqI) (simp_all add: eq)
  moreover have "sdb_ext b d (so_touch d ob)"
    by (rule sdb_ext_entry [where e = "touchChange (so_address ob)"])
      (simp_all add: eq view w_revert_def)
  moreover have "sdb_inv b (so_touch d ob)"
  proof -
    have "gone (so_touch d ob) a" if "stateObjects d a = Some o'" "deleted o'" "gone d a" for a o'
    proof -
      have "a \<noteq> so_address ob" using that assms(2) by (auto simp: sdb_accts_def)
      with that(3) show ?thesis
        by (auto simp: gone_def so_touch_def journal_append_def journal_dirty_def dirtied_def Let_def)
    qed
    then show ?thesis
      using assms(1) by (auto simp: sdb_inv_def sdb_core_def objects_ok_def revisions_ok_def eq entry_ok_def)
  qed
  ultimately show ?thesis by blast
qed

lemma so_AddBalance_ok:
  assumes h: "holds b d a ob" and d': "d' = so_AddBalance d ob v"
  shows "sdb_inv b d' \<and> sdb_ext b d d' \<and>
    sdb_view d' = (sdb_view d)\<lparr>w_accts := (sdb_accts d)(a \<mapsto>
      (so_view b ob)\<lparr>a_balance := Balance (so_data ob) + v\<rparr>)\<rparr>"
proof (cases "v = 0")
  case True
  from h have "sdb_inv b d" "so_address ob = a" "sdb_accts d a = Some (so_view b ob)" by (simp_all add: holds_def)
  then show ?thesis
    using d' True sdb_ext_touch [of b d ob]
    by (simp add: so_AddBalance_def so_view_restore sdb_view_upd_same sdb_ext_refl)
next
  case False
  then have "d' = so_SetBalance d ob (Balance (so_data ob) + v)"
    using d' by (simp add: so_AddBalance_def)
  with h show ?thesis by (rule so_SetBalance_ok)
qed

lemma GetOrNew_holds:
  assumes "sdb_inv b d" "GetOrNewStateObject d a = (ob, d')"
  shows "holds b d' a ob"
proof -
  note ok = GetOrNewStateObject_ok [OF assms]
  from ok sdb_view_acctsD [OF ok(7)] show ?thesis by (simp add: holds_def)
qed

lemma getStateObject_holds:
  assumes "sdb_inv b d" "getStateObject d a = (Some ob, d')"
  shows "holds b d' a ob"
proof -
  note ok = getStateObject_ok [OF assms]
  from ok sdb_view_acctsD [OF ok(3)] show ?thesis by (simp add: holds_def)
qed

text \<open>A setter that works on the object it gets or creates.\<close>

lemma setter_ok:
  assumes inv: "sdb_inv b d" and d': "d' = (let (ob, d) = GetOrNewStateObject d a in f d ob)"
    and f: "\<And>d ob d'. holds b d a ob \<Longrightarrow> d' = f d ob \<Longrightarrow> sdb_inv b d' \<and> sdb_ext b d d' \<and>
      sdb_view d' = (sdb_view d)\<lparr>w_accts := (sdb_accts d)(a \<mapsto> g (so_view b ob))\<rparr>"
  shows "sdb_inv b d' \<and> sdb_ext b d d' \<and> sdb_view d' = w_upd (fresh_account b) g (sdb_view d) a"
proof -
  obtain ob d1 where get: "GetOrNewStateObject d a = (ob, d1)" by fastforce
  note ok = GetOrNewStateObject_ok [OF inv get]
  from f [OF GetOrNew_holds [OF inv get]] d' get have *: "sdb_inv b d'" "sdb_ext b d1 d'"
    "sdb_view d' = (sdb_view d1)\<lparr>w_accts := (sdb_accts d1)(a \<mapsto> g (so_view b ob))\<rparr>"
    by auto
  have "sdb_accts d1 = (sdb_accts d)(a \<mapsto> so_view b ob)" using sdb_view_acctsD [OF ok(7)] by simp
  with * ok show ?thesis by (auto simp: w_upd_def intro: sdb_ext_trans)
qed

lemma sdb_Suicide_ok:
  assumes inv: "sdb_inv b d" and s: "sdb_Suicide d a = (r, d')"
  shows "sdb_inv b d' \<and> sdb_ext b d d' \<and> sdb_view d' = w_Suicide (sdb_view d) a \<and> r = w_exists (sdb_view d) a"
proof -
  obtain x d1 where get: "getStateObject d a = (x, d1)" by fastforce
  note ok = getStateObject_ok [OF inv get]
  show ?thesis
  proof (cases x)
    case None
    with s get ok show ?thesis by (auto simp: sdb_Suicide_def w_Suicide_def w_exists_def)
  next
    case (Some ob)
    with inv get have h: "holds b d1 a ob" by (simp add: getStateObject_holds)
    let ?ob = "so_setBalance (ob\<lparr>suicided := True\<rparr>) 0"
    from s get Some have r: "r = True"
      and d': "d' = setStateObject (journal_append d1 (suicideChange a (suicided ob) (Balance (so_data ob)))) ?ob"
      by (auto simp: sdb_Suicide_def Let_def)
    have same: "(so_view b ob)\<lparr>a_suicided := suicided ob, a_balance := Balance (so_data ob)\<rparr> = so_view b ob"
      by (simp add: so_view_def)
    have "sdb_inv b d' \<and> sdb_ext b d1 d' \<and>
      sdb_view d' = (sdb_view d1)\<lparr>w_accts := (sdb_accts d1)(a \<mapsto> so_view b ?ob)\<rparr>"
      by (rule holds_change [OF h _ _ _ _ d'])
        (use h in \<open>auto simp: same holds_def entry_for_def entry_ok_def dirtied_def w_revert_def Let_def so_view_setBalance so_view_suicided\<close>)
    moreover have "sdb_accts d1 = sdb_accts d" using sdb_view_acctsD [OF ok(3)] by simp
    ultimately show ?thesis
      using ok Some r
      by (auto simp: w_Suicide_def w_exists_def so_view_setBalance so_view_suicided intro: sdb_ext_trans)
  qed
qed

lemma sdb_CreateAccount_ok:
  assumes inv: "sdb_inv b d" and d': "d' = sdb_CreateAccount d a"
  shows "sdb_inv b d' \<and> sdb_ext b d d' \<and> sdb_view d' = w_CreateAccount (fresh_account b) (sdb_view d) a"
proof -
  obtain new prev d1 where cr: "createObject d a = (new, prev, d1)" by (metis prod_cases3)
  note ok = createObject_ok [OF inv cr]
  show ?thesis
  proof (cases prev)
    case None
    have "(fresh_account b)\<lparr>a_balance := 0\<rparr> = fresh_account b" by (simp add: fresh_account_def)
    with None ok d' cr show ?thesis
      by (simp add: sdb_CreateAccount_def w_CreateAccount_def w_balance_def)
  next
    case (Some p)
    let ?new = "so_setBalance new (Balance (so_data p))"
    obtain x e d0 where d1: "d1 = setStateObject (journal_append d0 e) new" and "sdb_inv b d0"
      and e: "e = resetObjectChange p" "holds b d0 a p" "sdb_ext b d d0" "sdb_view d0 = sdb_view d"
    proof -
      obtain r d0 where get: "getStateObject d a = (r, d0)" by fastforce
      with cr Some have "r = Some p" by (auto simp: createObject_def Let_def)
      with get cr that inv getStateObject_ok [OF inv get] getStateObject_holds [OF inv, of a p d0] show ?thesis
        by (auto simp: createObject_def Let_def)
    qed
    have d'': "d' = setStateObject (journal_append d0 e) ?new"
      using d' cr Some ok(4) d1 by (simp add: sdb_CreateAccount_def setStateObject_def)
    have "sdb_inv b d' \<and> sdb_ext b d0 d' \<and>
      sdb_view d' = (sdb_view d0)\<lparr>w_accts := (sdb_accts d0)(a \<mapsto> so_view b ?new)\<rparr>"
      by (rule holds_change [OF e(2) _ _ _ _ d''])
        (use e ok in \<open>auto simp: holds_def entry_for_def entry_ok_def dirtied_def w_revert_def Let_def\<close>)
    moreover have "sdb_accts d0 = sdb_accts d" using sdb_view_acctsD [OF e(4)] by simp
    ultimately show ?thesis
      using ok(7,8) Some e(3,4)
      by (auto simp: w_CreateAccount_def w_balance_def so_view_setBalance intro: sdb_ext_trans)
  qed
qed

lemma AddRefund_ok:
  assumes inv: "sdb_inv b d" and d': "d' = sdb_AddRefund d v"
  shows "sdb_inv b d' \<and> sdb_ext b d d' \<and> sdb_view d' = w_AddRefund (sdb_view d) v"
proof -
  have eq: "stateObjects d' = stateObjects d" "sdb_db d' = sdb_db d" "sdb_trie d' = sdb_trie d"
    "entries d' = refundChange (refund d) # entries d" "validRevisions d' = validRevisions d"
    "nextRevisionId d' = nextRevisionId d" "refund d' = refund d + v" "logs d' = logs d"
    "logSize d' = logSize d" "thash d' = thash d" "bhash d' = bhash d" "txIndex d' = txIndex d"
    by (simp_all add: d' sdb_AddRefund_def Let_def)
  have gone: "gone d' a" if "gone d a" for a
    using that by (simp add: gone_def d' sdb_AddRefund_def dirtied_def Let_def)
  have "sdb_accts d' = sdb_accts d" by (rule sdb_accts_cong) (simp_all add: eq)
  moreover have "sdb_GetLogs d' = sdb_GetLogs d" by (rule sdb_GetLogs_cong) (simp add: eq)
  ultimately have view: "sdb_view d' = w_AddRefund (sdb_view d) v"
    by (simp add: sdb_view_def w_AddRefund_def eq)
  moreover have "sdb_ext b d d'"
    by (rule sdb_ext_entry [where e = "refundChange (refund d)"])
      (simp_all add: view eq, simp add: w_revert_def w_AddRefund_def sdb_view_def)
  moreover have "sdb_inv b d'"
    using inv gone
    by (auto simp: sdb_inv_def sdb_core_def objects_ok_def revisions_ok_def eq entry_ok_def)
  ultimately show ?thesis by blast
qed

lemma AddLog_ok:
  assumes inv: "sdb_inv b d" and d': "d' = sdb_AddLog d l"
  shows "sdb_inv b d' \<and> sdb_ext b d d' \<and> sdb_view d' = w_AddLog (sdb_view d) l"
proof -
  let ?l = "l\<lparr>TxHash := thash d, BlockHash := bhash d, TxIndex := txIndex d, Log_Index := logSize d\<rparr>"
  have eq: "stateObjects d' = stateObjects d" "sdb_db d' = sdb_db d" "sdb_trie d' = sdb_trie d"
    "entries d' = addLogChange (thash d) # entries d" "validRevisions d' = validRevisions d"
    "nextRevisionId d' = nextRevisionId d" "refund d' = refund d"
    "logSize d' = logSize d + 1" "thash d' = thash d" "bhash d' = bhash d" "txIndex d' = txIndex d"
    by (simp_all add: d' sdb_AddLog_def Let_def)
  have gone: "gone d' a" if "gone d a" for a
    using that by (simp add: gone_def d' sdb_AddLog_def dirtied_def Let_def)
  have logs: "sdb_GetLogs d' = (sdb_GetLogs d)(thash d := sdb_GetLogs d (thash d) @ [?l])"
    by (auto simp: d' sdb_AddLog_def sdb_GetLogs_def Let_def fun_eq_iff)
  have "sdb_accts d' = sdb_accts d" by (rule sdb_accts_cong) (simp_all add: eq)
  then have view: "sdb_view d' = w_AddLog (sdb_view d) l"
    by (simp add: sdb_view_def w_AddLog_def eq logs)
  moreover have "sdb_ext b d d'"
    by (rule sdb_ext_entry [where e = "addLogChange (thash d)"])
      (simp_all add: view eq, simp add: w_revert_def w_AddLog_def sdb_view_def)
  moreover have "sdb_inv b d'"
    using inv gone
    by (auto simp: sdb_inv_def sdb_core_def objects_ok_def revisions_ok_def eq entry_ok_def)
  ultimately show ?thesis by blast
qed

section \<open>StateDB implements the interface\<close>

lemma sdb_getter_ok:
  assumes inv: "sdb_inv b d" and get: "(let (ob, d) = getStateObject d a in (f d ob, d)) = (v, d')"
  shows "sdb_inv b d' \<and> sdb_ext b d d' \<and> sdb_view d' = sdb_view d \<and> sdb_db d' = b \<and>
    (\<exists>ob. sdb_accts d a = map_option (so_view b) ob \<and> v = f d' ob)"
proof -
  obtain r d1 where g: "getStateObject d a = (r, d1)" by fastforce
  with get getStateObject_ok [OF inv g] show ?thesis by auto
qed

lemma sdb_GetCode_ok:
  assumes inv: "sdb_inv b d" and get: "sdb_GetCode d a = (c, d')"
  shows "sdb_inv b d' \<and> sdb_ext b d d' \<and> sdb_view d' = sdb_view d \<and> c = w_code (sdb_view d) a"
proof -
  obtain r d1 where g: "getStateObject d a = (r, d1)" by fastforce
  note ok = getStateObject_ok [OF inv g]
  show ?thesis
  proof (cases r)
    case None
    with get g ok show ?thesis by (simp add: sdb_GetCode_def w_code_def)
  next
    case (Some ob)
    with inv g have h: "holds b d1 a ob" by (simp add: getStateObject_holds)
    from get g Some ok(5) have d': "d' = setStateObject d1 (snd (so_Code b ob))" "c = fst (so_Code b ob)"
      by (simp_all add: sdb_GetCode_def split_beta)
    with recache_ok [of b d1 "snd (so_Code b ob)"] h ok Some show ?thesis
      by (auto simp: holds_def w_code_def intro: sdb_ext_trans)
  qed
qed

lemma sdb_GetState_ok:
  assumes inv: "sdb_inv b d" and get: "sdb_GetState d a k = (v, d')"
  shows "sdb_inv b d' \<and> sdb_ext b d d' \<and> sdb_view d' = sdb_view d \<and> v = w_storage (sdb_view d) a k"
proof -
  obtain r d1 where g: "getStateObject d a = (r, d1)" by fastforce
  note ok = getStateObject_ok [OF inv g]
  show ?thesis
  proof (cases r)
    case None
    with get g ok show ?thesis by (simp add: sdb_GetState_def w_storage_def)
  next
    case (Some ob)
    with inv g have h: "holds b d1 a ob" by (simp add: getStateObject_holds)
    from get g Some ok(5) have d': "d' = setStateObject d1 (snd (so_GetState b ob k))"
        "v = fst (so_GetState b ob k)"
      by (simp_all add: sdb_GetState_def split_beta)
    with recache_ok [of b d1 "snd (so_GetState b ob k)"] h ok Some show ?thesis
      by (auto simp: holds_def w_storage_def intro: sdb_ext_trans)
  qed
qed

lemma sdb_GetCodeSize_ok:
  assumes inv: "sdb_inv b d" and get: "sdb_GetCodeSize d a = (n, d')"
  shows "sdb_inv b d' \<and> sdb_ext b d d' \<and> sdb_view d' = sdb_view d \<and> n = length (w_code (sdb_view d) a)"
proof -
  obtain r d1 where g: "getStateObject d a = (r, d1)" by fastforce
  note ok = getStateObject_ok [OF inv g]
  have n: "n = length (w_code (sdb_view d) a)" and d': "d' = d1 \<or> d' = d1\<lparr>sdb_dbErr := True\<rparr>"
    using get g ok inv
    by (auto simp: sdb_GetCodeSize_def w_code_def fst_so_Code code_of_def ContractCodeSize_def
        sdb_inv_def sdb_core_def backend_ok_def split: option.splits if_splits)
  have "sdb_accts d' = sdb_accts d1" using d' by (intro sdb_accts_cong) auto
  then have view: "sdb_view d' = sdb_view d1" using d' by (intro sdb_view_eqI) auto
  moreover have "sdb_ext b d1 d'" using view d' by (intro sdb_ext_same) (auto simp: same_base_def)
  moreover have "sdb_inv b d'"
    using d' ok(1) by (auto simp: sdb_inv_def sdb_core_def objects_ok_def gone_def revisions_ok_def)
  ultimately show ?thesis using ok(2,3) n by (auto intro: sdb_ext_trans)
qed

lemma obj_AddBalance_ok:
  assumes inv: "sdb_inv b d" and w: "w_acct_AddBalance (sdb_view d) a v = Some w"
  shows "\<exists>d'. obj_AddBalance d a v = Some d' \<and> sdb_inv b d' \<and> sdb_ext b d d' \<and> sdb_view d' = w"
proof -
  obtain r d1 where g: "getStateObject d a = (r, d1)" by fastforce
  note ok = getStateObject_ok [OF inv g]
  from w ok(4) obtain ob where r: "r = Some ob" by (cases r) (auto simp: w_acct_AddBalance_def)
  with inv g have h: "holds b d1 a ob" by (simp add: getStateObject_holds)
  with so_AddBalance_ok [OF h refl, of v] g r w ok sdb_view_acctsD [OF ok(3)] show ?thesis
    by (auto simp: obj_AddBalance_def w_acct_AddBalance_def intro: sdb_ext_trans)
qed

lemma obj_SubBalance_ok:
  assumes inv: "sdb_inv b d" and w: "w_acct_SubBalance (sdb_view d) a v = Some w"
  shows "\<exists>d'. obj_SubBalance d a v = Some d' \<and> sdb_inv b d' \<and> sdb_ext b d d' \<and> sdb_view d' = w"
proof (cases "v = 0")
  case True
  with w inv show ?thesis by (simp add: w_acct_SubBalance_def obj_SubBalance_def sdb_ext_refl)
next
  case False
  obtain r d1 where g: "getStateObject d a = (r, d1)" by fastforce
  note ok = getStateObject_ok [OF inv g]
  from w ok(4) False obtain ob where r: "r = Some ob" by (cases r) (auto simp: w_acct_SubBalance_def)
  with inv g have h: "holds b d1 a ob" by (simp add: getStateObject_holds)
  with so_SetBalance_ok [OF h refl, of "Balance (so_data ob) - v"] g r w ok False
    sdb_view_acctsD [OF ok(3)]
  show ?thesis
    by (auto simp: obj_SubBalance_def so_SubBalance_def w_acct_SubBalance_def intro: sdb_ext_trans)
qed

lemma sdb_plain_getters:
  assumes inv: "sdb_inv b d"
  shows "sdb_GetBalance d a = (v, d') \<Longrightarrow>
      sdb_inv b d' \<and> sdb_ext b d d' \<and> sdb_view d' = sdb_view d \<and> v = w_balance (sdb_view d) a"
    and "sdb_GetNonce d a = (n, d') \<Longrightarrow> sdb_inv b d' \<and> sdb_ext b d d' \<and> sdb_view d' = sdb_view d \<and>
      n = a_nonce (w_get (fresh_account b) (sdb_view d) a)"
    and "sdb_GetCodeHash d a = (h, d') \<Longrightarrow>
      sdb_inv b d' \<and> sdb_ext b d d' \<and> sdb_view d' = sdb_view d \<and> h = w_codeHash (sdb_view d) a"
    and "sdb_HasSuicided d a = (s, d') \<Longrightarrow>
      sdb_inv b d' \<and> sdb_ext b d d' \<and> sdb_view d' = sdb_view d \<and> s = w_suicided (sdb_view d) a"
    and "sdb_Exist d a = (x, d') \<Longrightarrow>
      sdb_inv b d' \<and> sdb_ext b d d' \<and> sdb_view d' = sdb_view d \<and> x = w_exists (sdb_view d) a"
    and "sdb_Empty d a = (e, d') \<Longrightarrow>
      sdb_inv b d' \<and> sdb_ext b d d' \<and> sdb_view d' = sdb_view d \<and>
      e = w_empty (fresh_account b) (sdb_view d) a"
  unfolding sdb_GetBalance_def sdb_GetNonce_def sdb_GetCodeHash_def sdb_HasSuicided_def sdb_Exist_def
    sdb_Empty_def
  by (drule sdb_getter_ok [OF inv],
      fastforce simp: world_reads fresh_account_def a_empty_def so_empty_def split: option.splits)+

lemma sdb_setters:
  assumes inv: "sdb_inv b d"
  shows "d' = sdb_AddBalance d a v \<Longrightarrow>
      sdb_inv b d' \<and> sdb_ext b d d' \<and> sdb_view d' = w_AddBalance (fresh_account b) (sdb_view d) a v"
    and "d' = sdb_SetNonce d a n \<Longrightarrow>
      sdb_inv b d' \<and> sdb_ext b d d' \<and> sdb_view d' = w_SetNonce (fresh_account b) (sdb_view d) a n"
    and "d' = sdb_SetState d a k x \<Longrightarrow>
      sdb_inv b d' \<and> sdb_ext b d d' \<and> sdb_view d' = w_SetState (fresh_account b) (sdb_view d) a k x"
    and "d' = sdb_SetCode d a c \<Longrightarrow>
      sdb_inv b d' \<and> sdb_ext b d d' \<and>
      sdb_view d' = w_SetCode (fresh_account b) (Keccak256 b) (sdb_view d) a c"
proof -
  note defs = w_AddBalance_def w_SetNonce_def w_SetState_def w_SetCode_def
  show "d' = sdb_AddBalance d a v \<Longrightarrow>
      sdb_inv b d' \<and> sdb_ext b d d' \<and> sdb_view d' = w_AddBalance (fresh_account b) (sdb_view d) a v"
    unfolding sdb_AddBalance_def defs by (erule setter_ok [OF inv]) (drule (1) so_AddBalance_ok, simp)
  show "d' = sdb_SetNonce d a n \<Longrightarrow>
      sdb_inv b d' \<and> sdb_ext b d d' \<and> sdb_view d' = w_SetNonce (fresh_account b) (sdb_view d) a n"
    unfolding sdb_SetNonce_def defs by (erule setter_ok [OF inv]) (rule so_SetNonce_ok)
  show "d' = sdb_SetState d a k x \<Longrightarrow>
      sdb_inv b d' \<and> sdb_ext b d d' \<and> sdb_view d' = w_SetState (fresh_account b) (sdb_view d) a k x"
    unfolding sdb_SetState_def defs by (erule setter_ok [OF inv]) (drule (1) so_SetState_ok, simp)
  have db: "holds b d a ob \<Longrightarrow> sdb_db d = b" for d ob
    by (simp add: holds_def sdb_inv_def sdb_core_def)
  show "d' = sdb_SetCode d a c \<Longrightarrow>
      sdb_inv b d' \<and> sdb_ext b d d' \<and>
      sdb_view d' = w_SetCode (fresh_account b) (Keccak256 b) (sdb_view d) a c"
    unfolding sdb_SetCode_def defs
    by (erule setter_ok [OF inv]) (rule so_SetCode_ok, assumption, simp add: db)
qed

interpretation sdb: world_db stateDB_ops "sdb_inv b" "sdb_ext b" sdb_view "fresh_account b" "Keccak256 b"
  for b
proof
  fix d d1 d2 d3 :: StateDB
  show "sdb_ext b d d" by (rule sdb_ext_refl)
  show "sdb_ext b d1 d2 \<Longrightarrow> sdb_ext b d2 d3 \<Longrightarrow> sdb_ext b d1 d3" by (rule sdb_ext_trans)
  show "sdb_inv b d \<Longrightarrow> db_Snapshot stateDB_ops d = (sid, d1) \<Longrightarrow> sdb_inv b d2 \<Longrightarrow> sdb_ext b d1 d2 \<Longrightarrow>
      \<exists>d3. db_RevertToSnapshot stateDB_ops d2 sid = Some d3 \<and> sdb_inv b d3 \<and> sdb_ext b d d3 \<and>
        sdb_view d3 = sdb_view d" for sid
    using sdb_Revert_ok by (simp add: stateDB_ops_def)
  show "sdb_inv b d \<Longrightarrow> db_Snapshot stateDB_ops d = (sid, d1) \<Longrightarrow>
      sdb_inv b d1 \<and> sdb_ext b d d1 \<and> sdb_view d1 = sdb_view d" for sid
    using sdb_Snapshot_ok by (simp add: stateDB_ops_def)
  show "a_balance (fresh_account b) = 0" "a_code (fresh_account b) = []"
    "a_codeHash (fresh_account b) = Keccak256 b []" "a_storage (fresh_account b) = (\<lambda>_. 0)"
    "\<not> a_suicided (fresh_account b)"
    by (simp_all add: fresh_account_def)
qed (unfold stateDB_ops_def Database.select_convs, (rule sdb_plain_getters sdb_setters sdb_GetCode_ok
    sdb_GetState_ok sdb_GetCodeSize_ok sdb_Suicide_ok sdb_CreateAccount_ok AddRefund_ok AddLog_ok
    obj_AddBalance_ok obj_SubBalance_ok; assumption)+)

end
