(* ===== verification/Vm_State.thy ===== *)
theory Vm_State
  imports Vm_Calls State_Refinement
begin

text \<open>
  The virtual machine on the state database of \<^verbatim>\<open>core/state\<close>. The interface of \<open>Vm_Safety\<close> is interpreted
  on \<open>stateDB_ops\<close> with the effect relation below: whatever runs, the sum of all balances does not grow,
  the refund counter does not shrink, and in read-only mode no account and no log changes.
\<close>

section \<open>The effect of a run\<close>

definition total_balance :: "world \<Rightarrow> int" where
  "total_balance w = (\<Sum>a \<in> UNIV. w_balance w a)"

text \<open>Every account reads the same; one that did not exist may exist and be empty.\<close>

definition unchanged :: "account \<Rightarrow> world \<Rightarrow> world \<Rightarrow> bool" where
  "unchanged z w w' \<longleftrightarrow> (\<forall>a. w_get z w' a = w_get z w a) \<and> w_logs w' = w_logs w"

definition evm_effect :: "account \<Rightarrow> bool \<Rightarrow> world \<Rightarrow> world \<Rightarrow> bool" where
  "evm_effect z ro w w' \<longleftrightarrow>
     total_balance w' \<le> total_balance w \<and> w_refund w \<le> w_refund w' \<and> (ro \<longrightarrow> unchanged z w w')"

lemma refund_same [simp]:
  "w_refund (w_AddBalance z w a v) = w_refund w" "w_refund (w_CreateAccount z w a) = w_refund w"
  "w_refund (w_SetNonce z w a n) = w_refund w" "w_refund (w_SetCode z K w a code) = w_refund w"
  "w_refund (w_SetState z w a k x) = w_refund w" "w_refund (w_AddLog w l) = w_refund w"
  "w_refund (w_Suicide w a) = w_refund w"
  by (simp_all add: world_writes split: option.split)

lemma refund_transfer:
  "w_acct_SubBalance w a v = Some w' \<Longrightarrow> w_refund w' = w_refund w"
  "w_acct_AddBalance w a v = Some w' \<Longrightarrow> w_refund w' = w_refund w"
  by (auto simp: w_acct_SubBalance_def w_acct_AddBalance_def split: if_splits)

lemma w_balance_upd: "w_balance (w\<lparr>w_accts := (w_accts w)(a \<mapsto> x)\<rparr>) b = ((w_balance w)(a := a_balance x)) b"
  by (simp add: w_balance_def)

lemma total_balance_upd:
  "total_balance (w\<lparr>w_accts := (w_accts w)(a \<mapsto> x)\<rparr>) = total_balance w - w_balance w a + a_balance x"
proof -
  have "(\<Sum>b \<in> UNIV. w_balance (w\<lparr>w_accts := (w_accts w)(a \<mapsto> x)\<rparr>) b)
      = a_balance x + (\<Sum>b \<in> UNIV - {a}. w_balance (w\<lparr>w_accts := (w_accts w)(a \<mapsto> x)\<rparr>) b)"
    by (subst sum.remove [of _ a]) (simp_all add: w_balance_def)
  also have "\<dots> = a_balance x + (\<Sum>b \<in> UNIV - {a}. w_balance w b)"
    by (simp add: w_balance_def)
  also have "\<dots> = a_balance x + (total_balance w - w_balance w a)"
    unfolding total_balance_def by (subst sum.remove [of UNIV a]) simp_all
  finally show ?thesis by (simp add: total_balance_def)
qed

lemma total_balance_cong: "w_accts w' = w_accts w \<Longrightarrow> total_balance w' = total_balance w"
  by (simp add: total_balance_def w_balance_def)

lemma w_get_balance: "a_balance z = 0 \<Longrightarrow> a_balance (w_get z w a) = w_balance w a"
  by (simp add: w_get_def w_balance_def split: option.split)

lemma total_balance_AddBalance:
  "a_balance z = 0 \<Longrightarrow> total_balance (w_AddBalance z w a v) = total_balance w + v"
  by (simp add: w_AddBalance_def w_upd_def total_balance_upd w_get_balance)

lemma total_balance_same:
  assumes "a_balance z = 0"
  shows "total_balance (w_SetNonce z w a n) = total_balance w"
    "total_balance (w_SetCode z K w a code) = total_balance w"
    "total_balance (w_SetState z w a k v) = total_balance w"
    "total_balance (w_CreateAccount z w a) = total_balance w"
    "total_balance (w_AddRefund w r) = total_balance w" "total_balance (w_AddLog w l) = total_balance w"
  using assms
  by (simp_all add: world_writes total_balance_upd w_get_balance) (rule total_balance_cong; simp)+

lemma total_balance_Suicide:
  assumes "a_balance z = 0" "world_ok K w"
  shows "total_balance (w_Suicide (w_AddBalance z w a' (w_balance w a)) a) \<le> total_balance w"
proof -
  let ?w = "w_AddBalance z w a' (w_balance w a)"
  have "w_balance w a \<le> w_balance ?w a"
    using assms(1) w_balance_nonneg [OF assms(2), of a]
    by (cases "a = a'") (simp_all add: w_AddBalance_def w_upd_def w_balance_upd w_get_balance)
  moreover have "total_balance (w_Suicide ?w a) = total_balance ?w - w_balance ?w a"
    by (simp add: w_Suicide_def total_balance_upd w_balance_def split: option.split)
  ultimately show ?thesis using assms(1) by (simp add: total_balance_AddBalance)
qed

lemma total_balance_Transfer:
  assumes "w_acct_SubBalance w a v = Some w1" "w_acct_AddBalance w1 a' v = Some w2"
  shows "total_balance w2 = total_balance w"
proof -
  have "total_balance w1 = total_balance w - v"  if "v \<noteq> 0"
    using assms(1) that by (auto simp: w_acct_SubBalance_def total_balance_upd w_balance_def)
  moreover have "w1 = w" if "v = 0" using assms(1) that by (simp add: w_acct_SubBalance_def)
  moreover have "total_balance w2 = total_balance w1 + v"
    using assms(2) by (auto simp: w_acct_AddBalance_def total_balance_upd w_balance_def)
  ultimately show ?thesis by (cases "v = 0") auto
qed

lemma unchanged_refl: "unchanged z w w"
  by (simp add: unchanged_def)

lemma unchanged_touch: "unchanged z w (w_AddBalance z w a 0)"
  by (auto simp: unchanged_def w_AddBalance_def w_upd_def w_get_def split: option.split)

lemma unchanged_create: "a_balance z = 0 \<Longrightarrow> \<not> w_exists w a \<Longrightarrow> unchanged z w (w_CreateAccount z w a)"
  by (auto simp: unchanged_def w_CreateAccount_def w_get_def w_exists_def w_balance_def split: option.split)

section \<open>The interpretation\<close>

interpretation evm: evm_world stateDB_ops "sdb_inv b" "sdb_ext b" sdb_view "fresh_account b" "Keccak256 b"
    "evm_effect (fresh_account b)" for b
proof
  have z: "a_balance (fresh_account b) = 0" by (simp add: fresh_account_def)
  note T = total_balance_same [OF z]
  fix ro and w w1 w2 w3 :: world and a a' v k x n code l
  show "evm_effect (fresh_account b) ro w w" by (simp add: evm_effect_def unchanged_refl)
  show "evm_effect (fresh_account b) ro w1 w2 \<Longrightarrow> evm_effect (fresh_account b) ro w2 w3 \<Longrightarrow>
      evm_effect (fresh_account b) ro w1 w3"
    by (auto simp: evm_effect_def unchanged_def)
  show "evm_effect (fresh_account b) True w w1 \<Longrightarrow> evm_effect (fresh_account b) ro w w1"
    by (simp add: evm_effect_def)
  show "0 \<le> v \<Longrightarrow> evm_effect (fresh_account b) ro w (w_AddRefund w v)"
    using T(5) by (simp add: evm_effect_def unchanged_def w_AddRefund_def w_get_def)
  show "evm_effect (fresh_account b) ro w (w_AddBalance (fresh_account b) w a 0)"
    by (simp add: evm_effect_def unchanged_touch total_balance_AddBalance [OF z])
  show "\<not> w_exists w a \<Longrightarrow> evm_effect (fresh_account b) ro w (w_CreateAccount (fresh_account b) w a)"
    by (simp add: evm_effect_def unchanged_create z T)
  show "evm_effect (fresh_account b) False w (w_CreateAccount (fresh_account b) w a)"
    "evm_effect (fresh_account b) False w (w_SetNonce (fresh_account b) w a n)"
    "evm_effect (fresh_account b) False w (w_SetCode (fresh_account b) (Keccak256 b) w a code)"
    "evm_effect (fresh_account b) False w (w_SetState (fresh_account b) w a k x)"
    "evm_effect (fresh_account b) False w (w_AddLog w l)"
    by (simp_all add: evm_effect_def T)
  show "world_ok (Keccak256 b) w \<Longrightarrow> evm_effect (fresh_account b) False w
      (w_Suicide (w_AddBalance (fresh_account b) w a' (w_balance w a)) a)"
    by (simp add: evm_effect_def total_balance_Suicide [OF z])
  show "w_acct_SubBalance w a v = Some w1 \<Longrightarrow> w_acct_AddBalance w1 a' v = Some w2 \<Longrightarrow>
      evm_effect (fresh_account b) False w w2"
    by (simp add: evm_effect_def total_balance_Transfer refund_transfer)
qed

end
