(* ===== verification/Vm_Tables.thy ===== *)
theory Vm_Tables
  imports Vm_Interpreter
begin

text \<open>
  Properties of the tables of the virtual machine: the opcodes and their names, the stack requirements, the
  memory and the analysis of jump destinations.
\<close>

section \<open>Opcodes\<close>

lemma read_constant:
  assumes "real_opcode op"
  shows "OpCode (opcode_byte op) = op"
proof (cases op)
  case (PUSHn k)
  with assms have k: "1 \<le> k" "k \<le> 32" by (simp_all add: real_opcode_def)
  then have "unat (opcode_byte op) = 0x60 + (k - 1)"
    using PUSHn by (simp add: unat_word_ariths unat_of_nat)
  with k PUSHn show ?thesis by (simp add: OpCode_def Let_def)
next
  case (DUPn k)
  with assms have k: "1 \<le> k" "k \<le> 16" by (simp_all add: real_opcode_def)
  then have "unat (opcode_byte op) = 0x80 + (k - 1)"
    using DUPn by (simp add: unat_word_ariths unat_of_nat)
  with k DUPn show ?thesis by (simp add: OpCode_def Let_def)
next
  case (SWAPn k)
  with assms have k: "1 \<le> k" "k \<le> 16" by (simp_all add: real_opcode_def)
  then have "unat (opcode_byte op) = 0x90 + (k - 1)"
    using SWAPn by (simp add: unat_word_ariths unat_of_nat)
  with k SWAPn show ?thesis by (simp add: OpCode_def Let_def)
next
  case (LOGn k)
  with assms have k: "k \<le> 4" by (simp_all add: real_opcode_def)
  then have "unat (opcode_byte op) = 0xa0 + k"
    using LOGn by (simp add: unat_word_ariths unat_of_nat)
  with k LOGn show ?thesis by (simp add: OpCode_def Let_def)
next
  case (UNDEFINED b)
  with assms show ?thesis by (simp add: real_opcode_def)
qed (simp_all add: OpCode_def Let_def)

lemma nth_base:
  assumes "list_all2 (\<lambda>op k. unat (opcode_byte op) = k \<and> real_opcode op) xs [base..<m]"
    "base \<le> unat b" "unat b < m"
  shows "opcode_byte (xs ! (unat b - base)) = b \<and> real_opcode (xs ! (unat b - base))"
proof -
  have "unat (opcode_byte (xs ! (unat b - base))) = unat b \<and> real_opcode (xs ! (unat b - base))"
    using list_all2_nthD [OF assms(1), of "unat b - base"] list_all2_lengthD [OF assms(1)] assms(2,3) by simp
  then show ?thesis by (simp add: word_unat_eq_iff)
qed

lemma first_block:
  "list_all2 (\<lambda>op k. unat (opcode_byte op) = k \<and> real_opcode op)
     [STOP, ADD, MUL, SUB, DIV, SDIV, MOD, SMOD, ADDMOD, MULMOD, EXP, SIGNEXTEND] [0..<12]"
  by code_simp

lemma const_blocks:
  "list_all2 (\<lambda>op k. unat (opcode_byte op) = k \<and> real_opcode op)
     [LT, GT, SLT, SGT, EQ, ISZERO, AND_op, OR_op, XOR_op, NOT_op, BYTE] [0x10..<27]"
  "list_all2 (\<lambda>op k. unat (opcode_byte op) = k \<and> real_opcode op)
     [ADDRESS, BALANCE, ORIGIN, CALLER, CALLVALUE, CALLDATALOAD, CALLDATASIZE,
             CALLDATACOPY, CODESIZE, CODECOPY, GASPRICE, EXTCODESIZE, EXTCODECOPY,
             RETURNDATASIZE, RETURNDATACOPY] [0x30..<63]"
  "list_all2 (\<lambda>op k. unat (opcode_byte op) = k \<and> real_opcode op)
     [BLOCKHASH, COINBASE, TIMESTAMP, NUMBER, DIFFICULTY, GASLIMIT] [0x40..<70]"
  "list_all2 (\<lambda>op k. unat (opcode_byte op) = k \<and> real_opcode op)
     [POP, MLOAD, MSTORE, MSTORE8, SLOAD, SSTORE, JUMP, JUMPI, PC, MSIZE, GAS, JUMPDEST] [0x50..<92]"
  "list_all2 (\<lambda>op k. unat (opcode_byte op) = k \<and> real_opcode op) [PUSH, DUP, SWAP] [0xb0..<179]"
  "list_all2 (\<lambda>op k. unat (opcode_byte op) = k \<and> real_opcode op)
     [CREATE, CALL, CALLCODE, RETURN, DELEGATECALL] [0xf0..<245]"
  by (simp_all add: upt_rec_numeral real_opcode_def)

lemma byte_of_read: "opcode_byte (OpCode b) = b \<and> real_opcode (OpCode b)"
proof (cases "OpCode b = UNDEFINED b")
  case False
  define n where "n = unat b"
  have b: "b = word_of_nat n" by (simp add: n_def)
  have fam: "0x60 \<le> n \<Longrightarrow> 0x60 + word_of_nat (n - 0x60) = b" "0x80 \<le> n \<Longrightarrow> 0x80 + word_of_nat (n - 0x80) = b"
    "0x90 \<le> n \<Longrightarrow> 0x90 + word_of_nat (n - 0x90) = b" "0xa0 \<le> n \<Longrightarrow> 0xa0 + word_of_nat (n - 0xa0) = b"
    and one: "n = 0x20 \<Longrightarrow> b = 0x20" "n = 0xfa \<Longrightarrow> b = 0xfa" "n = 0xfd \<Longrightarrow> b = 0xfd" "n = 0xff \<Longrightarrow> b = 0xff"
    by (simp_all add: b of_nat_diff)
  note nth = nth_base [where b = b, folded n_def]
  note blocks = nth [OF first_block] nth [OF const_blocks(1)] nth [OF const_blocks(2)] nth [OF const_blocks(3)]
    nth [OF const_blocks(4)] nth [OF const_blocks(5)] nth [OF const_blocks(6)]
  show ?thesis
    using False fam one blocks unfolding OpCode_def Let_def n_def [symmetric]
    by (auto split: if_split_asm simp: real_opcode_def)
next
  case True
  then show ?thesis by (simp add: real_opcode_def)
qed




section \<open>Memory\<close>

text \<open>
  C31. \<^verbatim>\<open>MLOAD\<close> after \<^verbatim>\<open>MSTORE\<close> at the same offset gives the word that was stored: 32 bytes, big-endian, go to the
  memory and come back. The memory is large enough, as the interpreter sees to before an instruction runs.
\<close>

theorem mload_after_mstore:
  assumes "covered (f_memory f) off 32" "small (f_memory f)" "0 \<le> v" "v < 2 ^ 256"
  shows "\<exists>mem'. opMstore calls (f\<lparr>f_stack := off # v # st\<rparr>) = instr_ok (f\<lparr>f_stack := st, f_memory := mem'\<rparr>) \<and>
    opMload calls (f\<lparr>f_stack := off # st, f_memory := mem'\<rparr>) = instr_ok (f\<lparr>f_stack := v # st, f_memory := mem'\<rparr>)"
proof -
  let ?b = "BigToBytes v 256"
  have len: "length ?b = 32" using assms(3,4) by (intro length_BigToBytes_256) auto
  have set: "mem_Set (f_memory f) (big_Uint64 off) (big_Uint64 32) ?b =
      Some (overwrite (f_memory f) (nat off) (take (nat 32) ?b))"
    using mem_Set_covered [OF assms(1,2), of ?b] by simp
  from mem_Get_Set_same [OF assms(1,2) _ set] len
  have "mem_Get (overwrite (f_memory f) (nat off) (take (nat 32) ?b)) (big_Int64 off) (big_Int64 32) = Some ?b"
    by simp
  moreover have "opMstore calls (f\<lparr>f_stack := off # v # st\<rparr>) = instr_ok (f\<lparr>f_stack := st,
      f_memory := overwrite (f_memory f) (nat off) (take (nat 32) ?b)\<rparr>)"
    using set by (simp add: opMstore_def) (simp add: big_Uint64_def)
  ultimately show ?thesis
    using assms(3)
    by (intro exI [of _ "overwrite (f_memory f) (nat off) (take (nat 32) ?b)"])
      (simp add: opMload_def stack_push_def big_SetBytes_BigToBytes big_Int64_small)
qed

section \<open>Jumps\<close>

text \<open>
  C30. A jump goes to an instruction: the cached bit map accepts a destination exactly when it is inside the code,
  holds \<^verbatim>\<open>JUMPDEST\<close>, and is reached by reading the code instruction by instruction from its start, skipping the
  immediate bytes of each \<^verbatim>\<open>PUSH\<close>. The cache stays right for later questions.
\<close>

theorem jump_destinations_are_instructions:
  assumes "coherent d codehash code" "0 \<le> dest" "length code < 2 ^ 62"
  shows "\<exists>d'. destinations_has d codehash code dest = Some (valid_jumpdest code (nat dest), d') \<and>
    coherent d' codehash code"
  by (rule destinations_has_correct [OF assms])

theorem jump_destinations_are_instructions_witness:
  "\<exists>d'. destinations_has Map.empty 7 [0x60, 0x5b, 0x5b] 1 = Some (valid_jumpdest [0x60, 0x5b, 0x5b] (nat 1), d') \<and>
    coherent d' 7 [0x60, 0x5b, 0x5b]"
  by (rule jump_destinations_are_instructions) (simp_all add: coherent_def)

end
