(* ===== verification/Vm_Properties.thy ===== *)
theory Vm_Properties
  imports Vm_State Vm_Tables
begin

text \<open>
  The properties of the virtual machine on the state database. All are about well-formed environments and
  contracts (\<open>env_ok\<close>, \<open>contract_ok\<close>); an example of both, on which the properties are applied, comes first.
\<close>

abbreviation db_env_ok :: "Backend \<Rightarrow> StateDB Environment \<Rightarrow> bool" where
  "db_env_ok b \<equiv> env_ok stateDB_ops (sdb_inv b) sdb_view (Keccak256 b)"

abbreviation db_frame_ok :: "Backend \<Rightarrow> StateDB frame \<Rightarrow> bool" where
  "db_frame_ok b \<equiv> frame_ok stateDB_ops (sdb_inv b) sdb_view (Keccak256 b)"

abbreviation env_view :: "StateDB Environment \<Rightarrow> world" where
  "env_view env \<equiv> sdb_view (env_Db env)"

section \<open>An example\<close>

text \<open>
  A backend with nothing stored; its hash function, the length of the code, keeps codes of different
  lengths apart. The account at address 1 owns 1000.
\<close>

definition ex_backend :: Backend where
  "ex_backend = \<lparr>OpenStorageTrie = (\<lambda>_. Some Map.empty), ContractCode = (\<lambda>_. None), Storage_Hash = (\<lambda>_. 0),
     Keccak256 = (\<lambda>c. of_nat (length c)), StartingNonce = 0\<rparr>"

definition ex_account :: Account where
  "ex_account = \<lparr>Nonce = 0, Balance = 1000, Root = 0, acct_CodeHash = 0\<rparr>"

definition ex_state :: StateDB where
  "ex_state = state_New ex_backend [1 \<mapsto> ex_account]"

definition ex_rules :: RuleSet where
  "ex_rules = \<lparr>IsHomestead = (\<lambda>_. True), IsAtlantis = (\<lambda>_. True), IsHardfork2 = (\<lambda>_. True),
     RuleSet_GasTable = (\<lambda>_. \<lparr>ExtcodeSize = 700, ExtcodeCopy = 700, BalanceGas = 400, SLoad = 200, Calls = 700,
       SuicideGas = 5000, ExpByte = 50, CreateBySuicide = Some 25000\<rparr>)\<rparr>"

definition ex_env :: "StateDB Environment" where
  "ex_env = \<lparr>env_RuleSet = ex_rules, env_Ops = stateDB_ops, env_Keccak256 = Keccak256 ex_backend,
     env_CreateAddress = (\<lambda>a n. a + ucast n + 100), env_PrecompiledPreAtlantis = Map.empty,
     env_PrecompiledAtlantis = Map.empty, env_StartingNonce = 0, env_Origin = 1, env_BlockNumber = 1,
     env_GetHash = (\<lambda>_. 0), env_Coinbase = 9, env_Time = 0, env_Difficulty = 1, env_GasLimit = 1000000,
     env_Db = ex_state, env_Depth = 0, env_ReturnData = [], evm_readOnly = False\<rparr>"

text \<open>A contract that stores 1 at key 0 and stops.\<close>

definition ex_code :: bytes where
  "ex_code = [0x60, 0x01, 0x60, 0x00, 0x55, 0x00]"

definition ex_contract :: Contract where
  "ex_contract = SetCallCode (NewContract (AccountRef 1) 2 0 30000 1) (Some 2) (Keccak256 ex_backend ex_code) ex_code"

lemma ex_hash_len: "hash_len (Keccak256 ex_backend)"
proof -
  have "length c = length c'"
    if "small c" "small c'" "(of_nat (length c) :: hash) = of_nat (length c')" for c c' :: bytes
  proof -
    have "unat (of_nat (length c) :: hash) = unat (of_nat (length c') :: hash)" using that(3) by simp
    moreover have "unat (of_nat (length x) :: hash) = length x" if "small x" for x :: bytes
      using that by (simp add: unat_of_nat small_def)
    ultimately show ?thesis using that(1,2) by simp
  qed
  then show ?thesis unfolding hash_len_def ex_backend_def Backend.simps by blast
qed

lemma ex_accts: "sdb_accts ex_state = [1 \<mapsto>
    \<lparr>a_nonce = 0, a_balance = 1000, a_codeHash = 0, a_code = [], a_storage = (\<lambda>_. 0), a_suicided = False\<rparr>]"
  by (rule ext)
    (simp add: sdb_accts_def ex_state_def state_New_def trie_view_def so_view_def ex_account_def code_of_def
      ex_backend_def so_GetState_def getTrie_def newObject_def)

lemma ex_state_ok: "sdb_inv ex_backend ex_state"
  by (simp add: sdb_inv_def sdb_core_def backend_ok_def objects_ok_def gone_def revisions_ok_def ex_state_def state_New_def
      ex_backend_def)

lemma ex_env_ok: "db_env_ok ex_backend ex_env"
  using ex_hash_len ex_state_ok ex_accts
  by (simp add: env_ok_def ex_env_def ex_rules_def gasTable_ok_def precompiles_ok_def precompiles_def world_ok_def
      code_ok_def)

lemma ex_contract_ok: "contract_ok (Keccak256 ex_backend) ex_contract"
  unfolding ex_contract_def by (rule new_contract_ok) (simp_all add: code_ok_def ex_code_def small_def)

section \<open>Runs\<close>

lemmas evm_Run_good = evm.evm_Run_ok [unfolded evm.run_ok_def, rule_format]

lemma call_argsI:
  assumes "db_env_ok b env" "ref_ok (Keccak256 b) caller" "small input" "0 \<le> gas" "gas < int n" "gas < 2 ^ 63"
    "0 \<le> price"
  shows "evm.call_args b (int n) (evm_Run n) env caller input gas price"
  using assms by (simp add: evm.call_args_def evm.evm_Run_ok)




lemma ex_frame_ok: "db_frame_ok ex_backend (init_frame ex_env ex_contract [])"
  using ex_env_ok ex_contract_ok
  by (simp add: frame_ok_def init_frame_def NewMemory_def newstack_def mem_ok_def contract_ok_def ex_contract_def
      SetCallCode_def NewContract_def StackLimit_def)


section \<open>Calls\<close>





text \<open>
  C7. No code can mint: the sum of the balances of all accounts is not larger after a call than before it. (It is
  smaller when a contract destroys itself in its own favour.)
\<close>

theorem Call_never_mints:
  assumes "db_env_ok b env" "ref_ok (Keccak256 b) caller" "small input" "0 \<le> gas" "gas < int n" "gas < 2 ^ 63"
    "0 \<le> price" "0 \<le> v" "evm_readOnly env \<and> isHardfork2 env \<longrightarrow> v = 0"
  shows "\<exists>ret err env' caller' g'.
    Call (evm_Run n) env caller a input gas price v = Some (Done (ret, err, env', caller', g')) \<and>
    total_balance (env_view env') \<le> total_balance (env_view env)"
  using evm.Call_good [OF call_argsI [OF assms(1-7)] assms(8), of a] assms(9)
  by (fastforce simp: evm.call_end_def evm_effect_def)

theorem Call_never_mints_witness:
  "\<exists>ret err env' caller' g'.
    Call (evm_Run 101) ex_env (AccountRef 1) 2 [] 100 1 500 = Some (Done (ret, err, env', caller', g')) \<and>
    total_balance (env_view env') \<le> total_balance (env_view ex_env)"
  by (rule Call_never_mints [OF ex_env_ok]) (simp_all add: ex_env_def)



section \<open>Memory\<close>

text \<open>\<^verbatim>\<open>MSTORE\<close> and \<^verbatim>\<open>MLOAD\<close> in a frame of the example with two words of memory.\<close>

definition ex_frame :: "StateDB frame" where
  "ex_frame = (init_frame ex_env ex_contract [])\<lparr>f_memory := replicate 64 0\<rparr>"

theorem mload_after_mstore_witness:
  "\<exists>mem'. opMstore (mk_calls (evm_Run 0)) (ex_frame\<lparr>f_stack := [32, 77]\<rparr>) =
      instr_ok (ex_frame\<lparr>f_stack := [], f_memory := mem'\<rparr>) \<and>
    opMload (mk_calls (evm_Run 0)) (ex_frame\<lparr>f_stack := [32], f_memory := mem'\<rparr>) =
      instr_ok (ex_frame\<lparr>f_stack := [77], f_memory := mem'\<rparr>)"
  by (rule mload_after_mstore) (simp_all add: ex_frame_def covered_def small_def)

end
