(* ===== verification/State_Properties.thy ===== *)
theory State_Properties
  imports State_Refinement
begin

text \<open>
  The properties of the state database: reverting to a snapshot restores the world whatever happened since,
  each method does to the world what its specification says, what is written is read back, and finalising
  does not depend on the order in which a Go map is iterated.
\<close>

section \<open>Histories\<close>

text \<open>
  The states that the methods of the database lead to. The last rule is a completed snapshot and revert,
  around any history.
\<close>

inductive sdb_history :: "StateDB \<Rightarrow> StateDB \<Rightarrow> bool" where
  start: "sdb_history d d"
| AddBalance: "sdb_history d e \<Longrightarrow> sdb_history d (sdb_AddBalance e a v)"
| SetNonce: "sdb_history d e \<Longrightarrow> sdb_history d (sdb_SetNonce e a n)"
| SetCode: "sdb_history d e \<Longrightarrow> sdb_history d (sdb_SetCode e a code)"
| SetState: "sdb_history d e \<Longrightarrow> sdb_history d (sdb_SetState e a k x)"
| GetState: "sdb_history d e \<Longrightarrow> sdb_history d (snd (sdb_GetState e a k))"
| GetCode: "sdb_history d e \<Longrightarrow> sdb_history d (snd (sdb_GetCode e a))"
| CreateAccount: "sdb_history d e \<Longrightarrow> sdb_history d (sdb_CreateAccount e a)"
| Suicide: "sdb_history d e \<Longrightarrow> sdb_history d (snd (sdb_Suicide e a))"
| AddRefund: "sdb_history d e \<Longrightarrow> sdb_history d (sdb_AddRefund e r)"
| AddLog: "sdb_history d e \<Longrightarrow> sdb_history d (sdb_AddLog e l)"
| Snapshot: "sdb_history d e \<Longrightarrow> sdb_history d (snd (sdb_Snapshot e))"
| Revert: "sdb_history d e \<Longrightarrow> sdb_Snapshot e = (sid, e1) \<Longrightarrow> sdb_history e1 e2 \<Longrightarrow>
    sdb_RevertToSnapshot e2 sid = Some e3 \<Longrightarrow> sdb_history d e3"

lemma history_step:
  assumes "sdb_inv b d"
  shows "sdb_inv b (sdb_AddBalance d a v) \<and> sdb_ext b d (sdb_AddBalance d a v)"
    "sdb_inv b (sdb_SetNonce d a n) \<and> sdb_ext b d (sdb_SetNonce d a n)"
    "sdb_inv b (sdb_SetCode d a code) \<and> sdb_ext b d (sdb_SetCode d a code)"
    "sdb_inv b (sdb_SetState d a k x) \<and> sdb_ext b d (sdb_SetState d a k x)"
    "sdb_inv b (snd (sdb_GetState d a k)) \<and> sdb_ext b d (snd (sdb_GetState d a k))"
    "sdb_inv b (snd (sdb_GetCode d a)) \<and> sdb_ext b d (snd (sdb_GetCode d a))"
    "sdb_inv b (sdb_CreateAccount d a) \<and> sdb_ext b d (sdb_CreateAccount d a)"
    "sdb_inv b (snd (sdb_Suicide d a)) \<and> sdb_ext b d (snd (sdb_Suicide d a))"
    "sdb_inv b (sdb_AddRefund d r) \<and> sdb_ext b d (sdb_AddRefund d r)"
    "sdb_inv b (sdb_AddLog d l) \<and> sdb_ext b d (sdb_AddLog d l)"
    "sdb_inv b (snd (sdb_Snapshot d)) \<and> sdb_ext b d (snd (sdb_Snapshot d))"
  using sdb.AddBalance [OF assms refl, of a v] sdb.SetNonce [OF assms refl, of a n]
    sdb.SetCode [OF assms refl, of a code] sdb.SetState [OF assms refl, of a k x]
    sdb.GetState [OF assms, of a k] sdb.GetCode [OF assms, of a] sdb.CreateAccount [OF assms refl, of a]
    sdb.Suicide [OF assms, of a] sdb.AddRefund [OF assms refl, of r] sdb.AddLog [OF assms refl, of l]
    sdb.Snapshot [OF assms]
  by (simp_all add: stateDB_ops_def prod_eq_iff)

lemmas history_inv = history_step [THEN conjunct1]

lemmas history_ext = history_step [THEN conjunct2, THEN sdb_ext_trans [rotated]]

lemma history_ok:
  assumes "sdb_history d e" "sdb_inv b d"
  shows "sdb_inv b e \<and> sdb_ext b d e"
  using assms
proof induction
  case (Revert d e sid e1 e2 e3)
  then have e: "sdb_inv b e" "sdb_ext b d e" by auto
  have "sdb_inv b e1" by (rule sdb_Snapshot_ok(1) [OF e(1) Revert.hyps(2)])
  with Revert.IH have "sdb_inv b e2" "sdb_ext b e1 e2" by auto
  from sdb_Revert_ok [OF e(1) Revert.hyps(2) this] Revert.hyps(4) have "sdb_inv b e3" "sdb_ext b e e3" by auto
  with e(2) show ?case using sdb_ext_trans by blast
qed (simp_all add: sdb_ext_refl history_inv history_ext)

text \<open>
  C2. A revert restores the world: take a snapshot, let any sequence of method calls follow, among them further
  snapshots and completed reverts, and revert: this succeeds, and the world, that is every account with its
  balance, nonce, code and storage, the logs and the refund, is what it was at the snapshot.
\<close>

theorem revert_restores_world:
  assumes "sdb_inv b d" "sdb_Snapshot d = (sid, d1)" "sdb_history d1 d2"
  shows "\<exists>d3. sdb_RevertToSnapshot d2 sid = Some d3 \<and> sdb_inv b d3 \<and> sdb_view d3 = sdb_view d"
proof -
  have "sdb_inv b d1" by (rule sdb_Snapshot_ok(1) [OF assms(1,2)])
  from history_ok [OF assms(3) this] sdb_Revert_ok [OF assms(1,2), of d2] show ?thesis by blast
qed

definition plain_backend :: Backend where
  "plain_backend = \<lparr>OpenStorageTrie = (\<lambda>_. Some Map.empty), ContractCode = (\<lambda>_. None), Storage_Hash = (\<lambda>_. 0),
     Keccak256 = (\<lambda>c. of_nat (length c)), StartingNonce = 0\<rparr>"

definition plain_state :: StateDB where
  "plain_state = state_New plain_backend [1 \<mapsto> \<lparr>Nonce = 0, Balance = 1000, Root = 0, acct_CodeHash = 0\<rparr>]"

lemma plain_state_ok: "sdb_inv plain_backend plain_state"
  by (simp add: sdb_inv_def sdb_core_def backend_ok_def objects_ok_def gone_def revisions_ok_def plain_state_def
      state_New_def plain_backend_def)

theorem revert_restores_world_witness:
  "\<exists>d3. sdb_RevertToSnapshot
      (snd (sdb_Suicide (sdb_AddBalance (snd (sdb_Snapshot plain_state)) 2 7) 1)) 0 = Some d3 \<and>
    sdb_inv plain_backend d3 \<and> sdb_view d3 = sdb_view plain_state"
  by (rule revert_restores_world [OF plain_state_ok, of 0 "snd (sdb_Snapshot plain_state)"])
    (auto simp: sdb_Snapshot_def plain_state_def state_New_def intro: sdb_history.intros)

section \<open>The methods against their specification\<close>

text \<open>
  C9. The methods that change the state refine their specification: on a well-formed database each of them keeps
  it well-formed and changes the world it stands for exactly as the function of the abstract world of the same
  name does; creating an account keeps its balance, and suicide empties it and reports whether there was one.
\<close>

theorem methods_refine_world:
  assumes "sdb_inv b d"
  shows "(sdb_inv b (sdb_AddBalance d a v) \<and>
      sdb_view (sdb_AddBalance d a v) = w_AddBalance (fresh_account b) (sdb_view d) a v) \<and>
    (sdb_inv b (sdb_SetNonce d a n) \<and>
      sdb_view (sdb_SetNonce d a n) = w_SetNonce (fresh_account b) (sdb_view d) a n) \<and>
    (sdb_inv b (sdb_SetCode d a code) \<and>
      sdb_view (sdb_SetCode d a code) = w_SetCode (fresh_account b) (Keccak256 b) (sdb_view d) a code) \<and>
    (sdb_inv b (sdb_SetState d a k x) \<and>
      sdb_view (sdb_SetState d a k x) = w_SetState (fresh_account b) (sdb_view d) a k x) \<and>
    (sdb_inv b (sdb_CreateAccount d a) \<and>
      sdb_view (sdb_CreateAccount d a) = w_CreateAccount (fresh_account b) (sdb_view d) a) \<and>
    (sdb_inv b (snd (sdb_Suicide d a)) \<and> sdb_view (snd (sdb_Suicide d a)) = w_Suicide (sdb_view d) a \<and>
      fst (sdb_Suicide d a) = w_exists (sdb_view d) a)"
proof -
  note M = sdb.AddBalance [OF assms refl, of a v] sdb.SetNonce [OF assms refl, of a n]
    sdb.SetCode [OF assms refl, of a code] sdb.SetState [OF assms refl, of a k x]
    sdb.CreateAccount [OF assms refl, of a] sdb.Suicide [OF assms, of a]
  then show ?thesis by (cases "sdb_Suicide d a") (simp add: stateDB_ops_def)
qed

theorem methods_refine_world_witness:
  "sdb_view (sdb_AddBalance plain_state 2 7) =
     w_AddBalance (fresh_account plain_backend) (sdb_view plain_state) 2 7"
  using methods_refine_world [OF plain_state_ok, of 2 7] by blast

text \<open>
  C18. What was written is read: a storage slot reads as the value written last, and a write to one slot or
  account changes no other.
\<close>

theorem GetState_after_SetState:
  assumes "sdb_inv b d"
  shows "fst (sdb_GetState (sdb_SetState d a k x) a' k') =
    (if a' = a \<and> k' = k then x else fst (sdb_GetState d a' k'))"
proof -
  let ?d = "sdb_SetState d a k x"
  have set: "sdb_inv b ?d" "sdb_view ?d = w_SetState (fresh_account b) (sdb_view d) a k x"
    using sdb.SetState [OF assms refl, of a k x] by (auto simp: stateDB_ops_def)
  have get: "fst (sdb_GetState e a' k') = w_storage (sdb_view e) a' k'" if "sdb_inv b e" for e
    using sdb.GetState [OF that, of a' k'] by (cases "sdb_GetState e a' k'") (simp add: stateDB_ops_def)
  have "a_storage (fresh_account b) = (\<lambda>_. 0)" by (simp add: fresh_account_def)
  then show ?thesis
    unfolding get [OF set(1)] get [OF assms] set(2)
    by (auto simp: w_SetState_def w_upd_def w_get_def w_storage_def split: option.split)
qed

theorem GetState_after_SetState_witness:
  "fst (sdb_GetState (sdb_SetState plain_state 1 5 9) 1 5) = 9"
  using GetState_after_SetState [OF plain_state_ok, of 1 5 9 1 5] by simp

section \<open>Finalise\<close>

text \<open>An object after \<^verbatim>\<open>Finalise\<close>, and what is in the trie for it.\<close>

definition dead_object :: "bool \<Rightarrow> Backend \<Rightarrow> StateObject \<Rightarrow> bool" where
  "dead_object del b ob \<longleftrightarrow> suicided ob \<or> del \<and> so_empty b ob"

definition final_object :: "bool \<Rightarrow> Backend \<Rightarrow> StateObject \<Rightarrow> StateObject" where
  "final_object del b ob = (if dead_object del b ob then ob\<lparr>deleted := True\<rparr> else updateRoot b ob)"

definition final_account :: "bool \<Rightarrow> Backend \<Rightarrow> StateObject \<Rightarrow> Account option" where
  "final_account del b ob = (if dead_object del b ob then None else Some (so_data (updateRoot b ob)))"

text \<open>The whole effect on the accounts in \<open>A\<close>, without an order.\<close>

definition finalise_all :: "bool \<Rightarrow> address set \<Rightarrow> StateDB \<Rightarrow> StateDB" where
  "finalise_all del A d = d\<lparr>
     stateObjects := (\<lambda>a. if a \<in> A then map_option (final_object del (sdb_db d)) (stateObjects d a) else stateObjects d a),
     sdb_trie := (\<lambda>a. case stateObjects d a of
        Some ob \<Rightarrow> if a \<in> A then final_account del (sdb_db d) ob else sdb_trie d a | None \<Rightarrow> sdb_trie d a),
     stateObjectsDirty := stateObjectsDirty d \<union> {a \<in> A. stateObjects d a \<noteq> None}\<rparr>"

lemma updateRoot_address [simp]: "so_address (updateRoot b ob) = so_address ob"
  by (simp add: updateRoot_def updateTrie_def Let_def case_prod_unfold)

lemma final_object_address [simp]: "so_address (final_object del b ob) = so_address ob"
  by (simp add: final_object_def)

definition keyed :: "StateDB \<Rightarrow> bool" where
  "keyed d \<longleftrightarrow> (\<forall>a ob. stateObjects d a = Some ob \<longrightarrow> so_address ob = a)"

lemma finalise_one_eq:
  assumes "keyed d"
  shows "finalise_one del a d = finalise_all del {a} d"
proof (cases "stateObjects d a")
  case None
  then show ?thesis
    by (cases d) (auto simp: finalise_one_def finalise_all_def fun_eq_iff split: option.split)
next
  case (Some ob)
  with assms have "so_address ob = a" by (simp add: keyed_def)
  with Some show ?thesis
    by (cases d) (auto simp: finalise_one_def finalise_all_def fun_eq_iff final_object_def final_account_def
        dead_object_def deleteStateObject_def updateStateObject_def setStateObject_def Let_def split: option.split)
qed

lemma keyed_finalise_all: "keyed d \<Longrightarrow> keyed (finalise_all del A d)"
  by (auto simp: keyed_def finalise_all_def split: if_splits)

lemma finalise_all_Un:
  assumes "A \<inter> B = {}"
  shows "finalise_all del B (finalise_all del A d) = finalise_all del (A \<union> B) d"
  using assms
  by (cases d) (auto simp: finalise_all_def fun_eq_iff split: option.split)

lemma fold_finalise_one:
  assumes "keyed d" "distinct order"
  shows "fold (finalise_one del) order d = finalise_all del (set order) d"
  using assms
proof (induction order arbitrary: d)
  case Nil
  then show ?case by (cases d) (auto simp: finalise_all_def fun_eq_iff split: option.split)
next
  case (Cons a order)
  then have "fold (finalise_one del) (a # order) d = finalise_all del (set order) (finalise_all del {a} d)"
    by (simp add: finalise_one_eq keyed_finalise_all)
  also have "\<dots> = finalise_all del ({a} \<union> set order) d"
    using Cons.prems(2) by (intro finalise_all_Un) auto
  finally show ?case by simp
qed

text \<open>
  C19. \<^verbatim>\<open>Finalise\<close> ranges over a Go map, whose order is not specified: any two orders over the same dirty accounts
  give the same database, so the state root is determined.
\<close>

theorem Finalise_order_irrelevant:
  assumes "sdb_inv b d" "distinct order" "distinct order'" "set order = set order'"
  shows "sdb_Finalise order del d = sdb_Finalise order' del d"
proof -
  have "keyed d" using assms(1) by (simp add: sdb_inv_def sdb_core_def objects_ok_def keyed_def)
  with assms(2-4) show ?thesis by (simp add: sdb_Finalise_def fold_finalise_one)
qed

definition two_dirty :: StateDB where
  "two_dirty = sdb_AddBalance (sdb_AddBalance plain_state 1 5) 2 7"

lemma two_dirty_ok: "sdb_inv plain_backend two_dirty"
  unfolding two_dirty_def by (intro history_inv plain_state_ok)

theorem Finalise_order_irrelevant_witness:
  "sdb_Finalise [1, 2] True two_dirty = sdb_Finalise [2, 1] True two_dirty"
  by (rule Finalise_order_irrelevant [OF two_dirty_ok]) auto


definition dead_state :: StateDB where
  "dead_state = plain_state\<lparr>stateObjects :=
     [1 \<mapsto> (newObject 1 \<lparr>Nonce = 0, Balance = 0, Root = 0, acct_CodeHash = 0\<rparr>)\<lparr>suicided := True\<rparr>]\<rparr>"

lemma dead_state_ok: "sdb_inv plain_backend dead_state"
  using plain_state_ok
  by (simp add: dead_state_def sdb_inv_def sdb_core_def objects_ok_def gone_def revisions_ok_def newObject_def)


section \<open>Copy\<close>

text \<open>
  C34. A finding: \<^verbatim>\<open>Copy\<close> can dereference nil. Touching the RIPEMD-160 precompile marks it dirty once more than the
  journal entries do, so after reverting the touch of an account that does not exist it is dirty without an
  object, and \<^verbatim>\<open>Copy\<close>, which \<^verbatim>\<open>Finalise\<close>'s guard against this case was not added to, panics.
\<close>

theorem Copy_panics_after_reverted_touch:
  "\<exists>d. sdb_RevertToSnapshot (sdb_AddBalance (snd (sdb_Snapshot (state_New b Map.empty))) ripemd 0)
      (fst (sdb_Snapshot (state_New b Map.empty))) = Some d \<and> sdb_Copy d = None"
proof -
  let ?d1 = "snd (sdb_Snapshot (state_New b Map.empty))"
  let ?d2 = "sdb_AddBalance ?d1 ripemd 0"
  have "\<exists>ob. ?d2 = ?d1\<lparr>stateObjects := [ripemd \<mapsto> ob], dirties := [ripemd \<mapsto> 3],
      entries := [touchChange ripemd, createObjectChange ripemd]\<rparr>"
    by (simp add: sdb_AddBalance_def sdb_Snapshot_def state_New_def GetOrNewStateObject_def getStateObject_def
        createObject_def so_AddBalance_def so_empty_def so_touch_def so_setNonce_def newObject_def setStateObject_def
        journal_append_def journal_dirty_def dirties_count_def dirtied_def Let_def) (rule exI, rule refl)
  then obtain ob where d2: "?d2 = ?d1\<lparr>stateObjects := [ripemd \<mapsto> ob], dirties := [ripemd \<mapsto> 3],
      entries := [touchChange ripemd, createObjectChange ripemd]\<rparr>" ..
  have "sort_Search (\<lambda>i. True) 0 (Suc 0) = 0"
    by (subst sort_Search.simps, simp, subst sort_Search.simps, simp)
  then show ?thesis
    unfolding d2
    by (simp add: sdb_Snapshot_def state_New_def sdb_RevertToSnapshot_def journal_revert_def numeral_2_eq_2
        entry_revert_def undirty_def dirtied_def dirties_count_def sdb_Copy_def Let_def)
qed

end
