(* ===== verification/Vm_Arith.thy ===== *)
theory Vm_Arith
  imports Vm_Instructions "HOL-Library.Signed_Division"
begin

text \<open>
  The arithmetic instructions compute on unbounded integers. On operands that are values of 256-bit words they
  are the operations of the words: the machine's arithmetic is that of two's complement with wrap-around.
\<close>

section \<open>From integers to words\<close>

abbreviation on_stack :: "'d frame \<Rightarrow> hash list \<Rightarrow> stack \<Rightarrow> 'd frame" where
  "on_stack f ws st \<equiv> f\<lparr>f_stack := map uint ws @ st\<rparr>"

lemma S256_word: "S256 (uint (x :: hash)) = sint x"
  using S256_sint [of "uint x"] uint_lt_pow [of x] by simp

lemma uint_pos: "y \<noteq> 0 \<Longrightarrow> 0 < uint (y :: hash)"
  using uint_nonnegative [of y] uint_0_iff [of y] by linarith

lemma S256_sint_word: "S256 (sint (x :: hash)) = sint x"
  using sint_lt [of x] by (simp add: S256_def tt255_eq)

lemma big_Div_uint: "y \<noteq> 0 \<Longrightarrow> U256 (big_Div (uint x) (uint y)) = uint ((x :: hash) div y)"
  using uint_pos [of y] by (simp add: U256_uint big_Div_def uint_div_distrib [symmetric])

lemma big_Mod_uint: "y \<noteq> 0 \<Longrightarrow> U256 (big_Mod (uint x) (uint y)) = uint ((x :: hash) mod y)"
  using uint_pos [of y] by (simp add: U256_uint big_Mod_def uint_mod_distrib [symmetric])

lemma U256_arith:
  fixes x y :: hash
  shows "U256 (uint x + uint y) = uint (x + y)" "U256 (uint x - uint y) = uint (x - y)"
    "U256 (uint x * uint y) = uint (x * y)" "U256 (NOT (uint x)) = uint (NOT x)"
  by (simp_all add: U256_uint wi_hom_syms of_int_not_eq)

lemma power_mod_words:
  "uint ((x :: hash) ^ n) = uint x ^ n mod 2 ^ 256"
proof (induction n)
  case (Suc n)
  have "uint (x ^ Suc n) = uint x * uint (x ^ n) mod 2 ^ 256" by (simp add: uint_word_ariths)
  also have "\<dots> = uint x * (uint x ^ n mod 2 ^ 256) mod 2 ^ 256" using Suc by simp
  also have "\<dots> = uint x * uint x ^ n mod 2 ^ 256" by (rule mod_mult_right_eq)
  finally show ?case by simp
qed simp

lemma big_Exp_uint:
  fixes x y :: hash
  shows "U256 (big_Exp (uint x) (uint y) Pow256) = uint (x ^ unat y)"
proof -
  have p: "Pow256 = 2 ^ 256" unfolding Pow256_def BigPow_def big_Exp_def Let_def by simp
  have "(if uint y \<le> 0 then 1 else uint x ^ nat (uint y)) = uint x ^ unat y"
  proof (cases "y = 0")
    case False
    then have "\<not> uint y \<le> 0" using uint_pos [of y] by linarith
    then show ?thesis by (simp only: if_False nat_uint_eq)
  qed simp
  then have "big_Exp (uint x) (uint y) Pow256 = uint x ^ unat y mod \<bar>Pow256\<bar>"
    unfolding big_Exp_def Let_def by (simp add: p)
  then show ?thesis unfolding U256_mod power_mod_words p by (simp only: power_abs abs_numeral mod_mod_trivial)
qed

lemma sdiv_abs:
  fixes x y :: int
  assumes "y \<noteq> 0"
  shows "big_Div \<bar>x\<bar> \<bar>y\<bar> * (if x * y < 0 then - 1 else 1) = x sdiv y"
  using assms
  by (cases x "0 :: int" rule: linorder_cases; cases y "0 :: int" rule: linorder_cases)
    (simp_all add: big_Div_def signed_divide_int_def mult_less_0_iff)

lemma smod_abs:
  fixes x y :: int
  assumes "y \<noteq> 0"
  shows "big_Mod \<bar>x\<bar> \<bar>y\<bar> * (if x < 0 then - 1 else 1) = x smod y"
  using assms
  by (cases x "0 :: int" rule: linorder_cases) (simp_all add: big_Mod_def signed_modulo_int_def)

lemma sint_eq_zero: "sint (x :: hash) = 0 \<longleftrightarrow> x = 0"
  using signed_word_eqI [of x 0] by auto

lemma S256_0 [simp]: "S256 0 = 0"
  by (simp add: S256_def tt255_eq)

section \<open>Unsigned arithmetic\<close>

text \<open>
  C27. \<^verbatim>\<open>ADD\<close>, \<^verbatim>\<open>SUB\<close>, \<^verbatim>\<open>MUL\<close>, \<^verbatim>\<open>DIV\<close>, \<^verbatim>\<open>MOD\<close> and \<^verbatim>\<open>EXP\<close> replace the two words on top of the stack by the result of
  256-bit arithmetic, with wrap-around; division and remainder by 0 give 0.
\<close>

theorem unsigned_arithmetic:
  fixes x y :: hash
  shows "opAdd calls (on_stack f [x, y] st) = instr_ok (on_stack f [x + y] st) \<and>
    opSub calls (on_stack f [x, y] st) = instr_ok (on_stack f [x - y] st) \<and>
    opMul calls (on_stack f [x, y] st) = instr_ok (on_stack f [x * y] st) \<and>
    opDiv calls (on_stack f [x, y] st) = instr_ok (on_stack f [x div y] st) \<and>
    opMod calls (on_stack f [x, y] st) = instr_ok (on_stack f [if y = 0 then 0 else x mod y] st) \<and>
    opExp calls (on_stack f [x, y] st) = instr_ok (on_stack f [x ^ unat y] st)"
  by (auto simp: opAdd_def opSub_def opMul_def opDiv_def opMod_def opExp_def stack_push_def U256_arith
      big_Div_uint big_Mod_uint big_Exp_uint uint_0_iff)

text \<open>
  C28. \<^verbatim>\<open>SDIV\<close> and \<^verbatim>\<open>SMOD\<close> are division and remainder of two's complement numbers, truncated towards 0, with the
  remainder's sign that of the dividend, and 0 for a divisor of 0; \<^verbatim>\<open>SLT\<close> and \<^verbatim>\<open>SGT\<close> compare signed values.
\<close>

theorem signed_arithmetic:
  fixes x y :: hash
  shows "opSdiv calls (on_stack f [x, y] st) = instr_ok (on_stack f [word_of_int (sint x sdiv sint y)] st) \<and>
    opSmod calls (on_stack f [x, y] st) =
      instr_ok (on_stack f [if y = 0 then 0 else word_of_int (sint x smod sint y)] st) \<and>
    opSlt calls (on_stack f [x, y] st) = instr_ok (on_stack f [of_bool (x <s y)] st) \<and>
    opSgt calls (on_stack f [x, y] st) = instr_ok (on_stack f [of_bool (y <s x)] st)"
proof -
  have zero: "sint y = 0 \<longleftrightarrow> y = 0" by (simp add: sint_eq_zero)
  have div: "U256 (big_Div \<bar>sint x\<bar> \<bar>sint y\<bar> * (if sint x * sint y < 0 then - 1 else 1)) =
      uint (word_of_int (sint x sdiv sint y) :: hash)" if "sint y \<noteq> 0"
    unfolding sdiv_abs [OF that] U256_uint ..
  have mod: "U256 (big_Mod \<bar>sint x\<bar> \<bar>sint y\<bar> * (if sint x < 0 then - 1 else 1)) =
      uint (word_of_int (sint x smod sint y) :: hash)" if "sint y \<noteq> 0"
    unfolding smod_abs [OF that] U256_uint ..
  have "opSdiv calls (on_stack f [x, y] st) = instr_ok (on_stack f [word_of_int (sint x sdiv sint y)] st)"
    using div zero by (cases "y = 0") (simp_all add: opSdiv_def stack_push_def S256_word Let_def)
  moreover have "opSmod calls (on_stack f [x, y] st) =
      instr_ok (on_stack f [if y = 0 then 0 else word_of_int (sint x smod sint y)] st)"
    using mod zero by (cases "y = 0") (simp_all add: opSmod_def stack_push_def S256_word Let_def)
  moreover have "opSlt calls (on_stack f [x, y] st) = instr_ok (on_stack f [of_bool (x <s y)] st)"
    "opSgt calls (on_stack f [x, y] st) = instr_ok (on_stack f [of_bool (y <s x)] st)"
    by (simp_all add: opSlt_def opSgt_def stack_push_def S256_sint_word S256_word word_sless_alt)
  ultimately show ?thesis by simp
qed

section \<open>Bits and bytes\<close>

lemma uint_bitops:
  fixes x y :: hash
  shows "uint x AND uint y = uint (x AND y)" "uint x OR uint y = uint (x OR y)" "uint x XOR uint y = uint (x XOR y)"
  by (simp_all add: unsigned_and_eq unsigned_or_eq unsigned_xor_eq)

lemma U256_bit: "bit (U256 k) i \<longleftrightarrow> i < 256 \<and> bit k i"
  by (simp add: U256_uint bit_uint_iff bit_word_of_int_iff)

lemma sign_extend_word:
  fixes x :: hash
  assumes "n < 256"
  shows "U256 (if bit (uint x) n then uint x OR NOT (push_bit n 1 - 1) else uint x AND (push_bit n 1 - 1)) =
    uint (signed_take_bit n x)"
proof (rule bit_eqI)
  fix i
  have m: "push_bit n 1 - 1 = (mask n :: int)" by (simp add: mask_eq_exp_minus_1 push_bit_eq_mult)
  show "bit (U256 (if bit (uint x) n then uint x OR NOT (push_bit n 1 - 1) else uint x AND (push_bit n 1 - 1))) i =
      bit (uint (signed_take_bit n x)) i"
    unfolding m using assms
    by (auto simp: U256_bit bit_uint_iff bit_signed_take_bit_iff bit_or_iff bit_and_iff bit_not_iff bit_mask_iff
        min_def not_less)
qed

text \<open>
  C29. \<^verbatim>\<open>AND\<close>, \<^verbatim>\<open>OR\<close>, \<^verbatim>\<open>XOR\<close> and \<^verbatim>\<open>NOT\<close> are bitwise, and \<^verbatim>\<open>SIGNEXTEND\<close> extends the sign of the number in the lowest
  \<open>k + 1\<close> bytes of a word to the whole word; for \<open>k\<close> of 31 and more it leaves the word as it is.
\<close>

theorem bitwise_operations:
  fixes x y k :: hash
  shows "opAnd calls (on_stack f [x, y] st) = instr_ok (on_stack f [x AND y] st) \<and>
    opOr calls (on_stack f [x, y] st) = instr_ok (on_stack f [x OR y] st) \<and>
    opXor calls (on_stack f [x, y] st) = instr_ok (on_stack f [x XOR y] st) \<and>
    opNot calls (on_stack f [x] st) = instr_ok (on_stack f [NOT x] st) \<and>
    opSignExtend calls (on_stack f [k, x] st) =
      instr_ok (on_stack f [if k < 31 then signed_take_bit (8 * unat k + 7) x else x] st)"
proof -
  have "opSignExtend calls (on_stack f [k, x] st) =
      instr_ok (on_stack f [if k < 31 then signed_take_bit (8 * unat k + 7) x else x] st)"
  proof (cases "k < 31")
    case True
    then have k: "uint k < 31" by (simp add: word_less_def)
    then obtain n where n: "uint k = int n" "n < 31" by (metis nonneg_int_cases uint_nonnegative of_nat_less_numeral_iff)
    then have "unat k = n" by (simp add: unat_eq_nat_uint)
    moreover have "unat (big_Uint64 (int n) * 8 + 7) = 8 * n + 7"
      using n(2) by (simp add: big_Uint64_def unat_word_ariths unat_of_nat)
    moreover have "U256 (if BitTest (uint x) (8 * n + 7) then uint x OR NOT (2 ^ (8 * n + 7) - 1)
        else uint x AND (2 ^ (8 * n + 7) - 1)) = uint (signed_take_bit (8 * n + 7) x)"
      unfolding BitTest_def using n(2) by (intro sign_extend_word [unfolded push_bit_of_1]) simp
    ultimately show ?thesis
      using True n by (simp only: opSignExtend_def) (simp add: stack_push_def Let_def)
  next
    case False
    then have "\<not> uint k < 31" by (simp add: word_less_def)
    with False show ?thesis by (simp add: opSignExtend_def)
  qed
  then show ?thesis
    by (simp add: opAnd_def opOr_def opXor_def opNot_def stack_push_def uint_bitops U256_arith)
qed

end
