(* ===== verification/Rlp_Encode.thy ===== *)
theory Rlp_Encode
  imports Big
begin

text \<open>
  \<^verbatim>\<open>rlp/encode.go\<close>: the encoder of package rlp. Go values are serialised into an \<^verbatim>\<open>encbuf\<close>, which keeps the
  string data apart from the list headers, because the size of a list is known only when it ends; the
  headers are put between the data at the end. The specification is the recursive definition of RLP
  (\<open>rlp_item\<close>, \<open>encoding\<close>), and the lemmas show that the buffer yields exactly these bytes, without a write
  out of range.

  Lengths and offsets (Go's \<^verbatim>\<open>int\<close>) are natural numbers: they count bytes in memory. The types that
  reflection finds at run time are the constructors of \<open>goval\<close>, one for each writer function.
\<close>

section \<open>Sizes and headers\<close>

definition putint :: "uint64 \<Rightarrow> bytes" where
  "putint i =
     (let b = (\<lambda>k. ucast (drop_bit k i) :: byte) in
      if i < 0x100 then [b 0]
      else if i < 0x10000 then [b 8, b 0]
      else if i < 0x1000000 then [b 16, b 8, b 0]
      else if i < 0x100000000 then [b 24, b 16, b 8, b 0]
      else if i < 0x10000000000 then [b 32, b 24, b 16, b 8, b 0]
      else if i < 0x1000000000000 then [b 40, b 32, b 24, b 16, b 8, b 0]
      else if i < 0x100000000000000 then [b 48, b 40, b 32, b 24, b 16, b 8, b 0]
      else [b 56, b 48, b 40, b 32, b 24, b 16, b 8, b 0])"

lemma unat_lt_pow: "unat (w :: 'a::len word) < 2 ^ LENGTH('a)"
  by (rule unsigned_less)

lemma unat_drop_bit: "unat (drop_bit k (i :: uint64)) = unat i div 2 ^ k"
proof -
  have "unat (drop_bit k i) = drop_bit k (unat i)"
    using unat_lt_pow [of i] by (simp add: unsigned_drop_bit_eq take_bit_nat_eq_self)
  then show ?thesis by (simp add: drop_bit_eq_div)
qed

function intsize_from :: "nat \<Rightarrow> uint64 \<Rightarrow> nat" where
  "intsize_from sz i =
     (let i = drop_bit 8 i in if i = 0 then sz else intsize_from (sz + 1) i)"
  by pat_completeness auto

termination
proof (relation "measure (\<lambda>(sz, i). unat i)", goal_cases)
  case (2 sz i x)
  then have "drop_bit 8 i \<noteq> 0" by simp
  then have "unat (drop_bit 8 i) \<noteq> 0" by (simp add: unat_eq_0)
  then have "unat i \<noteq> 0" by (auto simp: unat_drop_bit simp del: unat_eq_0)
  then show ?case using 2 by (simp add: unat_drop_bit)
qed simp

declare intsize_from.simps [simp del]

definition intsize :: "uint64 \<Rightarrow> nat" where
  "intsize i = intsize_from 1 i"

definition headsize :: "uint64 \<Rightarrow> nat" where
  "headsize sz = (if sz < 56 then 1 else 1 + intsize sz)"

text \<open>\<^verbatim>\<open>puthead\<close> as the bytes it writes to the beginning of its buffer; their number is its result.\<close>

definition puthead :: "byte \<Rightarrow> byte \<Rightarrow> uint64 \<Rightarrow> bytes" where
  "puthead smalltag largetag sz =
     (if sz < 56 then [smalltag + ucast sz]
      else (let b = putint sz in (largetag + word_of_nat (length b)) # b))"

section \<open>The buffer\<close>

record listhead =
  lh_offset :: nat
  lh_size :: nat

record encbuf =
  eb_str :: bytes
  eb_lheads :: "listhead list"
  eb_lhsize :: nat

definition encbuf_empty :: encbuf where
  "encbuf_empty = \<lparr>eb_str = [], eb_lheads = [], eb_lhsize = 0\<rparr>"

definition listhead_encode :: "listhead \<Rightarrow> bytes" where
  "listhead_encode head = puthead 0xC0 0xF7 (word_of_nat (lh_size head))"

definition eb_append :: "encbuf \<Rightarrow> bytes \<Rightarrow> encbuf" where
  "eb_append w b = w\<lparr>eb_str := eb_str w @ b\<rparr>"

definition encodeStringHeader :: "encbuf \<Rightarrow> nat \<Rightarrow> encbuf" where
  "encodeStringHeader w sz =
     (if sz < 56 then eb_append w [0x80 + word_of_nat sz]
      else (let b = putint (word_of_nat sz) in eb_append w ((0xB7 + word_of_nat (length b)) # b)))"

definition encodeString :: "encbuf \<Rightarrow> bytes \<Rightarrow> encbuf" where
  "encodeString w b =
     (if length b = 1 \<and> hd b \<le> 0x7F then eb_append w [hd b]
      else eb_append (encodeStringHeader w (length b)) b)"

text \<open>\<^verbatim>\<open>list\<close> returns a pointer to the new header: here its index in \<^verbatim>\<open>lheads\<close>.\<close>

definition eb_list :: "encbuf \<Rightarrow> nat \<times> encbuf" where
  "eb_list w =
     (length (eb_lheads w),
      w\<lparr>eb_lheads := eb_lheads w @ [\<lparr>lh_offset = length (eb_str w), lh_size = eb_lhsize w\<rparr>]\<rparr>)"

definition eb_size :: "encbuf \<Rightarrow> nat" where
  "eb_size w = length (eb_str w) + eb_lhsize w"

definition eb_listEnd :: "encbuf \<Rightarrow> nat \<Rightarrow> encbuf" where
  "eb_listEnd w i =
     (let lh = eb_lheads w ! i;
          sz = eb_size w - lh_offset lh - lh_size lh
      in w\<lparr>eb_lheads := (eb_lheads w)[i := lh\<lparr>lh_size := sz\<rparr>],
           eb_lhsize := eb_lhsize w + (if sz < 56 then 1 else 1 + intsize (word_of_nat sz))\<rparr>)"

text \<open>
  \<^verbatim>\<open>toBytes\<close> fills a buffer of the computed size. Slicing panics when the bounds are out of order or out of
  range, so does writing a header past the end of the buffer; \<^verbatim>\<open>copy\<close> copies as much as fits.
\<close>

definition go_slice :: "bytes \<Rightarrow> nat \<Rightarrow> nat \<Rightarrow> bytes option" where
  "go_slice b i j = (if i \<le> j \<and> j \<le> length b then Some (take (j - i) (drop i b)) else None)"

definition go_copy :: "bytes \<Rightarrow> nat \<Rightarrow> bytes \<Rightarrow> (nat \<times> bytes) option" where
  "go_copy out pos src =
     (if pos \<le> length out
      then (let n = min (length out - pos) (length src)
            in Some (n, take pos out @ take n src @ drop (pos + n) out))
      else None)"

definition put_at :: "bytes \<Rightarrow> nat \<Rightarrow> bytes \<Rightarrow> bytes option" where
  "put_at out pos b =
     (if pos + length b \<le> length out then Some (take pos out @ b @ drop (pos + length b) out) else None)"

fun toBytes_heads :: "bytes \<Rightarrow> listhead list \<Rightarrow> bytes \<Rightarrow> nat \<Rightarrow> nat \<Rightarrow> bytes option" where
  "toBytes_heads str [] out pos strpos = do {
     src \<leftarrow> go_slice str strpos (length str);
     (_, out) \<leftarrow> go_copy out pos src;
     Some out
   }"
| "toBytes_heads str (head # heads) out pos strpos = do {
     src \<leftarrow> go_slice str strpos (lh_offset head);
     (n, out) \<leftarrow> go_copy out pos src;
     let enc = listhead_encode head;
     out \<leftarrow> put_at out (pos + n) enc;
     toBytes_heads str heads out (pos + n + length enc) (strpos + n)
   }"

definition toBytes :: "encbuf \<Rightarrow> bytes option" where
  "toBytes w = toBytes_heads (eb_str w) (eb_lheads w) (replicate (eb_size w) 0) 0 0"

text \<open>\<^verbatim>\<open>toWriter\<close>, on a writer that takes all it is given, as the bytes written to it.\<close>

fun toWriter_heads :: "bytes \<Rightarrow> listhead list \<Rightarrow> nat \<Rightarrow> bytes option" where
  "toWriter_heads str [] strpos =
     (if strpos < length str then go_slice str strpos (length str) else Some [])"
| "toWriter_heads str (head # heads) strpos = do {
     data \<leftarrow> (if strpos < lh_offset head then go_slice str strpos (lh_offset head) else Some []);
     rest \<leftarrow> toWriter_heads str heads (strpos + length data);
     Some (data @ listhead_encode head @ rest)
   }"

definition toWriter :: "encbuf \<Rightarrow> bytes option" where
  "toWriter w = toWriter_heads (eb_str w) (eb_lheads w) 0"

section \<open>The writers\<close>

text \<open>
  A value of one of the types that can be serialised. \<open>GBigInt None\<close> is a nil pointer to a \<^verbatim>\<open>big.Int\<close>,
  \<open>GNilPtr True\<close> a nil pointer to a byte array and \<open>GNilPtr False\<close> one to a struct or another array; the flag
  of \<open>GSlice\<close> is the struct tag "tail". A byte slice and a byte array are both \<open>GBytes\<close>.
\<close>

datatype goval =
    GRaw bytes
  | GUint uint64
  | GBool bool
  | GBigInt "int option"
  | GBytes bytes
  | GString bytes
  | GNilInterface
  | GNilPtr bool
  | GSlice bool "goval list"
  | GStruct "goval list"

datatype rlp_error =
    EOL | EOF | ErrUnexpectedEOF | ErrExpectedString | ErrExpectedList | ErrCanonInt | ErrCanonSize
  | ErrElemTooLarge | ErrValueTooLarge | ErrMoreThanOneValue | errNotInList | errNotAtEOL
  | errUintOverflow | ErrNegativeBigInt | ErrInvalidBool | DecodeError string

definition writeUint :: "uint64 \<Rightarrow> encbuf \<Rightarrow> encbuf" where
  "writeUint i w =
     (if i = 0 then eb_append w [0x80]
      else if i < 128 then eb_append w [ucast i]
      else (let b = putint i in eb_append w ((0x80 + word_of_nat (length b)) # b)))"

definition writeBool :: "bool \<Rightarrow> encbuf \<Rightarrow> encbuf" where
  "writeBool b w = (if b then eb_append w [0x01] else eb_append w [0x80])"

definition writeBigInt :: "int \<Rightarrow> encbuf \<Rightarrow> rlp_error + encbuf" where
  "writeBigInt i w =
     (if i < 0 then Inl ErrNegativeBigInt
      else if i = 0 then Inr (eb_append w [0x80])
      else Inr (encodeString w (big_Bytes i)))"

definition writeBigIntPtr :: "int option \<Rightarrow> encbuf \<Rightarrow> rlp_error + encbuf" where
  "writeBigIntPtr ptr w =
     (case ptr of None \<Rightarrow> Inr (eb_append w [0x80]) | Some i \<Rightarrow> writeBigInt i w)"

definition writeString :: "bytes \<Rightarrow> encbuf \<Rightarrow> encbuf" where
  "writeString s w =
     (if length s = 1 \<and> hd s \<le> 0x7F then eb_append w [hd s]
      else eb_append (encodeStringHeader w (length s)) s)"

text \<open>
  The writer of a value. \<open>writer_all\<close> is the loop over the elements of a slice or the fields of a struct.
  On an error the buffer is given up, so whether a list was ended then does not matter.
\<close>

fun writer :: "goval \<Rightarrow> encbuf \<Rightarrow> rlp_error + encbuf"
  and writer_all :: "goval list \<Rightarrow> encbuf \<Rightarrow> rlp_error + encbuf" where
  "writer (GRaw b) w = Inr (eb_append w b)"
| "writer (GUint i) w = Inr (writeUint i w)"
| "writer (GBool b) w = Inr (writeBool b w)"
| "writer (GBigInt ptr) w = writeBigIntPtr ptr w"
| "writer (GBytes b) w = Inr (encodeString w b)"
| "writer (GString s) w = Inr (writeString s w)"
| "writer GNilInterface w = Inr (eb_append w [0xC0])"
| "writer (GNilPtr bytearray) w =
     (if bytearray then Inr (eb_append w [0x80])
      else (let (lh, w) = eb_list w in Inr (eb_listEnd w lh)))"
| "writer (GSlice tail vs) w =
     (if tail then writer_all vs w
      else (let (lh, w) = eb_list w in
            case writer_all vs w of Inl e \<Rightarrow> Inl e | Inr w \<Rightarrow> Inr (eb_listEnd w lh)))"
| "writer (GStruct vs) w =
     (let (lh, w) = eb_list w in
      case writer_all vs w of Inl e \<Rightarrow> Inl e | Inr w \<Rightarrow> Inr (eb_listEnd w lh))"
| "writer_all [] w = Inr w"
| "writer_all (v # vs) w = (case writer v w of Inl e \<Rightarrow> Inl e | Inr w \<Rightarrow> writer_all vs w)"

definition EncodeToBytes :: "goval \<Rightarrow> (rlp_error + bytes) option" where
  "EncodeToBytes v =
     (case writer v encbuf_empty of
        Inl e \<Rightarrow> Some (Inl e)
      | Inr w \<Rightarrow> map_option Inr (toBytes w))"

text \<open>\<^verbatim>\<open>Encode\<close> to a writer that is no \<^verbatim>\<open>encbuf\<close>.\<close>

definition Encode :: "goval \<Rightarrow> (rlp_error + bytes) option" where
  "Encode v =
     (case writer v encbuf_empty of
        Inl e \<Rightarrow> Some (Inl e)
      | Inr w \<Rightarrow> map_option Inr (toWriter w))"

section \<open>The specification\<close>

datatype item = Str bytes | Lst "item list"

definition header :: "byte \<Rightarrow> byte \<Rightarrow> nat \<Rightarrow> bytes" where
  "header small large n =
     (if n < 56 then [small + word_of_nat n]
      else (large + word_of_nat (length (nat_bytes n))) # nat_bytes n)"

definition enc_string :: "bytes \<Rightarrow> bytes" where
  "enc_string b = (if length b = 1 \<and> hd b < 0x80 then b else header 0x80 0xB7 (length b) @ b)"

definition enc_list :: "bytes \<Rightarrow> bytes" where
  "enc_list c = header 0xC0 0xF7 (length c) @ c"

fun rlp_item :: "item \<Rightarrow> bytes" where
  "rlp_item (Str b) = enc_string b"
| "rlp_item (Lst xs) = enc_list (concat (map rlp_item xs))"

fun encoding :: "goval \<Rightarrow> bytes" where
  "encoding (GRaw b) = b"
| "encoding (GUint i) = enc_string (nat_bytes (unat i))"
| "encoding (GBool b) = enc_string (if b then [1] else [])"
| "encoding (GBigInt ptr) = enc_string (case ptr of None \<Rightarrow> [] | Some i \<Rightarrow> big_Bytes i)"
| "encoding (GBytes b) = enc_string b"
| "encoding (GString b) = enc_string b"
| "encoding GNilInterface = enc_list []"
| "encoding (GNilPtr bytearray) = (if bytearray then enc_string [] else enc_list [])"
| "encoding (GSlice tail vs) =
     (if tail then concat (map encoding vs) else enc_list (concat (map encoding vs)))"
| "encoding (GStruct vs) = enc_list (concat (map encoding vs))"

fun has_negative :: "goval \<Rightarrow> bool" where
  "has_negative (GBigInt (Some i)) \<longleftrightarrow> i < 0"
| "has_negative (GSlice _ vs) \<longleftrightarrow> list_ex has_negative vs"
| "has_negative (GStruct vs) \<longleftrightarrow> list_ex has_negative vs"
| "has_negative _ \<longleftrightarrow> False"

section \<open>Integers in the least number of bytes\<close>

lemma nat_bytes_digits:
  "256 ^ m \<le> n \<Longrightarrow> n < 256 ^ Suc m \<Longrightarrow>
   nat_bytes n = map (\<lambda>k. word_of_nat (n div 256 ^ k mod 256)) (rev [0..<Suc m])"
proof (induction m arbitrary: n)
  case 0
  then show ?case by (simp add: nat_bytes.simps [of n] nat_bytes.simps [of 0])
next
  case (Suc m)
  have "256 ^ m \<le> n div 256" "n div 256 < 256 ^ Suc m"
    using Suc.prems by (simp_all add: less_eq_div_iff_mult_less_eq less_mult_imp_div_less mult.commute)
  moreover have "n \<noteq> 0" using Suc.prems(1) by (cases "n = 0") auto
  moreover have "rev [0..<Suc (Suc m)] = map Suc (rev [0..<Suc m]) @ [0]"
    by (simp add: rev_map [symmetric] map_Suc_upt upt_conv_Cons del: upt_Suc)
  ultimately show ?case
    using Suc.IH by (simp add: nat_bytes.simps [of n] div_mult2_eq del: upt_Suc)
qed

lemma byte_at:
  "(ucast (drop_bit (8 * k) (i :: uint64)) :: byte) = word_of_nat (unat i div 256 ^ k mod 256)"
proof -
  have "(2::nat) ^ (8 * k) = 256 ^ k" by (simp add: power_mult)
  then show ?thesis
    by (simp add: word_unat_eq_iff unsigned_ucast_eq unat_drop_bit unsigned_of_nat take_bit_eq_mod)
qed

lemma putint_eq:
  assumes "i \<noteq> 0"
  shows "putint i = nat_bytes (unat i)"
proof -
  have b: "(ucast (drop_bit 0 i) :: byte) = word_of_nat (unat i mod 256)"
    using byte_at [of 0 i] by simp
  have less: "i < w \<longleftrightarrow> unat i < unat w" for w :: uint64 by (rule word_less_nat_alt)
  have pos: "1 \<le> unat i" using assms by (simp add: Suc_le_eq unat_gt_0)
  have max: "unat i < 256 ^ 8" using unat_lt_pow [of i] by simp
  note digits = nat_bytes_digits [of _ "unat i"]
  note at = b byte_at [of 1 i, simplified] byte_at [of 2 i, simplified] byte_at [of 3 i, simplified]
    byte_at [of 4 i, simplified] byte_at [of 5 i, simplified] byte_at [of 6 i, simplified]
    byte_at [of 7 i, simplified]
  show ?thesis
    unfolding putint_def Let_def at less
    using pos max digits [of 0] digits [of 1] digits [of 2] digits [of 3] digits [of 4] digits [of 5]
      digits [of 6] digits [of 7]
    by (simp add: upt_conv_Cons)
qed

lemma length_nat_bytes: "n \<noteq> 0 \<Longrightarrow> length (nat_bytes n) = Suc (length (nat_bytes (n div 256)))"
  by (simp add: nat_bytes.simps [of n])

lemma intsize_from_eq: "intsize_from sz i = sz + length (nat_bytes (unat i div 256))"
proof (induction sz i rule: intsize_from.induct)
  case (1 sz i)
  have "drop_bit 8 i = 0 \<longleftrightarrow> unat i div 256 = 0"
    using unat_drop_bit [of 8 i] unat_eq_0 [of "drop_bit 8 i"] by simp
  with 1 show ?case
    by (cases "drop_bit 8 i = 0")
      (simp_all add: intsize_from.simps [of sz i] nat_bytes.simps [of 0] unat_drop_bit length_nat_bytes)
qed

lemma intsize_eq: "i \<noteq> 0 \<Longrightarrow> intsize i = length (nat_bytes (unat i))"
  by (simp add: intsize_def intsize_from_eq length_nat_bytes unat_eq_0)

lemma word_less_56: "(sz :: uint64) < 56 \<longleftrightarrow> unat sz < 56"
  by (simp add: word_less_nat_alt)

lemma puthead_eq: "puthead a b sz = header a b (unat sz)"
proof -
  have "\<not> sz < 56 \<Longrightarrow> sz \<noteq> 0" by (auto simp: word_less_56)
  then show ?thesis
    by (auto simp: puthead_def header_def Let_def putint_eq word_less_56 word_unat_eq_iff
        unsigned_ucast_eq unsigned_of_nat unat_word_ariths(1))
qed

lemma headsize_eq: "headsize sz = length (header a b (unat sz))"
proof -
  have "\<not> sz < 56 \<Longrightarrow> sz \<noteq> 0" by (auto simp: word_less_56)
  then show ?thesis by (simp add: headsize_def header_def intsize_eq word_less_56)
qed

lemma unat_of_nat_64: "n < 2 ^ 64 \<Longrightarrow> unat (word_of_nat n :: uint64) = n"
  by (simp add: unsigned_of_nat take_bit_nat_eq_self)

lemma listhead_encode_eq:
  "lh_size h < 2 ^ 64 \<Longrightarrow> listhead_encode h = header 0xC0 0xF7 (lh_size h)"
  by (simp add: listhead_encode_def puthead_eq unat_of_nat_64)

section \<open>What a buffer renders to\<close>

fun render :: "bytes \<Rightarrow> nat \<Rightarrow> listhead list \<Rightarrow> bytes" where
  "render str p [] = drop p str"
| "render str p (h # hs) =
     take (lh_offset h - p) (drop p str) @ header 0xC0 0xF7 (lh_size h) @ render str (lh_offset h) hs"

fun heads_ok :: "nat \<Rightarrow> nat \<Rightarrow> listhead list \<Rightarrow> bool" where
  "heads_ok p n [] \<longleftrightarrow> p \<le> n"
| "heads_ok p n (h # hs) \<longleftrightarrow> p \<le> lh_offset h \<and> lh_size h < 2 ^ 64 \<and> heads_ok (lh_offset h) n hs"

definition shift :: "nat \<Rightarrow> listhead \<Rightarrow> listhead" where
  "shift k h = h\<lparr>lh_offset := k + lh_offset h\<rparr>"

lemma shift_simps [simp]: "lh_offset (shift k h) = k + lh_offset h" "lh_size (shift k h) = lh_size h"
  by (simp_all add: shift_def)

lemma heads_ok_le: "heads_ok p n hs \<Longrightarrow> p \<le> n"
  by (induction p n hs rule: heads_ok.induct) auto

lemma heads_ok_shift [simp]: "heads_ok (k + p) (k + n) (map (shift k) hs) = heads_ok p n hs"
  by (induction p n hs rule: heads_ok.induct) auto

lemma render_shift [simp]: "render (a @ s) (length a + p) (map (shift (length a)) hs) = render s p hs"
  by (induction s p hs rule: render.induct) auto

lemma render_append_Nil:
  assumes "p \<le> length s"
  shows "render (s @ s') p (map (shift (length s)) hs) = drop p s @ render s' 0 hs"
  using assms by (cases hs) (auto simp: render_shift)

lemma render_append:
  "heads_ok p (length s) hs \<Longrightarrow>
   render (s @ s') p (hs @ map (shift (length s)) hs') = render s p hs @ render s' 0 hs'"
proof (induction hs arbitrary: p)
  case Nil
  then show ?case by (simp add: render_append_Nil)
next
  case (Cons h hs)
  then have "lh_offset h \<le> length s" using heads_ok_le by auto
  with Cons show ?case by simp
qed

lemma heads_ok_append:
  "heads_ok p n hs \<Longrightarrow> heads_ok 0 m hs' \<Longrightarrow> heads_ok p (n + m) (hs @ map (shift n) hs')"
proof (induction hs arbitrary: p)
  case Nil
  then show ?case
    using heads_ok_shift [of n 0 m hs'] by (cases hs') auto
qed simp

lemma length_render:
  "heads_ok p (length s) hs \<Longrightarrow> length s \<le> p + length (render s p hs)"
proof (induction hs arbitrary: p)
  case (Cons h hs)
  then have "lh_offset h \<le> length s" using heads_ok_le by auto
  with Cons show ?case by fastforce
qed simp

lemma toWriter_heads_eq:
  "heads_ok p (length str) hs \<Longrightarrow> toWriter_heads str hs p = Some (render str p hs)"
proof (induction hs arbitrary: p)
  case (Cons h hs)
  then have "lh_offset h \<le> length str" using heads_ok_le by auto
  with Cons show ?case by (auto simp: go_slice_def listhead_encode_eq)
qed (auto simp: go_slice_def)

lemma go_copy_fits:
  "pos + length src \<le> length out \<Longrightarrow>
   go_copy out pos src = Some (length src, take pos out @ src @ drop (pos + length src) out)"
  by (auto simp: go_copy_def Let_def min_def)

lemma copy_put_fits:
  assumes "pos + length src + length enc \<le> length out"
  obtains out1 out2 where "go_copy out pos src = Some (length src, out1)"
    "put_at out1 (pos + length src) enc = Some out2" "length out2 = length out"
    "take (pos + length src + length enc) out2 = take pos out @ src @ enc"
proof -
  let ?out1 = "take pos out @ src @ drop (pos + length src) out"
  have "go_copy out pos src = Some (length src, ?out1)" using assms by (intro go_copy_fits) simp
  moreover have "put_at ?out1 (pos + length src) enc =
      Some (take pos out @ src @ enc @ drop (pos + length src + length enc) out)"
    using assms by (simp add: put_at_def add_ac)
  ultimately show ?thesis by (rule that) (use assms in simp_all)
qed

lemma toBytes_heads_eq:
  "heads_ok p (length str) hs \<Longrightarrow> pos + length (render str p hs) = length out \<Longrightarrow>
   toBytes_heads str hs out pos p = Some (take pos out @ render str p hs)"
proof (induction hs arbitrary: p out pos)
  case Nil
  then show ?case by (simp add: go_slice_def go_copy_fits)
next
  case (Cons h hs)
  define src where "src = take (lh_offset h - p) (drop p str)"
  define enc where "enc = header 0xC0 0xF7 (lh_size h)"
  have le: "lh_offset h \<le> length str" using Cons.prems heads_ok_le by auto
  then have len: "p + length src = lh_offset h" using Cons.prems by (auto simp: src_def)
  have slice: "go_slice str p (lh_offset h) = Some src" using Cons.prems le by (simp add: go_slice_def src_def)
  have render: "render str p (h # hs) = src @ enc @ render str (lh_offset h) hs"
    by (simp add: src_def enc_def)
  have fits: "pos + length src + length enc + length (render str (lh_offset h) hs) = length out"
    using Cons.prems(2) unfolding render by simp
  then have "pos + length src + length enc \<le> length out" by simp
  then obtain out1 out2 where out: "go_copy out pos src = Some (length src, out1)"
    "put_at out1 (pos + length src) enc = Some out2" "length out2 = length out"
    "take (pos + length src + length enc) out2 = take pos out @ src @ enc"
    by (rule copy_put_fits)
  have "toBytes_heads str hs out2 (pos + length src + length enc) (lh_offset h) =
      Some (take (pos + length src + length enc) out2 @ render str (lh_offset h) hs)"
    using Cons.prems fits out(3) by (intro Cons.IH) simp_all
  moreover have "listhead_encode h = enc" using Cons.prems by (simp add: listhead_encode_eq enc_def)
  ultimately show ?case
    unfolding render by (simp add: slice out len Let_def)
qed

section \<open>The encoder meets the specification\<close>

text \<open>The buffer \<open>w'\<close> is \<open>w\<close> with a piece added that renders to \<open>out\<close>.\<close>

definition emits :: "encbuf \<Rightarrow> encbuf \<Rightarrow> bytes \<Rightarrow> bool" where
  "emits w w' out \<longleftrightarrow> (\<exists>s hs n. heads_ok 0 (length s) hs \<and> render s 0 hs = out \<and> length out = length s + n \<and>
     w' = \<lparr>eb_str = eb_str w @ s, eb_lheads = eb_lheads w @ map (shift (length (eb_str w))) hs,
           eb_lhsize = eb_lhsize w + n\<rparr>)"

lemma emitsI:
  assumes "heads_ok 0 (length s) hs" "render s 0 hs = out" "length out = length s + n"
    "w' = \<lparr>eb_str = eb_str w @ s, eb_lheads = eb_lheads w @ map (shift (length (eb_str w))) hs,
           eb_lhsize = eb_lhsize w + n\<rparr>"
  shows "emits w w' out"
  using assms unfolding emits_def by blast

lemma emitsE:
  assumes "emits w w' out"
  obtains s hs n where "heads_ok 0 (length s) hs" "render s 0 hs = out" "length out = length s + n"
    "w' = \<lparr>eb_str = eb_str w @ s, eb_lheads = eb_lheads w @ map (shift (length (eb_str w))) hs,
           eb_lhsize = eb_lhsize w + n\<rparr>"
  using assms unfolding emits_def by blast

lemma emits_append: "emits w (eb_append w b) b"
  by (rule emitsI [of b "[]" _ 0]) (simp_all add: eb_append_def)

lemma emits_refl: "emits w w []"
  by (rule emitsI [of "[]" "[]" _ 0]) simp_all

lemma shift_shift [simp]: "shift a (shift b h) = shift (a + b) h"
  by (simp add: shift_def)

lemma emits_trans:
  assumes "emits w w1 o1" "emits w1 w2 o2"
  shows "emits w w2 (o1 @ o2)"
proof -
  obtain s1 hs1 n1 where 1: "heads_ok 0 (length s1) hs1" "render s1 0 hs1 = o1" "length o1 = length s1 + n1"
    "w1 = \<lparr>eb_str = eb_str w @ s1, eb_lheads = eb_lheads w @ map (shift (length (eb_str w))) hs1,
           eb_lhsize = eb_lhsize w + n1\<rparr>"
    using assms(1) by (rule emitsE)
  obtain s2 hs2 n2 where 2: "heads_ok 0 (length s2) hs2" "render s2 0 hs2 = o2" "length o2 = length s2 + n2"
    "w2 = \<lparr>eb_str = eb_str w1 @ s2, eb_lheads = eb_lheads w1 @ map (shift (length (eb_str w1))) hs2,
           eb_lhsize = eb_lhsize w1 + n2\<rparr>"
    using assms(2) by (rule emitsE)
  show ?thesis
  proof (rule emitsI)
    show "heads_ok 0 (length (s1 @ s2)) (hs1 @ map (shift (length s1)) hs2)"
      using 1(1) 2(1) by (simp add: heads_ok_append)
    show "render (s1 @ s2) 0 (hs1 @ map (shift (length s1)) hs2) = o1 @ o2"
      using 1(1,2) 2(2) by (simp add: render_append)
    show "length (o1 @ o2) = length (s1 @ s2) + (n1 + n2)" using 1(3) 2(3) by simp
  qed (simp add: 1(4) 2(4) comp_def)
qed

lemma emits_listEnd:
  assumes "eb_list w = (lh, w1)" "emits w1 w2 c" "length c < 2 ^ 64"
  shows "emits w (eb_listEnd w2 lh) (enc_list c)"
proof -
  define k where "k = length (eb_str w)"
  define m where "m = length (header 0xC0 0xF7 (length c))"
  obtain s hs n where c: "heads_ok 0 (length s) hs" "render s 0 hs = c" "length c = length s + n"
    "w2 = \<lparr>eb_str = eb_str w1 @ s, eb_lheads = eb_lheads w1 @ map (shift (length (eb_str w1))) hs,
           eb_lhsize = eb_lhsize w1 + n\<rparr>"
    using assms(2) by (rule emitsE)
  have w1: "lh = length (eb_lheads w)" "eb_str w1 = eb_str w" "eb_lhsize w1 = eb_lhsize w"
    "eb_lheads w1 = eb_lheads w @ [\<lparr>lh_offset = k, lh_size = eb_lhsize w\<rparr>]"
    using assms(1) by (auto simp: eb_list_def k_def)
  have m: "m = (if length c < 56 then 1 else 1 + intsize (word_of_nat (length c)))"
    using headsize_eq [of "word_of_nat (length c)" "0xC0" "0xF7"] assms(3)
    by (simp add: m_def headsize_def word_less_56 unat_of_nat_64)
  have sz: "eb_size w2 - k - eb_lhsize w = length c"
    using c(3,4) w1 by (simp add: eb_size_def k_def)
  show ?thesis
  proof (rule emitsI)
    show "heads_ok 0 (length s) (\<lparr>lh_offset = 0, lh_size = length c\<rparr> # hs)"
      using c(1) assms(3) by simp
    show "render s 0 (\<lparr>lh_offset = 0, lh_size = length c\<rparr> # hs) = enc_list c"
      using c(2) by (simp add: enc_list_def)
    show "length (enc_list c) = length s + (n + m)"
      using c(3) by (simp add: enc_list_def m_def)
    show "eb_listEnd w2 lh = \<lparr>eb_str = eb_str w @ s,
        eb_lheads = eb_lheads w @ map (shift (length (eb_str w))) (\<lparr>lh_offset = 0, lh_size = length c\<rparr> # hs),
        eb_lhsize = eb_lhsize w + (n + m)\<rparr>"
      using sz c(4) w1 by (simp add: eb_listEnd_def Let_def nth_append list_update_append m shift_def k_def)
  qed
qed

lemma encodeString_emits:
  assumes "length b < 2 ^ 64"
  shows "emits w (encodeString w b) (enc_string b)" "emits w (writeString b w) (enc_string b)"
proof -
  have le: "hd b \<le> 0x7F \<longleftrightarrow> hd b < 0x80"
    by (simp add: word_le_nat_alt word_less_nat_alt less_Suc_eq_le flip: less_Suc_eq_le)
  have "\<not> length b < 56 \<Longrightarrow> (word_of_nat (length b) :: uint64) \<noteq> 0"
    using assms unat_of_nat_64 [of "length b"] by (auto simp: word_unat_eq_iff)
  then have "eb_append (encodeStringHeader w (length b)) b = eb_append w (header 0x80 0xB7 (length b) @ b)"
    using assms by (simp add: encodeStringHeader_def header_def eb_append_def Let_def putint_eq unat_of_nat_64)
  moreover have "length b = Suc 0 \<Longrightarrow> [hd b] = b" by (cases b) auto
  ultimately have e: "encodeString w b = eb_append w (enc_string b)"
    by (auto simp: encodeString_def enc_string_def le)
  then show "emits w (encodeString w b) (enc_string b)" by (simp add: emits_append)
  have "writeString b w = encodeString w b" by (simp add: writeString_def encodeString_def)
  with e show "emits w (writeString b w) (enc_string b)" by (simp add: emits_append)
qed

lemma length_enc_string: "length b \<le> length (enc_string b)"
  by (simp add: enc_string_def)

lemma length_enc_list: "length c \<le> length (enc_list c)"
  by (simp add: enc_list_def)

lemma enc_string_Nil [simp]: "enc_string [] = [0x80]"
  by (simp add: enc_string_def header_def)

lemma enc_list_Nil [simp]: "enc_list [] = [0xC0]"
  by (simp add: enc_list_def header_def)

lemma nat_bytes_single: "0 < n \<Longrightarrow> n < 256 \<Longrightarrow> nat_bytes n = [word_of_nat n]"
  by (simp add: nat_bytes.simps [of n] nat_bytes.simps [of 0])

lemma nat_bytes_eq_Nil: "nat_bytes n = [] \<longleftrightarrow> n = 0"
  using nat_bytes.simps [of n] by auto

lemma nat_bytes_0 [simp]: "nat_bytes 0 = []"
  by (simp add: nat_bytes_eq_Nil)

lemma length_nat_bytes_eq_1: "length (nat_bytes n) = Suc 0 \<longleftrightarrow> 0 < n \<and> n < 256"
proof (cases "n = 0")
  case True
  then show ?thesis by simp
next
  case False
  then have "length (nat_bytes n) = Suc 0 \<longleftrightarrow> nat_bytes (n div 256) = []"
    by (simp add: nat_bytes.simps [of n])
  with False show ?thesis by (simp add: nat_bytes_eq_Nil div_eq_0_iff)
qed

lemma writeUint_eq: "writeUint i w = eb_append w (enc_string (nat_bytes (unat i)))"
proof -
  have le8: "length (nat_bytes (unat i)) \<le> 8"
    using unat_lt_pow [of i] by (intro length_nat_bytes_le) simp
  consider "i = 0" | "i \<noteq> 0" "i < 128" | "i \<noteq> 0" "\<not> i < 128" by blast
  then show ?thesis
  proof cases
    case 1
    then show ?thesis by (simp add: writeUint_def)
  next
    case 2
    then have n: "0 < unat i" "unat i < 128" by (simp_all add: unat_gt_0 word_less_nat_alt)
    then have "(ucast i :: byte) < 128"
      by (simp add: word_less_nat_alt unsigned_ucast_eq take_bit_eq_mod)
    moreover have "nat_bytes (unat i) = [ucast i]"
      using n nat_bytes_single [of "unat i"] by simp
    ultimately show ?thesis using 2 by (simp add: writeUint_def enc_string_def)
  next
    case 3
    then have "128 \<le> unat i" by (simp add: word_less_nat_alt)
    then have "\<not> (length (nat_bytes (unat i)) = Suc 0 \<and> hd (nat_bytes (unat i)) < 128)"
      by (auto simp: length_nat_bytes_eq_1 nat_bytes_single word_less_nat_alt unsigned_ucast_eq take_bit_eq_mod)
    with 3 le8 show ?thesis
      by (auto simp: writeUint_def enc_string_def header_def putint_eq Let_def)
  qed
qed

lemma writeBigInt_emits:
  assumes "length (enc_string (big_Bytes i)) < 2 ^ 64" "0 \<le> i"
  shows "\<exists>w'. writeBigInt i w = Inr w' \<and> emits w w' (enc_string (big_Bytes i))"
proof (cases "i = 0")
  case True
  then have "big_Bytes i = []" by simp
  with True show ?thesis by (simp add: writeBigInt_def emits_append del: big_Bytes_eq_Nil)
next
  case False
  with assms show ?thesis
    using encodeString_emits(1) [of "big_Bytes i" w] length_enc_string [of "big_Bytes i"]
    by (simp add: writeBigInt_def)
qed

lemma list_writer_emits:
  assumes "\<And>lh w1. eb_list w = (lh, w1) \<Longrightarrow>
      if neg then writer_all vs w1 = Inl e else \<exists>w'. writer_all vs w1 = Inr w' \<and> emits w1 w' c"
    and "length (enc_list c) < 2 ^ 64"
  shows "if neg
    then (let (lh, w) = eb_list w in
          case writer_all vs w of Inl e \<Rightarrow> Inl e | Inr w \<Rightarrow> Inr (eb_listEnd w lh)) = Inl e
    else \<exists>w'. (let (lh, w) = eb_list w in
          case writer_all vs w of Inl e \<Rightarrow> Inl e | Inr w \<Rightarrow> Inr (eb_listEnd w lh)) = Inr w' \<and>
         emits w w' (enc_list c)"
proof -
  obtain lh w1 where l: "eb_list w = (lh, w1)" by fastforce
  have "length c < 2 ^ 64" using assms(2) length_enc_list [of c] by simp
  then have "emits w1 w' c \<Longrightarrow> emits w (eb_listEnd w' lh) (enc_list c)" for w'
    using emits_listEnd [OF l] by blast
  with assms(1) [OF l] l show ?thesis by (cases neg) auto
qed

lemma writer_emits:
  "length (encoding v) < 2 ^ 64 \<Longrightarrow>
   if has_negative v then writer v w = Inl ErrNegativeBigInt
   else \<exists>w'. writer v w = Inr w' \<and> emits w w' (encoding v)"
  and writer_all_emits:
  "length (concat (map encoding vs)) < 2 ^ 64 \<Longrightarrow>
   if list_ex has_negative vs then writer_all vs w = Inl ErrNegativeBigInt
   else \<exists>w'. writer_all vs w = Inr w' \<and> emits w w' (concat (map encoding vs))"
proof (induction v w and vs w rule: writer_writer_all.induct)
  case (4 ptr w)
  then show ?case
    using writeBigInt_emits [of "the ptr" w] emits_append [of w "[0x80]"]
    by (cases ptr) (auto simp: writeBigIntPtr_def writeBigInt_def)
next
  case (5 b w)
  then show ?case using encodeString_emits(1) [of b w] length_enc_string [of b] by simp
next
  case (6 s w)
  then show ?case using encodeString_emits(2) [of s w] length_enc_string [of s] by simp
next
  case (8 bytearray w)
  then show ?case
    using emits_append [of w "[0x80]"] emits_listEnd [of w _ _ _ "[]", OF _ emits_refl]
    by (cases bytearray) (simp_all split: prod.split)
next
  case (9 tail vs w)
  show ?case
  proof (cases tail)
    case False
    with 9 have l: "length (enc_list (concat (map encoding vs))) < 2 ^ 64" by simp
    then have "length (concat (map encoding vs)) < 2 ^ 64"
      using length_enc_list [of "concat (map encoding vs)"] by linarith
    with 9(2) [OF False refl] have "if list_ex has_negative vs then writer_all vs w1 = Inl ErrNegativeBigInt
      else \<exists>w'. writer_all vs w1 = Inr w' \<and> emits w1 w' (concat (map encoding vs))"
      if "eb_list w = (lh, w1)" for lh w1 using that by metis
    from list_writer_emits [OF this l] False show ?thesis
      by (simp only: writer.simps has_negative.simps encoding.simps if_False)
  qed (use 9 in simp)
next
  case (10 vs w)
  then have l: "length (enc_list (concat (map encoding vs))) < 2 ^ 64" by simp
  then have "length (concat (map encoding vs)) < 2 ^ 64"
    using length_enc_list [of "concat (map encoding vs)"] by linarith
  with 10(1) [OF refl] have "if list_ex has_negative vs then writer_all vs w1 = Inl ErrNegativeBigInt
    else \<exists>w'. writer_all vs w1 = Inr w' \<and> emits w1 w' (concat (map encoding vs))"
    if "eb_list w = (lh, w1)" for lh w1 using that by metis
  from list_writer_emits [OF this l] show ?case
    by (simp only: writer.simps has_negative.simps encoding.simps)
next
  case (12 v vs w)
  then have v: "if has_negative v then writer v w = Inl ErrNegativeBigInt
    else \<exists>w'. writer v w = Inr w' \<and> emits w w' (encoding v)" by simp
  show ?case
  proof (cases "has_negative v")
    case False
    with v obtain w' where w': "writer v w = Inr w'" "emits w w' (encoding v)" by auto
    with 12 show ?thesis
      using emits_trans [OF w'(2)] False by (cases "list_ex has_negative vs") auto
  qed (use v in simp)
qed (auto simp: writeUint_eq writeBool_def enc_string_def header_def emits_append emits_refl)

lemma toBytes_emits:
  assumes "emits encbuf_empty w out"
  shows "toBytes w = Some out" "toWriter w = Some out"
proof -
  obtain s hs n where "heads_ok 0 (length s) hs" "render s 0 hs = out" "length out = length s + n"
    "w = \<lparr>eb_str = s, eb_lheads = map (shift 0) hs, eb_lhsize = n\<rparr>"
    using assms by (auto elim!: emitsE simp: encbuf_empty_def)
  moreover have "shift 0 = id" by (auto simp: shift_def)
  ultimately show "toBytes w = Some out" "toWriter w = Some out"
    by (simp_all add: toBytes_def toWriter_def eb_size_def toBytes_heads_eq toWriter_heads_eq)
qed

section \<open>Properties\<close>

text \<open>
  C12. \<^verbatim>\<open>EncodeToBytes\<close> never panics. It fails exactly on values that contain a negative big integer, and
  otherwise returns the RLP encoding of the value as the recursive specification defines it; \<^verbatim>\<open>Encode\<close> writes
  the same bytes.
\<close>

theorem EncodeToBytes_meets_rlp:
  assumes "length (encoding v) < 2 ^ 63"
  shows "EncodeToBytes v = Some (if has_negative v then Inl ErrNegativeBigInt else Inr (encoding v)) \<and>
    Encode v = EncodeToBytes v"
proof -
  have "length (encoding v) < 2 ^ 64" using assms by simp
  from writer_emits [OF this, of encbuf_empty] show ?thesis
    by (cases "has_negative v") (auto simp: EncodeToBytes_def Encode_def toBytes_emits)
qed

theorem EncodeToBytes_meets_rlp_witness:
  "EncodeToBytes (GStruct [GUint 1024, GSlice False [GBytes [1, 2], GBool True], GBigInt (Some 0)]) =
   Some (Inr [0xC9, 0x82, 0x04, 0x00, 0xC4, 0x82, 1, 2, 1, 0x80])"
proof -
  have b: "nat_bytes 1024 = [4, 0]" by (simp add: nat_bytes.simps)
  let ?v = "GStruct [GUint 1024, GSlice False [GBytes [1, 2], GBool True], GBigInt (Some 0)]"
  have "encoding ?v = [0xC9, 0x82, 0x04, 0x00, 0xC4, 0x82, 1, 2, 1, 0x80]"
    by (simp add: b enc_string_def enc_list_def header_def big_Bytes_def)
  then show ?thesis using EncodeToBytes_meets_rlp [of ?v] by simp
qed

end
