(* ===== verification/Rlp_Raw.thy ===== *)
theory Rlp_Raw
  imports Rlp_Encode
begin

text \<open>
  \<^verbatim>\<open>rlp/raw.go\<close>: splitting RLP values off a byte slice. The sizes are \<^verbatim>\<open>uint64\<close> in the source; here they are
  natural numbers, and only the size that \<^verbatim>\<open>readSize\<close> assembles from bytes is computed as a word. The lemmas
  characterise \<^verbatim>\<open>Split\<close> completely: on which inputs it panics, and that it accepts exactly the canonical
  encodings of the specification.
\<close>

datatype Kind = KByte | KString | KList

text \<open>The eight cases of the switch in \<^verbatim>\<open>readSize\<close>: \<^verbatim>\<open>b[0]<<... | ... | b[slen-1]\<close>.\<close>

fun or_bytes :: "bytes \<Rightarrow> uint64" where
  "or_bytes [] = 0"
| "or_bytes (b # bs) = or (push_bit (8 * length bs) (ucast b)) (or_bytes bs)"

definition readSize :: "bytes \<Rightarrow> byte \<Rightarrow> rlp_error + uint64" where
  "readSize b slen =
     (if unat slen > length b then Inl ErrUnexpectedEOF
      else
        (let s = (if 1 \<le> slen \<and> slen \<le> 8 then or_bytes (take (unat slen) b) else 0) in
         if s < 56 \<or> hd b = 0 then Inl ErrCanonSize else Inr s))"

text \<open>Reading \<^verbatim>\<open>buf[1]\<close> of a slice of one byte panics.\<close>

definition readKind :: "bytes \<Rightarrow> (rlp_error + Kind \<times> nat \<times> nat) option" where
  "readKind buf =
     (case buf of
        [] \<Rightarrow> Some (Inl ErrUnexpectedEOF)
      | b # rest \<Rightarrow> do {
          r \<leftarrow>
            (if b < 0x80 then Some (Inr (KByte, 0, 1))
             else if b < 0xB8 then
               (let contentsize = unat (b - 0x80) in
                if contentsize = 1 then
                  (case rest of
                     [] \<Rightarrow> None
                   | c # _ \<Rightarrow> Some (if c < 128 then Inl ErrCanonSize else Inr (KString, 1, contentsize)))
                else Some (Inr (KString, 1, contentsize)))
             else if b < 0xC0 then
               Some (map_sum id (\<lambda>s. (KString, unat (b - 0xB7) + 1, unat s)) (readSize rest (b - 0xB7)))
             else if b < 0xF8 then Some (Inr (KList, 1, unat (b - 0xC0)))
             else Some (map_sum id (\<lambda>s. (KList, unat (b - 0xF7) + 1, unat s)) (readSize rest (b - 0xF7))));
          Some (case r of
                  Inl e \<Rightarrow> Inl e
                | Inr (k, tagsize, contentsize) \<Rightarrow>
                    if contentsize > length buf - tagsize then Inl ErrValueTooLarge
                    else Inr (k, tagsize, contentsize))
        })"

text \<open>The kind, the content and the rest; on an error the source also returns the slice itself.\<close>

definition Split :: "bytes \<Rightarrow> (rlp_error + Kind \<times> bytes \<times> bytes) option" where
  "Split b = do {
     r \<leftarrow> readKind b;
     (case r of
        Inl e \<Rightarrow> Some (Inl e)
      | Inr (k, ts, cs) \<Rightarrow> do {
          content \<leftarrow> go_slice b ts (ts + cs);
          rest \<leftarrow> go_slice b (ts + cs) (length b);
          Some (Inr (k, content, rest))
        })
   }"

definition SplitString :: "bytes \<Rightarrow> (rlp_error + bytes \<times> bytes) option" where
  "SplitString b = do {
     r \<leftarrow> Split b;
     Some (case r of
             Inl e \<Rightarrow> Inl e
           | Inr (k, content, rest) \<Rightarrow> if k = KList then Inl ErrExpectedString else Inr (content, rest))
   }"

definition SplitList :: "bytes \<Rightarrow> (rlp_error + bytes \<times> bytes) option" where
  "SplitList b = do {
     r \<leftarrow> Split b;
     Some (case r of
             Inl e \<Rightarrow> Inl e
           | Inr (k, content, rest) \<Rightarrow> if k \<noteq> KList then Inl ErrExpectedList else Inr (content, rest))
   }"

lemma map_sum_eq_Inr: "map_sum f g x = Inr y \<longleftrightarrow> (\<exists>z. x = Inr z \<and> y = g z)"
  by (cases x) auto

lemma readKind_pos:
  assumes "readKind b = Some (Inr (k, ts, cs))"
  shows "0 < ts + cs"
  using assms by (auto simp: readKind_def Let_def map_sum_eq_Inr split: list.splits if_splits sum.splits bind_splits)

function CountValues_from :: "nat \<Rightarrow> bytes \<Rightarrow> (rlp_error + nat) option" where
  "CountValues_from i b =
     (if b = [] then Some (Inr i)
      else do {
        r \<leftarrow> readKind b;
        (case r of
           Inl e \<Rightarrow> Some (Inl e)
         | Inr (_, tagsize, sz) \<Rightarrow> CountValues_from (i + 1) (drop (tagsize + sz) b))
      })"
  by pat_completeness auto
termination
  by (relation "measure (\<lambda>(i, b). length b)") (auto dest!: readKind_pos)

declare CountValues_from.simps [simp del]

definition CountValues :: "bytes \<Rightarrow> (rlp_error + nat) option" where
  "CountValues b = CountValues_from 0 b"

definition ListSize :: "uint64 \<Rightarrow> uint64" where
  "ListSize contentSize = word_of_nat (headsize contentSize) + contentSize"

section \<open>Sizes\<close>

lemma uint_push_or:
  fixes x y :: int
  assumes "0 \<le> y" "y < 2 ^ n"
  shows "or (push_bit n x) y = x * 2 ^ n + y"
proof -
  have "or (push_bit n x) y = concat_bit n y x"
    using assms by (simp add: concat_bit_def take_bit_int_eq_self or.commute)
  also have "\<dots> = take_bit n y + push_bit n x" by (rule concat_bit_eq)
  finally show ?thesis using assms by (simp add: take_bit_int_eq_self push_bit_eq_mult)
qed

lemma big_SetBytes_Cons: "big_SetBytes (b # bs) = uint b * 256 ^ length bs + big_SetBytes bs"
  using big_SetBytes_append [of "[b]" bs] big_SetBytes_snoc [of "[]" b] by simp

lemma uint_or_bytes: "length bs \<le> 8 \<Longrightarrow> uint (or_bytes bs) = big_SetBytes bs"
proof (induction bs)
  case (Cons b bs)
  have p: "(256::int) ^ length bs = 2 ^ (8 * length bs)" by (simp add: power_mult)
  have "uint b * 2 ^ (8 * length bs) < 2 ^ 8 * 2 ^ (8 * length bs)"
    using uint_lt_pow [of b] by (intro mult_strict_right_mono) simp_all
  also have "\<dots> = 2 ^ (8 + 8 * length bs)" by (simp only: power_add)
  also have "\<dots> \<le> 2 ^ 64" using Cons.prems by (intro power_increasing) simp_all
  finally have "take_bit 64 (push_bit (8 * length bs) (uint b)) = push_bit (8 * length bs) (uint b)"
    by (simp add: push_bit_eq_mult take_bit_int_eq_self)
  moreover have "uint (ucast b :: uint64) = uint b"
    using uint_lt_pow [of b] by (simp add: unsigned_ucast_eq take_bit_int_eq_self)
  ultimately have "uint (push_bit (8 * length bs) (ucast b :: uint64)) = push_bit (8 * length bs) (uint b)"
    by (simp add: unsigned_push_bit_eq)
  with Cons show ?case
    using big_SetBytes_less [of bs]
    by (simp add: big_SetBytes_Cons unsigned_or_eq uint_push_or p)
qed simp

lemma nat_bytes_hd: "n \<noteq> 0 \<Longrightarrow> hd (nat_bytes n) \<noteq> 0"
proof (induction n rule: nat_bytes.induct)
  case (1 n)
  show ?case
  proof (cases "n div 256 = 0")
    case True
    with 1 have "nat_bytes n = [word_of_nat n]" by (intro nat_bytes_single) auto
    moreover have "n < 256" using True by (simp add: div_eq_0_iff)
    ultimately show ?thesis using 1 by (simp add: word_unat_eq_iff unsigned_of_nat take_bit_eq_mod)
  next
    case False
    with 1 have "hd (nat_bytes (n div 256)) \<noteq> 0" by simp
    with False 1 show ?thesis by (simp add: nat_bytes.simps [of n] hd_append nat_bytes_eq_Nil)
  qed
qed

lemma nat_bytes_SetBytes:
  "bs = [] \<or> hd bs \<noteq> 0 \<Longrightarrow> nat_bytes (nat (big_SetBytes bs)) = bs"
proof (induction bs rule: rev_induct)
  case (snoc b bs)
  define n where "n = nat (big_SetBytes bs)"
  have int_n: "int n = big_SetBytes bs" by (simp add: n_def)
  have b: "unat b < 256" using unat_lt_pow [of b] by simp
  have "int (n * 256 + unat b) = big_SetBytes (bs @ [b])"
    by (simp add: big_SetBytes_snoc int_n)
  then have N: "nat (big_SetBytes (bs @ [b])) = n * 256 + unat b"
    by (metis nat_int)
  have "n * 256 + unat b \<noteq> 0"
  proof (cases bs)
    case Nil
    then show ?thesis using snoc.prems by (simp add: unat_eq_0)
  next
    case (Cons c cs)
    with snoc.prems have "0 < uint c" by (simp add: uint_0_iff order_less_le)
    then have "0 < uint c * 256 ^ length cs" by simp
    then have "0 < big_SetBytes bs"
      using big_SetBytes_nonneg [of cs] by (simp only: Cons big_SetBytes_Cons)
    then show ?thesis by (simp add: n_def)
  qed
  moreover have "nat_bytes n = bs"
    using snoc by (cases bs) (auto simp: n_def)
  ultimately show ?case
    unfolding N using b by (subst nat_bytes.simps) simp
qed simp

lemma readSize_header:
  assumes "56 \<le> n" "n < 2 ^ 64"
  shows "readSize (nat_bytes n @ rest) (word_of_nat (length (nat_bytes n))) = Inr (word_of_nat n)"
proof -
  have l: "length (nat_bytes n) \<le> 8" using assms(2) by (intro length_nat_bytes_le) simp
  have ne: "nat_bytes n \<noteq> []" using assms by (simp add: nat_bytes_eq_Nil)
  then have pos: "1 \<le> length (nat_bytes n)" by (simp add: Suc_leI)
  have u: "unat (word_of_nat (length (nat_bytes n)) :: byte) = length (nat_bytes n)"
    using l by (simp add: unsigned_of_nat take_bit_nat_eq_self)
  have "uint (or_bytes (nat_bytes n)) = int n" using l by (simp add: uint_or_bytes)
  then have w: "or_bytes (nat_bytes n) = word_of_nat n" by (metis of_int_of_nat_eq word_of_int_uint)
  moreover have "\<not> (word_of_nat n :: uint64) < 56"
    using assms by (simp add: word_less_56 unat_of_nat_64)
  ultimately show ?thesis
    using l pos ne assms nat_bytes_hd [of n]
    by (simp add: readSize_def u word_le_nat_alt hd_append)
qed

lemma readSize_Inr:
  assumes "readSize b slen = Inr s" "1 \<le> unat slen" "unat slen \<le> 8"
  shows "\<exists>rest. b = nat_bytes (unat s) @ rest \<and> length (nat_bytes (unat s)) = unat slen \<and> 56 \<le> unat s"
proof -
  let ?t = "take (unat slen) b"
  have a: "unat slen \<le> length b" "or_bytes ?t = s" "\<not> s < 56" "hd b \<noteq> 0"
    using assms by (auto simp: readSize_def Let_def word_le_nat_alt split: if_splits)
  have hd: "hd ?t \<noteq> 0" using a(1,4) assms(2) by (cases b) (auto simp: take_Cons')
  have "int (unat s) = big_SetBytes ?t"
    using uint_or_bytes [of ?t] assms(3) a(2) by simp
  then have "unat s = nat (big_SetBytes ?t)" by linarith
  then have "nat_bytes (unat s) = ?t" using hd by (simp add: nat_bytes_SetBytes)
  with a show ?thesis by (intro exI [of _ "drop (unat slen) b"]) (simp add: word_less_56)
qed

section \<open>Split accepts the canonical encodings\<close>

fun enc_kind :: "Kind \<Rightarrow> bytes \<Rightarrow> bytes" where
  "enc_kind KByte c = c"
| "enc_kind KString c = enc_string c"
| "enc_kind KList c = enc_list c"

fun kind_ok :: "Kind \<Rightarrow> bytes \<Rightarrow> bool" where
  "kind_ok KByte c \<longleftrightarrow> length c = 1 \<and> hd c < 0x80"
| "kind_ok KString c \<longleftrightarrow> \<not> (length c = 1 \<and> hd c < 0x80)"
| "kind_ok KList c \<longleftrightarrow> True"

lemma unat_tag: "unat t + n < 256 \<Longrightarrow> unat (t + word_of_nat n :: byte) = unat t + n"
  by (simp add: unat_word_ariths unsigned_of_nat take_bit_nat_eq_self)

lemma unat_small: "n < 256 \<Longrightarrow> unat (word_of_nat n :: byte) = n"
  by (simp add: unsigned_of_nat take_bit_nat_eq_self)

lemma length_size_bytes: "56 \<le> n \<Longrightarrow> n < 2 ^ 64 \<Longrightarrow> 1 \<le> length (nat_bytes n) \<and> length (nat_bytes n) \<le> 8"
  using length_nat_bytes_le [of n 8] nat_bytes_eq_Nil [of n] by (cases "nat_bytes n") auto

lemma readKind_string:
  assumes "kind_ok KString c" "length c < 2 ^ 64"
  shows "readKind (enc_string c @ r) = Some (Inr (KString, length (header 0x80 0xB7 (length c)), length c))"
proof (cases "length c < 56")
  case True
  with assms have "enc_string c = (0x80 + word_of_nat (length c)) # c"
    by (auto simp: enc_string_def header_def)
  moreover have "length c = 1 \<Longrightarrow> \<exists>x. c = [x] \<and> \<not> x < 0x80" using assms by (cases c) auto
  ultimately show ?thesis
    using True unat_tag [of "0x80" "length c"]
    by (auto simp: readKind_def header_def word_less_nat_alt unat_small Let_def)
next
  case False
  define L where "L = length (nat_bytes (length c))"
  have L: "1 \<le> L" "L \<le> 8" using False assms length_size_bytes [of "length c"] by (auto simp: L_def)
  have "enc_string c = (0xB7 + word_of_nat L) # nat_bytes (length c) @ c"
    using False by (auto simp: enc_string_def header_def L_def)
  moreover have "readSize (nat_bytes (length c) @ c @ r) (word_of_nat L) = Inr (word_of_nat (length c))"
    unfolding L_def using False assms by (intro readSize_header) simp_all
  ultimately show ?thesis
    using False L assms unat_tag [of "0xB7" L]
    by (simp add: readKind_def header_def word_less_nat_alt unat_small unat_of_nat_64 L_def [symmetric])
qed

lemma readKind_list:
  assumes "length c < 2 ^ 64"
  shows "readKind (enc_list c @ r) = Some (Inr (KList, length (header 0xC0 0xF7 (length c)), length c))"
proof (cases "length c < 56")
  case True
  then have "enc_list c = (0xC0 + word_of_nat (length c)) # c"
    by (simp add: enc_list_def header_def)
  with True show ?thesis
    using unat_tag [of "0xC0" "length c"]
    by (simp add: readKind_def header_def word_less_nat_alt unat_small Let_def)
next
  case False
  define L where "L = length (nat_bytes (length c))"
  have L: "1 \<le> L" "L \<le> 8" using False assms length_size_bytes [of "length c"] by (auto simp: L_def)
  have "enc_list c = (0xF7 + word_of_nat L) # nat_bytes (length c) @ c"
    using False by (simp add: enc_list_def header_def L_def)
  moreover have "readSize (nat_bytes (length c) @ c @ r) (word_of_nat L) = Inr (word_of_nat (length c))"
    unfolding L_def using False assms by (intro readSize_header) simp_all
  ultimately show ?thesis
    using False L assms unat_tag [of "0xF7" L]
    by (simp add: readKind_def header_def word_less_nat_alt unat_small unat_of_nat_64 L_def [symmetric])
qed

definition tag_len :: "Kind \<Rightarrow> bytes \<Rightarrow> nat" where
  "tag_len k c = length (enc_kind k c) - length c"

lemma length_enc_kind: "kind_ok k c \<Longrightarrow> length (enc_kind k c) = tag_len k c + length c"
  by (cases k) (auto simp: tag_len_def enc_string_def enc_list_def)

lemma readKind_enc:
  assumes "kind_ok k c" "length c < 2 ^ 64"
  shows "readKind (enc_kind k c @ r) = Some (Inr (k, tag_len k c, length c))"
proof (cases k)
  case KByte
  with assms obtain x where "c = [x]" "x < 0x80" by (cases c) auto
  with KByte show ?thesis by (simp add: readKind_def tag_len_def)
next
  case KString
  then have "tag_len k c = length (header 0x80 0xB7 (length c))"
    using assms by (auto simp: tag_len_def enc_string_def)
  with KString assms show ?thesis using readKind_string [of c r] by simp
next
  case KList
  then have "tag_len k c = length (header 0xC0 0xF7 (length c))"
    by (simp add: tag_len_def enc_list_def)
  with KList assms show ?thesis using readKind_list [of c r] by simp
qed

lemma long_header:
  assumes "readSize rest (b - large) = Inr s" "1 \<le> unat (b - large)" "unat (b - large) \<le> 8"
    "unat s \<le> length rest - unat (b - large)"
  obtains c r where "b # rest = header small large (length c) @ c @ r" "length c = unat s" "56 \<le> length c"
    "length (header small large (length c)) = unat (b - large) + 1"
proof -
  obtain rest' where r: "rest = nat_bytes (unat s) @ rest'" "length (nat_bytes (unat s)) = unat (b - large)"
    "56 \<le> unat s"
    using readSize_Inr [OF assms(1-3)] by blast
  have c: "length (take (unat s) rest') = unat s" using assms(4) r by simp
  have "b = large + word_of_nat (unat (b - large))" by simp
  then have "b # rest = header small large (unat s) @ take (unat s) rest' @ drop (unat s) rest'"
    using r by (simp add: header_def)
  moreover have "length (header small large (unat s)) = unat (b - large) + 1"
    using r by (simp add: header_def)
  ultimately show ?thesis using c r(3) by (intro that [of "take (unat s) rest'" "drop (unat s) rest'"]) simp_all
qed

lemma short_header:
  assumes "unat (b - small) < 56" "unat (b - small) \<le> length rest"
  obtains c r where "b # rest = header small large (length c) @ c @ r" "length c = unat (b - small)"
    "c = take (unat (b - small)) rest" "length (header small large (length c)) = 1"
proof -
  have c: "length (take (unat (b - small)) rest) = unat (b - small)" using assms by simp
  have "b = small + word_of_nat (unat (b - small))" by simp
  with assms c show ?thesis
    by (intro that [of "take (unat (b - small)) rest" "drop (unat (b - small)) rest"]) (simp_all add: header_def)
qed

lemma unat_minus_tag: "t \<le> b \<Longrightarrow> unat (b - t :: byte) = unat b - unat t"
  by (rule unat_sub)

lemma readKind_Inr:
  assumes "readKind b = Some (Inr (k, ts, cs))"
  shows "\<exists>c r. b = enc_kind k c @ r \<and> kind_ok k c \<and> ts = tag_len k c \<and> cs = length c"
proof -
  obtain x rest where b: "b = x # rest" using assms by (cases b) (auto simp: readKind_def)
  note le = word_le_nat_alt word_less_nat_alt
  consider "x < 0x80" | "\<not> x < 0x80" "x < 0xB8" | "\<not> x < 0xB8" "x < 0xC0"
    | "\<not> x < 0xC0" "x < 0xF8" | "\<not> x < 0xF8" by blast
  then show ?thesis
  proof cases
    case 1
    with assms b have "k = KByte" "ts = 0" "cs = 1" by (auto simp: readKind_def split: if_splits)
    with 1 b show ?thesis by (intro exI [of _ "[x]"] exI [of _ rest]) (simp add: tag_len_def)
  next
    case 2
    define n where "n = unat (x - 0x80)"
    have n: "n < 56" using 2 by (simp add: n_def unat_minus_tag le)
    have a: "k = KString" "ts = 1" "cs = n" "n \<le> length rest" "n = 1 \<Longrightarrow> rest \<noteq> [] \<and> \<not> hd rest < 128"
      using assms b 2 by (auto simp: readKind_def n_def Let_def split: if_splits list.splits)
    obtain c r where c: "b = header 0x80 0xB7 (length c) @ c @ r" "length c = n" "c = take n rest"
        "length (header 0x80 0xB7 (length c)) = 1"
      using short_header [of x "0x80" rest "0xB7"] n a(4) unfolding b n_def by metis
    have "kind_ok KString c" using a(5) c(2,3) by (cases rest) auto
    with a c show ?thesis
      by (intro exI [of _ c] exI [of _ r]) (auto simp: tag_len_def enc_string_def)
  next
    case 3
    have u: "1 \<le> unat (x - 0xB7)" "unat (x - 0xB7) \<le> 8"
      using 3 by (simp_all add: unat_minus_tag le)
    obtain s where a: "k = KString" "ts = unat (x - 0xB7) + 1" "readSize rest (x - 0xB7) = Inr s" "cs = unat s"
      "unat s \<le> length rest - unat (x - 0xB7)"
      using assms b 3 by (auto simp: readKind_def map_sum_eq_Inr le split: if_splits sum.splits)
    obtain c r where "b = header 0x80 0xB7 (length c) @ c @ r" "length c = unat s" "56 \<le> length c"
        "length (header 0x80 0xB7 (length c)) = unat (x - 0xB7) + 1"
      using long_header [OF a(3) u a(5)] unfolding b by metis
    with a show ?thesis
      by (intro exI [of _ c] exI [of _ r]) (auto simp: tag_len_def enc_string_def)
  next
    case 4
    define n where "n = unat (x - 0xC0)"
    have n: "n < 56" using 4 by (simp add: n_def unat_minus_tag le)
    have a: "k = KList" "ts = 1" "cs = n" "n \<le> length rest"
      using assms b 4 by (auto simp: readKind_def n_def Let_def le split: if_splits)
    obtain c r where "b = header 0xC0 0xF7 (length c) @ c @ r" "length c = n"
        "length (header 0xC0 0xF7 (length c)) = 1"
      using short_header [of x "0xC0" rest "0xF7"] n a(4) unfolding b n_def by metis
    with a show ?thesis
      by (intro exI [of _ c] exI [of _ r]) (auto simp: tag_len_def enc_list_def)
  next
    case 5
    have u: "1 \<le> unat (x - 0xF7)" "unat (x - 0xF7) \<le> 8"
      using 5 unat_lt_pow [of x] by (simp_all add: unat_minus_tag le)
    obtain s where a: "k = KList" "ts = unat (x - 0xF7) + 1" "readSize rest (x - 0xF7) = Inr s" "cs = unat s"
      "unat s \<le> length rest - unat (x - 0xF7)"
      using assms b 5 by (auto simp: readKind_def map_sum_eq_Inr le split: if_splits sum.splits)
    obtain c r where "b = header 0xC0 0xF7 (length c) @ c @ r" "length c = unat s"
        "length (header 0xC0 0xF7 (length c)) = unat (x - 0xF7) + 1"
      using long_header [OF a(3) u a(5)] unfolding b by metis
    with a show ?thesis
      by (intro exI [of _ c] exI [of _ r]) (auto simp: tag_len_def enc_list_def)
  qed
qed

lemma readKind_None: "readKind b = None \<longleftrightarrow> b = [0x81]"
proof
  assume "readKind b = None"
  then obtain x where "b = [x]" "\<not> x < 0x80" "x < 0xB8" "unat (x - 0x80) = 1"
    by (auto simp: readKind_def Let_def split: list.splits if_splits bind_splits)
  moreover from this have "unat x = 0x81" by (simp add: unat_minus_tag word_le_nat_alt word_less_nat_alt)
  ultimately show "b = [0x81]" by (simp add: word_unat_eq_iff)
qed (simp add: readKind_def word_less_nat_alt)

lemma Split_readKind:
  "Split b = (case readKind b of
     None \<Rightarrow> None
   | Some (Inl e) \<Rightarrow> Some (Inl e)
   | Some (Inr (k, ts, cs)) \<Rightarrow> Some (Inr (k, take cs (drop ts b), drop (ts + cs) b)))"
proof -
  have "ts + cs \<le> length b" if "readKind b = Some (Inr (k, ts, cs))" for k ts cs
    using readKind_Inr [OF that] length_enc_kind by fastforce
  then show ?thesis
    by (auto simp: Split_def go_slice_def split: option.splits sum.splits)
qed

lemma Split_enc:
  assumes "kind_ok k c" "length c < 2 ^ 64"
  shows "Split (enc_kind k c @ r) = Some (Inr (k, c, r))"
proof -
  have "drop (tag_len k c) (enc_kind k c) = c"
    by (cases k) (auto simp: tag_len_def enc_string_def enc_list_def)
  then show ?thesis
    using assms length_enc_kind [of k c] by (simp add: Split_readKind readKind_enc)
qed

lemma Split_Inr:
  assumes "Split b = Some (Inr (k, c, r))"
  shows "b = enc_kind k c @ r \<and> kind_ok k c"
proof -
  obtain ts cs where rk: "readKind b = Some (Inr (k, ts, cs))" "c = take cs (drop ts b)" "r = drop (ts + cs) b"
    using assms by (auto simp: Split_readKind split: option.splits sum.splits)
  then obtain c' r' where c': "b = enc_kind k c' @ r'" "kind_ok k c'" "ts = tag_len k c'" "cs = length c'"
    using readKind_Inr by blast
  moreover have "drop (tag_len k c') (enc_kind k c') = c'"
    by (cases k) (auto simp: tag_len_def enc_string_def enc_list_def)
  ultimately show ?thesis
    using rk length_enc_kind [of k c'] by (simp add: rk)
qed

lemma Split_None: "Split b = None \<longleftrightarrow> b = [0x81]"
  using readKind_None [of b] by (auto simp: Split_readKind split: option.splits sum.splits)

lemma rlp_item_ne [simp]: "rlp_item it \<noteq> []"
  by (cases it) (auto simp: enc_string_def enc_list_def header_def)

definition content :: "item \<Rightarrow> bytes" where
  "content it = (case it of Str b \<Rightarrow> b | Lst xs \<Rightarrow> concat (map rlp_item xs))"

definition item_kind :: "item \<Rightarrow> Kind" where
  "item_kind it = (case it of Str b \<Rightarrow> (if length b = 1 \<and> hd b < 0x80 then KByte else KString) | Lst _ \<Rightarrow> KList)"

lemma rlp_item_enc: "rlp_item it = enc_kind (item_kind it) (content it)" "kind_ok (item_kind it) (content it)"
  by (auto simp: content_def item_kind_def enc_string_def split: item.split)

lemma CountValues_from_items:
  "length (concat (map rlp_item xs)) < 2 ^ 64 \<Longrightarrow>
   CountValues_from i (concat (map rlp_item xs)) = Some (Inr (i + length xs))"
proof (induction xs arbitrary: i)
  case (Cons it xs)
  have "length (content it) \<le> length (rlp_item it)"
    using length_enc_kind [OF rlp_item_enc(2) [of it]] by (simp add: rlp_item_enc(1) [of it])
  with Cons.prems have "length (content it) < 2 ^ 64" by simp
  then have "readKind (rlp_item it @ concat (map rlp_item xs)) =
      Some (Inr (item_kind it, tag_len (item_kind it) (content it), length (content it)))"
    using readKind_enc rlp_item_enc by simp
  moreover have "tag_len (item_kind it) (content it) + length (content it) = length (rlp_item it)"
    using length_enc_kind [OF rlp_item_enc(2) [of it]] by (simp add: rlp_item_enc(1) [of it])
  ultimately show ?case
    using Cons by (simp add: CountValues_from.simps [of i])
qed (simp add: CountValues_from.simps)

section \<open>Properties\<close>

text \<open>
  C32. \<^verbatim>\<open>Split\<close> accepts exactly the canonical encodings: it returns kind \<open>k\<close>, content \<open>c\<close> and rest \<open>r\<close> just for
  the slice that is the encoding of \<open>c\<close> as a value of kind \<open>k\<close> followed by \<open>r\<close>. The only slice on which it
  panics is the single byte 0x81, whose announced content byte it reads without a length check.
\<close>

theorem Split_canonical:
  assumes "length b < 2 ^ 63"
  shows "(Split b = Some (Inr (k, c, r)) \<longleftrightarrow> b = enc_kind k c @ r \<and> kind_ok k c) \<and>
    (Split b = None \<longleftrightarrow> b = [0x81])"
proof -
  have "length c \<le> length b" if "b = enc_kind k c @ r" "kind_ok k c"
    using that length_enc_kind [of k c] by simp
  with assms show ?thesis
    using Split_Inr [of b k c r] Split_enc [of k c r] Split_None [of b] by fastforce
qed

theorem Split_canonical_witness:
  "Split [0x83, 1, 2, 3, 0xC0] = Some (Inr (KString, [1, 2, 3], [0xC0]))"
  using Split_canonical [of "[0x83, 1, 2, 3, 0xC0]" KString "[1, 2, 3]" "[0xC0]"]
  by (simp add: enc_string_def header_def)

end
