(* ===== verification/Rlp_Stream.thy ===== *)
theory Rlp_Stream
  imports Rlp_Raw
begin

text \<open>
  \<^verbatim>\<open>rlp/decode.go\<close>: the decoder of package rlp. A \<^verbatim>\<open>Stream\<close> reads the input piece by piece and keeps a stack of
  the lists that are open; the decoder functions for the Go types, which reflection selects at run time, are
  the branches of \<open>decode\<close> over the data type of Go types. The input reader is the list of the bytes it still has.
  Sizes and positions are \<^verbatim>\<open>uint64\<close> in the source and natural numbers here; each is checked against an upper
  bound before it is added or subtracted.

  Decoding returns a value, fails with an error value, panics (a \<^verbatim>\<open>make\<close> of more memory than Go's run-time
  system can allocate), or does not end within the fuel.
\<close>

record Stream =
  s_input :: bytes
  s_remaining :: nat
  s_limited :: bool
  s_kind :: "Kind option" \<comment> \<open>None is -1: nothing read yet\<close>
  s_size :: nat
  s_byteval :: byte
  s_kinderr :: "rlp_error option"
  s_stack :: "(nat \<times> nat) list" \<comment> \<open>\<^verbatim>\<open>listpos\<close>: position and size, innermost list first\<close>

datatype 'a run = Panic | OutOfFuel | Ret 'a Stream | Fail rlp_error Stream

type_synonym 'a dec = "Stream \<Rightarrow> 'a run"

definition ret :: "'a \<Rightarrow> 'a dec" where "ret x s = Ret x s"
definition fail :: "rlp_error \<Rightarrow> 'a dec" where "fail e s = Fail e s"

definition rbind :: "'a dec \<Rightarrow> ('a \<Rightarrow> 'b dec) \<Rightarrow> 'b dec" where
  "rbind m f s =
     (case m s of Panic \<Rightarrow> Panic | OutOfFuel \<Rightarrow> OutOfFuel | Ret x s \<Rightarrow> f x s | Fail e s \<Rightarrow> Fail e s)"

definition rearm :: "Stream \<Rightarrow> Stream" where
  "rearm s = s\<lparr>s_kind := None\<rparr>"

definition max_alloc :: nat where "max_alloc = 2 ^ 48"

section \<open>Reading\<close>

definition willRead :: "nat \<Rightarrow> unit dec" where
  "willRead n s =
     (let s = rearm s;
          limit = (\<lambda>s. if s_limited s then
                          if n > s_remaining s then Fail ErrValueTooLarge s
                          else Ret () (s\<lparr>s_remaining := s_remaining s - n\<rparr>)
                        else Ret () s)
      in case s_stack s of
           [] \<Rightarrow> limit s
         | (p, sz) # st \<Rightarrow>
             if n > sz - p then Fail ErrElemTooLarge s else limit (s\<lparr>s_stack := (p + n, sz) # st\<rparr>))"

definition readByte :: "byte dec" where
  "readByte = rbind (willRead 1) (\<lambda>_ s.
     case s_input s of [] \<Rightarrow> Fail ErrUnexpectedEOF s | b # r \<Rightarrow> Ret b (s\<lparr>s_input := r\<rparr>))"

definition readFull :: "nat \<Rightarrow> bytes dec" where
  "readFull n = rbind (willRead n) (\<lambda>_ s.
     if n \<le> length (s_input s) then Ret (take n (s_input s)) (s\<lparr>s_input := drop n (s_input s)\<rparr>)
     else Fail ErrUnexpectedEOF (s\<lparr>s_input := []\<rparr>))"

text \<open>The buffer has eight bytes: \<^verbatim>\<open>s.uintbuf[8-size:]\<close> is out of range for a larger size.\<close>

definition readUint :: "nat \<Rightarrow> nat dec" where
  "readUint sz =
     (if sz = 0 then (\<lambda>s. Ret 0 (rearm s))
      else if sz = 1 then rbind readByte (\<lambda>b. ret (unat b))
      else if sz > 8 then (\<lambda>s. Panic)
      else rbind (readFull sz) (\<lambda>b. if hd b = 0 then fail ErrCanonSize else ret (nat (big_SetBytes b))))"

text \<open>\<^verbatim>\<open>readKind\<close> returns a kind and a size also along with an error.\<close>

definition long_size :: "Kind \<Rightarrow> nat \<Rightarrow> (Kind \<times> nat \<times> rlp_error option) dec" where
  "long_size k n s =
     (case readUint n s of
        Panic \<Rightarrow> Panic
      | OutOfFuel \<Rightarrow> OutOfFuel
      | Ret sz s \<Rightarrow> Ret (k, sz, if sz < 56 then Some ErrCanonSize else None) s
      | Fail e s \<Rightarrow> Ret (k, 0, Some e) s)"

definition s_readKind :: "(Kind \<times> nat \<times> rlp_error option) dec" where
  "s_readKind s =
     (case readByte s of
        Panic \<Rightarrow> Panic
      | OutOfFuel \<Rightarrow> OutOfFuel
      | Fail e s \<Rightarrow>
          Ret (KByte, 0, Some (if s_stack s = [] \<and> (e = ErrUnexpectedEOF \<or> e = ErrValueTooLarge) then EOF else e)) s
      | Ret b s \<Rightarrow>
          (let s = s\<lparr>s_byteval := 0\<rparr> in
           if b < 0x80 then Ret (KByte, 0, None) (s\<lparr>s_byteval := b\<rparr>)
           else if b < 0xB8 then Ret (KString, unat (b - 0x80), None) s
           else if b < 0xC0 then long_size KString (unat (b - 0xB7)) s
           else if b < 0xF8 then Ret (KList, unat (b - 0xC0), None) s
           else long_size KList (unat (b - 0xF7)) s))"

definition s_Kind :: "(Kind \<times> nat) dec" where
  "s_Kind s =
     (case s_kind s of
        Some k \<Rightarrow> (case s_kinderr s of None \<Rightarrow> Ret (k, s_size s) s | Some e \<Rightarrow> Fail e s)
      | None \<Rightarrow>
          (let s = s\<lparr>s_kinderr := None\<rparr> in
           case s_stack s of
             (p, sz) # _ \<Rightarrow> if p = sz then Fail EOL s else
               rbind s_readKind (\<lambda>(k, n, err) s.
                 (let err = (if err = None \<and> n > snd (hd (s_stack s)) - fst (hd (s_stack s)) then Some ErrElemTooLarge
                             else err);
                      s = s\<lparr>s_kind := Some k, s_size := n, s_kinderr := err\<rparr>
                  in case err of None \<Rightarrow> Ret (k, n) s | Some e \<Rightarrow> Fail e s)) s
           | [] \<Rightarrow>
               rbind s_readKind (\<lambda>(k, n, err) s.
                 (let err = (if err = None \<and> s_limited s \<and> n > s_remaining s then Some ErrValueTooLarge else err);
                      s = s\<lparr>s_kind := Some k, s_size := n, s_kinderr := err\<rparr>
                  in case err of None \<Rightarrow> Ret (k, n) s | Some e \<Rightarrow> Fail e s)) s))"

section \<open>Values\<close>

definition s_Bytes :: "bytes dec" where
  "s_Bytes = rbind s_Kind (\<lambda>(kind, sz) s.
     case kind of
       KByte \<Rightarrow> Ret [s_byteval s] (rearm s)
     | KString \<Rightarrow>
         if sz > max_alloc then Panic
         else rbind (readFull sz) (\<lambda>b. if sz = 1 \<and> hd b < 128 then fail ErrCanonSize else ret b) s
     | KList \<Rightarrow> Fail ErrExpectedString s)"

definition s_Raw :: "bytes dec" where
  "s_Raw = rbind s_Kind (\<lambda>(kind, sz) s.
     if kind = KByte then Ret [s_byteval s] (rearm s)
     else if headsize (word_of_nat sz) + sz > max_alloc then Panic
     else rbind (readFull sz) (\<lambda>b.
       ret ((if kind = KString then puthead 0x80 0xB8 (word_of_nat sz) else puthead 0xC0 0xF7 (word_of_nat sz)) @ b)) s)"

definition s_uint :: "nat \<Rightarrow> nat dec" where
  "s_uint maxbits = rbind s_Kind (\<lambda>(kind, sz) s.
     case kind of
       KByte \<Rightarrow> if s_byteval s = 0 then Fail ErrCanonInt s else Ret (unat (s_byteval s)) (rearm s)
     | KString \<Rightarrow>
         if sz > maxbits div 8 then Fail errUintOverflow s
         else (case readUint sz s of
                 Panic \<Rightarrow> Panic
               | OutOfFuel \<Rightarrow> OutOfFuel
               | Fail e s \<Rightarrow> Fail (if e = ErrCanonSize then ErrCanonInt else e) s
               | Ret v s \<Rightarrow> if sz > 0 \<and> v < 128 then Fail ErrCanonSize s else Ret v s)
     | KList \<Rightarrow> Fail ErrExpectedString s)"

definition s_Bool :: "bool dec" where
  "s_Bool = rbind (s_uint 8) (\<lambda>num.
     if num = 0 then ret False else if num = 1 then ret True else fail ErrInvalidBool)"

definition s_List :: "nat dec" where
  "s_List = rbind s_Kind (\<lambda>(kind, sz) s.
     if kind \<noteq> KList then Fail ErrExpectedList s
     else Ret sz (s\<lparr>s_stack := (0, sz) # s_stack s, s_kind := None, s_size := 0\<rparr>))"

definition s_ListEnd :: "unit dec" where
  "s_ListEnd s =
     (case s_stack s of
        [] \<Rightarrow> Fail errNotInList s
      | (p, sz) # st \<Rightarrow>
          if p \<noteq> sz then Fail errNotAtEOL s
          else Ret () (s\<lparr>s_stack := (case st of [] \<Rightarrow> [] | (p', sz') # st' \<Rightarrow> (p' + sz, sz') # st'),
                         s_kind := None, s_size := 0\<rparr>))"

section \<open>Decoders\<close>

text \<open>
  The types with a decoder. \<open>TTail\<close> is a slice with the struct tag "tail", \<open>TOptPtr\<close> a pointer with the tag "nil".
  Error contexts and the type named in an error message are left out.
\<close>

datatype gotype =
    TRaw | TUint nat | TBool | TString | TBigInt | TByteSlice | TByteArray nat
  | TSlice gotype | TTail gotype | TArray nat gotype | TStruct "gotype list"
  | TPtr gotype | TOptPtr gotype | TInterface

definition wrapStreamError :: "rlp_error \<Rightarrow> rlp_error" where
  "wrapStreamError err = (case err of
     ErrCanonInt \<Rightarrow> DecodeError ''non-canonical integer (leading zero bytes)''
   | ErrCanonSize \<Rightarrow> DecodeError ''non-canonical size information''
   | ErrExpectedList \<Rightarrow> DecodeError ''expected input list''
   | ErrExpectedString \<Rightarrow> DecodeError ''expected input string or byte''
   | errUintOverflow \<Rightarrow> DecodeError ''input string too long''
   | errNotAtEOL \<Rightarrow> DecodeError ''input list has too many elements''
   | _ \<Rightarrow> err)"

definition wrap :: "'a dec \<Rightarrow> 'a dec" where
  "wrap m s = (case m s of Fail e s \<Rightarrow> Fail (wrapStreamError e) s | r \<Rightarrow> r)"

definition decodeUint :: "nat \<Rightarrow> goval dec" where
  "decodeUint bits = rbind (wrap (s_uint bits)) (\<lambda>n. ret (GUint (word_of_nat n)))"

definition decodeBool :: "goval dec" where
  "decodeBool = rbind (wrap s_Bool) (\<lambda>b. ret (GBool b))"

definition decodeString :: "goval dec" where
  "decodeString = rbind (wrap s_Bytes) (\<lambda>b. ret (GString b))"

definition decodeBigInt :: "goval dec" where
  "decodeBigInt = rbind (wrap s_Bytes) (\<lambda>b.
     if b \<noteq> [] \<and> hd b = 0 then wrap (fail ErrCanonInt) else ret (GBigInt (Some (big_SetBytes b))))"

definition decodeByteSlice :: "goval dec" where
  "decodeByteSlice = rbind (wrap s_Bytes) (\<lambda>b. ret (GBytes b))"

text \<open>For a single byte the error of \<^verbatim>\<open>s.Uint()\<close> is dropped, and so is the state it leaves.\<close>

definition decodeByteArray :: "nat \<Rightarrow> goval dec" where
  "decodeByteArray vlen = rbind s_Kind (\<lambda>(kind, sz) s.
     case kind of
       KByte \<Rightarrow>
         if vlen = 0 then Fail (DecodeError ''input string too long'') s
         else if vlen > 1 then Fail (DecodeError ''input string too short'') s
         else (case s_uint 64 s of
                 Panic \<Rightarrow> Panic
               | OutOfFuel \<Rightarrow> OutOfFuel
               | Ret bv s \<Rightarrow> Ret (GBytes [word_of_nat bv]) s
               | Fail e s \<Rightarrow> Ret (GBytes [0]) s)
     | KString \<Rightarrow>
         if vlen < sz then Fail (DecodeError ''input string too long'') s
         else if vlen > sz then Fail (DecodeError ''input string too short'') s
         else rbind (readFull vlen) (\<lambda>b.
           if sz = 1 \<and> hd b < 128 then wrap (fail ErrCanonSize) else ret (GBytes b)) s
     | KList \<Rightarrow> wrap (fail ErrExpectedString) s)"

fun decode :: "nat \<Rightarrow> gotype \<Rightarrow> goval dec"
  and decodeListSlice :: "nat \<Rightarrow> gotype \<Rightarrow> goval dec"
  and decodeSliceElems :: "nat \<Rightarrow> gotype \<Rightarrow> goval list dec"
  and decodeArrayElems :: "nat \<Rightarrow> nat \<Rightarrow> gotype \<Rightarrow> goval list dec"
  and decodeFields :: "nat \<Rightarrow> gotype list \<Rightarrow> goval list dec" where
  "decode 0 t s = OutOfFuel"
| "decode (Suc n) t s = (case t of
     TRaw \<Rightarrow> rbind s_Raw (\<lambda>b. ret (GRaw b)) s
   | TUint bits \<Rightarrow> decodeUint bits s
   | TBool \<Rightarrow> decodeBool s
   | TString \<Rightarrow> decodeString s
   | TBigInt \<Rightarrow> decodeBigInt s
   | TByteSlice \<Rightarrow> decodeByteSlice s
   | TByteArray k \<Rightarrow> decodeByteArray k s
   | TSlice t \<Rightarrow> decodeListSlice n t s
   | TTail t \<Rightarrow> rbind (decodeSliceElems n t) (\<lambda>vs. ret (GSlice True vs)) s
   | TArray k t \<Rightarrow>
       rbind (wrap s_List) (\<lambda>_.
       rbind (decodeArrayElems n k t) (\<lambda>vs.
         if length vs < k then fail (DecodeError ''input list has too few elements'')
         else rbind (wrap s_ListEnd) (\<lambda>_. ret (GSlice False vs)))) s
   | TStruct ts \<Rightarrow>
       rbind (wrap s_List) (\<lambda>_.
       rbind (decodeFields n ts) (\<lambda>vs.
       rbind (wrap s_ListEnd) (\<lambda>_. ret (GStruct vs)))) s
   | TPtr t \<Rightarrow> decode n t s
   | TOptPtr t \<Rightarrow>
       (case s_Kind s of
          Panic \<Rightarrow> Panic
        | OutOfFuel \<Rightarrow> OutOfFuel
        | Fail e s \<Rightarrow> Fail e (rearm s)
        | Ret (kind, sz) s \<Rightarrow>
            if sz = 0 \<and> kind \<noteq> KByte then Ret (GNilPtr (case t of TByteArray _ \<Rightarrow> True | _ \<Rightarrow> False)) (rearm s)
            else decode n t s)
   | TInterface \<Rightarrow>
       rbind s_Kind (\<lambda>(kind, _).
         if kind = KList then decodeListSlice n TInterface
         else rbind s_Bytes (\<lambda>b. ret (GBytes b))) s)"
| "decodeListSlice 0 t s = OutOfFuel"
| "decodeListSlice (Suc n) t s =
     rbind (wrap s_List) (\<lambda>sz.
       if sz = 0 then rbind s_ListEnd (\<lambda>_. ret (GSlice False []))
       else rbind (decodeSliceElems n t) (\<lambda>vs. rbind s_ListEnd (\<lambda>_. ret (GSlice False vs)))) s"
| "decodeSliceElems 0 t s = OutOfFuel"
| "decodeSliceElems (Suc n) t s =
     (case decode n t s of
        Panic \<Rightarrow> Panic
      | OutOfFuel \<Rightarrow> OutOfFuel
      | Fail e s \<Rightarrow> if e = EOL then Ret [] s else Fail e s
      | Ret v s \<Rightarrow> rbind (decodeSliceElems n t) (\<lambda>vs. ret (v # vs)) s)"
| "decodeArrayElems 0 k t s = OutOfFuel"
| "decodeArrayElems (Suc n) k t s =
     (if k = 0 then Ret [] s
      else (case decode n t s of
              Panic \<Rightarrow> Panic
            | OutOfFuel \<Rightarrow> OutOfFuel
            | Fail e s \<Rightarrow> if e = EOL then Ret [] s else Fail e s
            | Ret v s \<Rightarrow> rbind (decodeArrayElems n (k - 1) t) (\<lambda>vs. ret (v # vs)) s))"
| "decodeFields 0 ts s = OutOfFuel"
| "decodeFields (Suc n) ts s =
     (case ts of
        [] \<Rightarrow> Ret [] s
      | t # ts \<Rightarrow>
          (case decode n t s of
             Panic \<Rightarrow> Panic
           | OutOfFuel \<Rightarrow> OutOfFuel
           | Fail e s \<Rightarrow> Fail (if e = EOL then DecodeError ''too few elements'' else e) s
           | Ret v s \<Rightarrow> rbind (decodeFields n ts) (\<lambda>vs. ret (v # vs)) s))"

definition NewStream :: "bytes \<Rightarrow> nat \<Rightarrow> Stream" where
  "NewStream b inputLimit =
     \<lparr>s_input = b, s_remaining = (if inputLimit > 0 then inputLimit else length b), s_limited = True,
      s_kind = None, s_size = 0, s_byteval = 0, s_kinderr = None, s_stack = []\<rparr>"

definition DecodeBytes :: "nat \<Rightarrow> bytes \<Rightarrow> gotype \<Rightarrow> goval run" where
  "DecodeBytes n b t =
     rbind (decode n t) (\<lambda>v s. if s_input s \<noteq> [] then Fail ErrMoreThanOneValue s else Ret v s)
       (NewStream b (length b))"

end
