(* ===== verification/Rlp_Decode.thy ===== *)
theory Rlp_Decode
  imports Rlp_Stream
begin

text \<open>
  The correctness of the decoder. A decoder is \<open>exact\<close> for an encoding when, on the part of the input it may
  read (the \<open>window\<close>: the rest of the innermost open list), it returns a value just if the window starts with
  the encoding of that value, moves past it, and otherwise fails. Exactness is proved for the operations of
  the stream and composed along the types.
\<close>

section \<open>The window\<close>

definition room :: "Stream \<Rightarrow> nat" where
  "room s = (case s_stack s of [] \<Rightarrow> length (s_input s) | (p, z) # _ \<Rightarrow> z - p)"

definition window :: "Stream \<Rightarrow> bytes" where
  "window s = take (room s) (s_input s)"

definition base :: "Stream \<Rightarrow> bool" where
  "base s \<longleftrightarrow> s_limited s \<and> s_remaining s = length (s_input s) \<and> length (s_input s) \<le> max_alloc \<and>
     (case s_stack s of [] \<Rightarrow> True | (p, z) # _ \<Rightarrow> p \<le> z \<and> z - p \<le> length (s_input s))"

definition ready :: "Stream \<Rightarrow> bool" where
  "ready s \<longleftrightarrow> base s \<and> s_kind s = None"

fun adv_stack :: "nat \<Rightarrow> (nat \<times> nat) list \<Rightarrow> (nat \<times> nat) list" where
  "adv_stack k [] = []"
| "adv_stack k ((p, z) # st) = (p + k, z) # st"

text \<open>\<open>s'\<close> is \<open>s\<close> after reading \<open>k\<close> bytes.\<close>

definition moved :: "nat \<Rightarrow> Stream \<Rightarrow> Stream \<Rightarrow> bool" where
  "moved k s s' \<longleftrightarrow> k \<le> room s \<and> s_input s' = drop k (s_input s) \<and> s_remaining s' = s_remaining s - k \<and>
     s_limited s' = s_limited s \<and> s_stack s' = adv_stack k (s_stack s)"

definition at_end :: "Stream \<Rightarrow> bool" where
  "at_end s \<longleftrightarrow> s_stack s \<noteq> [] \<and> room s = 0"

text \<open>The remembered header does not matter for the window.\<close>

lemma irrelevant [simp]:
  "room (s\<lparr>s_kind := a_s_kind\<rparr>) = room s"
  "base (s\<lparr>s_kind := a_s_kind\<rparr>) = base s"
  "window (s\<lparr>s_kind := a_s_kind\<rparr>) = window s"
  "moved k s (s'\<lparr>s_kind := a_s_kind\<rparr>) = moved k s s'"
  "moved k (s\<lparr>s_kind := a_s_kind\<rparr>) s' = moved k s s'"
  "at_end (s\<lparr>s_kind := a_s_kind\<rparr>) = at_end s"
  "room (s\<lparr>s_size := a_s_size\<rparr>) = room s"
  "base (s\<lparr>s_size := a_s_size\<rparr>) = base s"
  "window (s\<lparr>s_size := a_s_size\<rparr>) = window s"
  "moved k s (s'\<lparr>s_size := a_s_size\<rparr>) = moved k s s'"
  "moved k (s\<lparr>s_size := a_s_size\<rparr>) s' = moved k s s'"
  "at_end (s\<lparr>s_size := a_s_size\<rparr>) = at_end s"
  "room (s\<lparr>s_byteval := a_s_byteval\<rparr>) = room s"
  "base (s\<lparr>s_byteval := a_s_byteval\<rparr>) = base s"
  "window (s\<lparr>s_byteval := a_s_byteval\<rparr>) = window s"
  "moved k s (s'\<lparr>s_byteval := a_s_byteval\<rparr>) = moved k s s'"
  "moved k (s\<lparr>s_byteval := a_s_byteval\<rparr>) s' = moved k s s'"
  "at_end (s\<lparr>s_byteval := a_s_byteval\<rparr>) = at_end s"
  "room (s\<lparr>s_kinderr := a_s_kinderr\<rparr>) = room s"
  "base (s\<lparr>s_kinderr := a_s_kinderr\<rparr>) = base s"
  "window (s\<lparr>s_kinderr := a_s_kinderr\<rparr>) = window s"
  "moved k s (s'\<lparr>s_kinderr := a_s_kinderr\<rparr>) = moved k s s'"
  "moved k (s\<lparr>s_kinderr := a_s_kinderr\<rparr>) s' = moved k s s'"
  "at_end (s\<lparr>s_kinderr := a_s_kinderr\<rparr>) = at_end s"
  by (cases "s_stack s"; simp add: room_def base_def window_def moved_def at_end_def)+

lemma length_window [simp]: "base s \<Longrightarrow> length (window s) = room s"
  by (auto simp: window_def room_def base_def split: list.splits)

lemma base_readyI: "ready s \<Longrightarrow> base s"
  by (simp add: ready_def)

lemma moved_0: "base s \<Longrightarrow> s_input s' = s_input s \<Longrightarrow> s_remaining s' = s_remaining s \<Longrightarrow>
   s_limited s' = s_limited s \<Longrightarrow> s_stack s' = s_stack s \<Longrightarrow> moved 0 s s'"
  by (cases "s_stack s") (auto simp: moved_def)

lemma moved_base: "moved k s s' \<Longrightarrow> base s \<Longrightarrow> base s'"
  by (cases "s_stack s") (auto simp: moved_def base_def room_def split: list.splits)

lemma moved_room: "moved k s s' \<Longrightarrow> base s \<Longrightarrow> room s' = room s - k"
  by (cases "s_stack s") (auto simp: moved_def base_def room_def split: list.splits)

lemma moved_window: "moved k s s' \<Longrightarrow> base s \<Longrightarrow> window s' = drop k (window s)"
  using moved_room [of k s s'] by (simp add: window_def moved_def drop_take)

lemma moved_trans: "moved k s s1 \<Longrightarrow> base s \<Longrightarrow> moved l s1 s2 \<Longrightarrow> moved (k + l) s s2"
  using moved_room [of k s s1]
  by (cases "s_stack s") (auto simp: moved_def add.commute)

lemma moved_at_end: "moved k s s' \<Longrightarrow> base s \<Longrightarrow> at_end s' \<longleftrightarrow> s_stack s \<noteq> [] \<and> k = room s"
  using moved_room [of k s s'] by (cases "s_stack s") (auto simp: at_end_def moved_def)

section \<open>Reading\<close>

lemma willRead_base:
  assumes "base s"
  shows "n \<le> room s \<Longrightarrow> willRead n s =
      Ret () (s\<lparr>s_kind := None, s_remaining := s_remaining s - n, s_stack := adv_stack n (s_stack s)\<rparr>)"
    and "room s < n \<Longrightarrow> \<exists>e s'. willRead n s = Fail e s' \<and> e \<noteq> EOL"
  using assms
  by (cases "s_stack s"; force simp: willRead_def base_def room_def rearm_def Let_def)+

lemma readFull_base:
  assumes "base s"
  shows "n \<le> room s \<Longrightarrow> \<exists>s'. readFull n s = Ret (take n (window s)) s' \<and> moved n s s' \<and> s_kind s' = None \<and>
      s_byteval s' = s_byteval s"
    and "room s < n \<Longrightarrow> \<exists>e s'. readFull n s = Fail e s' \<and> e \<noteq> EOL"
proof -
  have "room s \<le> length (s_input s)" using assms by (auto simp: base_def room_def split: list.splits)
  then show "n \<le> room s \<Longrightarrow> \<exists>s'. readFull n s = Ret (take n (window s)) s' \<and> moved n s s' \<and> s_kind s' = None \<and>
      s_byteval s' = s_byteval s"
    using assms by (auto simp: readFull_def rbind_def willRead_base moved_def window_def min_def)
  show "room s < n \<Longrightarrow> \<exists>e s'. readFull n s = Fail e s' \<and> e \<noteq> EOL"
    using willRead_base(2) [OF assms] by (fastforce simp: readFull_def rbind_def)
qed

lemma readByte_base:
  assumes "base s"
  shows "window s = b # w \<Longrightarrow> \<exists>s'. readByte s = Ret b s' \<and> moved 1 s s' \<and> s_kind s' = None \<and> s_byteval s' = s_byteval s"
    and "room s = 0 \<Longrightarrow> \<exists>e s'. readByte s = Fail e s' \<and> e \<noteq> EOL"
proof -
  assume w: "window s = b # w"
  then have "1 \<le> room s" using length_window [OF assms] by simp
  moreover from w obtain r where "s_input s = b # r" by (cases "s_input s") (auto simp: window_def take_Cons' split: if_splits)
  ultimately show "\<exists>s'. readByte s = Ret b s' \<and> moved 1 s s' \<and> s_kind s' = None \<and> s_byteval s' = s_byteval s"
    using assms by (auto simp: readByte_def rbind_def willRead_base moved_def)
next
  show "room s = 0 \<Longrightarrow> \<exists>e s'. readByte s = Fail e s' \<and> e \<noteq> EOL"
    using willRead_base(2) [OF assms, of 1] by (fastforce simp: readByte_def rbind_def)
qed

definition uint_spec :: "nat \<Rightarrow> Stream \<Rightarrow> nat run \<Rightarrow> bool" where
  "uint_spec n s r \<longleftrightarrow>
     (if n \<le> room s \<and> (n = 1 \<or> hd (window s) \<noteq> 0)
      then \<exists>s'. r = Ret (nat (big_SetBytes (take n (window s)))) s' \<and> moved n s s' \<and> s_kind s' = None \<and>
             s_byteval s' = s_byteval s
      else \<exists>e s'. r = Fail e s' \<and> e \<noteq> EOL \<and> (n \<le> room s \<longrightarrow> e = ErrCanonSize))"

lemma readUint_base:
  assumes "base s" "1 \<le> n" "n \<le> 8"
  shows "uint_spec n s (readUint n s)"
proof (cases "n \<le> room s")
  case True
  then have l: "n \<le> length (window s)" using assms by simp
  show ?thesis
  proof (cases "n = 1")
    case n: True
    with l obtain b w where w: "window s = b # w" by (cases "window s") auto
    have "nat (big_SetBytes (take n (window s))) = unat b"
      using big_SetBytes_Cons [of b "[]"] w n by simp
    moreover obtain s' where "readByte s = Ret b s'" "moved n s s'" "s_kind s' = None" "s_byteval s' = s_byteval s"
      using readByte_base(1) [OF assms(1) w] n by blast
    moreover from this have "readUint n s = Ret (unat b) s'" using n by (simp add: readUint_def rbind_def ret_def)
    ultimately show ?thesis using n True by (simp add: uint_spec_def)
  next
    case n: False
    obtain s' where s': "readFull n s = Ret (take n (window s)) s'" "moved n s s'" "s_kind s' = None"
      "s_byteval s' = s_byteval s"
      using readFull_base(1) [OF assms(1) True] by blast
    have hd: "hd (take n (window s)) = hd (window s)" using assms(2) by (cases "window s") (auto simp: take_Cons')
    show ?thesis
    proof (cases "hd (window s) = 0")
      case True
      then have "readUint n s = Fail ErrCanonSize s'"
        using n assms s'(1) hd by (simp add: readUint_def rbind_def fail_def)
      then show ?thesis using True n by (simp add: uint_spec_def)
    next
      case False
      then have "readUint n s = Ret (nat (big_SetBytes (take n (window s)))) s'"
        using n assms s'(1) hd by (simp add: readUint_def rbind_def ret_def)
      then show ?thesis using False True s' by (simp add: uint_spec_def)
    qed
  qed
next
  case False
  have "\<exists>e s'. readUint n s = Fail e s' \<and> e \<noteq> EOL"
  proof (cases "n = 1")
    case True
    then show ?thesis
      using readByte_base(2) [OF assms(1)] False by (fastforce simp: readUint_def rbind_def)
  next
    case n: False
    then show ?thesis
      using readFull_base(2) [OF assms(1), of n] False assms by (fastforce simp: readUint_def rbind_def)
  qed
  then show ?thesis using False by (simp add: uint_spec_def)
qed

section \<open>Headers\<close>

fun head_bytes :: "Kind \<Rightarrow> nat \<Rightarrow> byte \<Rightarrow> bytes" where
  "head_bytes KByte sz x = [x]"
| "head_bytes KString sz x = header 0x80 0xB7 sz"
| "head_bytes KList sz x = header 0xC0 0xF7 sz"

definition head_ok :: "Kind \<Rightarrow> nat \<Rightarrow> byte \<Rightarrow> bool" where
  "head_ok k sz x \<longleftrightarrow> (if k = KByte then sz = 0 \<and> x < 0x80 else x = 0)"

definition size_spec :: "Kind \<Rightarrow> nat \<Rightarrow> Stream \<Rightarrow> (Kind \<times> nat \<times> rlp_error option) run \<Rightarrow> bool" where
  "size_spec k n s r \<longleftrightarrow>
     (\<exists>sz w s'. window s = nat_bytes sz @ w \<and> length (nat_bytes sz) = n \<and> 56 \<le> sz \<and>
        r = Ret (k, sz, None) s' \<and> moved n s s' \<and> s_byteval s' = s_byteval s) \<or>
     (\<exists>sz e s'. r = Ret (k, sz, Some e) s' \<and> e \<noteq> EOL)"

lemma long_size_spec:
  assumes "base s" "1 \<le> n" "n \<le> 8"
  shows "size_spec k n s (long_size k n s)"
proof -
  define t where "t = take n (window s)"
  show ?thesis
  proof (cases "n \<le> room s \<and> (n = 1 \<or> hd (window s) \<noteq> 0)")
    case True
    then obtain s' where s': "readUint n s = Ret (nat (big_SetBytes t)) s'" "moved n s s'" "s_byteval s' = s_byteval s"
      using readUint_base [OF assms] by (auto simp: uint_spec_def t_def)
    show ?thesis
    proof (cases "nat (big_SetBytes t) < 56")
      case True
      with s' have "long_size k n s = Ret (k, nat (big_SetBytes t), Some ErrCanonSize) s'" by (simp add: long_size_def)
      then show ?thesis by (simp add: size_spec_def)
    next
      case False
      have len: "length t = n" using assms True by (simp add: t_def)
      have "hd t \<noteq> 0"
      proof (cases "n = 1")
        case True
        with len obtain x where "t = [x]" by (cases t) auto
        with False show ?thesis using big_SetBytes_Cons [of x "[]"] by auto
      next
        case False
        with True assms(2) show ?thesis by (cases "window s") (auto simp: t_def take_Cons')
      qed
      then have "nat_bytes (nat (big_SetBytes t)) = t" by (simp add: nat_bytes_SetBytes)
      moreover have "window s = t @ drop n (window s)" by (simp add: t_def)
      moreover have "long_size k n s = Ret (k, nat (big_SetBytes t), None) s'"
        using s' False by (simp add: long_size_def)
      ultimately show ?thesis using s' len False unfolding size_spec_def by (intro disjI1) force
    qed
  next
    case False
    then obtain e s' where "readUint n s = Fail e s'" "e \<noteq> EOL"
      using readUint_base [OF assms] by (auto simp: uint_spec_def)
    then show ?thesis by (simp add: long_size_def size_spec_def)
  qed
qed

lemma long_size_complete:
  assumes "base s" "window s = nat_bytes sz @ w" "56 \<le> sz" "sz < 2 ^ 64"
  shows "\<exists>s'. long_size k (length (nat_bytes sz)) s = Ret (k, sz, None) s'"
proof -
  define n where "n = length (nat_bytes sz)"
  have n: "1 \<le> n" "n \<le> 8" using assms length_size_bytes [of sz] by (auto simp: n_def)
  have "n \<le> room s" using assms length_window [OF assms(1)] by (simp add: n_def)
  moreover have "hd (window s) \<noteq> 0"
    using assms n nat_bytes_hd [of sz] by (simp add: hd_append nat_bytes_eq_Nil)
  moreover have "take n (window s) = nat_bytes sz" using assms by (simp add: n_def)
  ultimately obtain s' where "readUint n s = Ret sz s'"
    using readUint_base [OF assms(1) n] by (auto simp: uint_spec_def)
  then show ?thesis using assms by (simp add: long_size_def n_def)
qed

text \<open>What \<^verbatim>\<open>readKind\<close> does on a window that is not empty.\<close>

definition head_read :: "Stream \<Rightarrow> Kind \<Rightarrow> nat \<Rightarrow> byte \<Rightarrow> Stream \<Rightarrow> bool" where
  "head_read s k sz x s' \<longleftrightarrow> head_ok k sz x \<and> (\<exists>w. window s = head_bytes k sz x @ w) \<and>
     moved (length (head_bytes k sz x)) s s' \<and> s_byteval s' = x"

definition kind_res :: "Stream \<Rightarrow> (Kind \<times> nat \<times> rlp_error option) run \<Rightarrow> bool" where
  "kind_res s r \<longleftrightarrow> (\<exists>k sz x s'. r = Ret (k, sz, None) s' \<and> head_read s k sz x s') \<or>
     (\<exists>k sz e s'. r = Ret (k, sz, Some e) s' \<and> e \<noteq> EOL)"

lemma size_spec_kind:
  assumes "base s" "window s = b # w" "moved 1 s s1" "s_byteval s1 = 0" "size_spec k n s1 r"
    "k \<noteq> KByte" "\<And>sz. 56 \<le> sz \<Longrightarrow> length (nat_bytes sz) = n \<Longrightarrow> head_bytes k sz 0 = b # nat_bytes sz"
  shows "kind_res s r"
proof -
  have w: "window s1 = w" using moved_window [OF assms(3,1)] assms(2) by simp
  consider sz w' s' where "window s1 = nat_bytes sz @ w'" "length (nat_bytes sz) = n" "56 \<le> sz"
      "r = Ret (k, sz, None) s'" "moved n s1 s'" "s_byteval s' = 0"
    | sz e s' where "r = Ret (k, sz, Some e) s'" "e \<noteq> EOL"
    using assms(4,5) by (auto simp: size_spec_def)
  then show ?thesis
  proof cases
    case 1
    have "head_read s k sz 0 s'"
      using 1 w assms(2,6,7) moved_trans [OF assms(3,1) 1(5)] by (simp add: head_read_def head_ok_def)
    with 1 show ?thesis unfolding kind_res_def by blast
  qed (auto simp: kind_res_def)
qed

lemma header_long: "56 \<le> sz \<Longrightarrow> length (nat_bytes sz) = unat (b - t) \<Longrightarrow> header a t sz = b # nat_bytes sz"
  by (simp add: header_def)

lemma header_short: "unat (b - a) < 56 \<Longrightarrow> header a t (unat (b - a)) = [b]"
  by (simp add: header_def)

lemma s_readKind_spec:
  assumes "base s" "window s = b # w"
  shows "kind_res s (s_readKind s)"
proof -
  note le = word_le_nat_alt word_less_nat_alt
  obtain s1 where s1: "readByte s = Ret b s1" "moved 1 s s1" using readByte_base(1) [OF assms] by blast
  define s2 where "s2 = s1\<lparr>s_byteval := 0\<rparr>"
  have s2: "moved 1 s s2" "s_byteval s2 = 0" "base s2"
    using s1(2) moved_base [OF s1(2) assms(1)] by (simp_all add: s2_def moved_def base_def cong: list.case_cong)
  have short: "kind_res s (Ret (k, sz, None) s2)"
    if "k \<noteq> KByte" "head_bytes k sz 0 = [b]" for k sz
    using that s2 assms(2) by (auto simp: kind_res_def head_read_def head_ok_def)
  consider "b < 0x80" | "\<not> b < 0x80" "b < 0xB8" | "\<not> b < 0xB8" "b < 0xC0"
    | "\<not> b < 0xC0" "b < 0xF8" | "\<not> b < 0xF8" by blast
  then show ?thesis
  proof cases
    case 1
    then have "s_readKind s = Ret (KByte, 0, None) (s2\<lparr>s_byteval := b\<rparr>)"
      using s1 by (simp add: s_readKind_def s2_def)
    moreover have "moved 1 s (s2\<lparr>s_byteval := b\<rparr>)" using s2(1) by (simp add: moved_def)
    ultimately show ?thesis using 1 assms(2) by (auto simp: kind_res_def head_read_def head_ok_def)
  next
    case 2
    then have "unat (b - 0x80) < 56" by (simp add: unat_minus_tag le)
    then show ?thesis
      using short [of KString "unat (b - 0x80)"] 2 s1 header_short [of b "0x80"]
      by (simp add: s_readKind_def s2_def)
  next
    case 3
    then have "1 \<le> unat (b - 0xB7)" "unat (b - 0xB7) \<le> 8" by (simp_all add: unat_minus_tag le)
    from long_size_spec [OF s2(3) this, of KString] have "kind_res s (long_size KString (unat (b - 0xB7)) s2)"
      using size_spec_kind [OF assms s2(1,2)] header_long by auto
    moreover have "\<not> b < 0x80" using 3 by (simp add: le)
    ultimately show ?thesis using 3 s1 by (simp add: s_readKind_def s2_def)
  next
    case 4
    then have "unat (b - 0xC0) < 56" "\<not> b < 0x80" "\<not> b < 0xB8" by (simp_all add: unat_minus_tag le)
    then show ?thesis
      using short [of KList "unat (b - 0xC0)"] 4 s1 header_short [of b "0xC0"]
      by (simp add: s_readKind_def s2_def)
  next
    case 5
    then have "1 \<le> unat (b - 0xF7)" "unat (b - 0xF7) \<le> 8" "\<not> b < 0x80" "\<not> b < 0xB8" "\<not> b < 0xC0"
      using unat_lt_pow [of b] by (simp_all add: unat_minus_tag le)
    moreover from long_size_spec [OF s2(3) this(1,2), of KList]
    have "kind_res s (long_size KList (unat (b - 0xF7)) s2)"
      using size_spec_kind [OF assms s2(1,2)] header_long by auto
    ultimately show ?thesis using 5 s1 by (simp add: s_readKind_def s2_def)
  qed
qed

lemma head_bytes_ne: "head_bytes k sz x \<noteq> []"
  by (cases k) (simp_all add: header_def)

lemma s_readKind_complete:
  assumes "base s" "window s = head_bytes k sz x @ w" "head_ok k sz x" "sz < 2 ^ 64"
  shows "\<exists>s'. s_readKind s = Ret (k, sz, None) s'"
proof -
  note le = word_le_nat_alt word_less_nat_alt
  obtain b hs where hb: "head_bytes k sz x = b # hs" using head_bytes_ne by (cases "head_bytes k sz x") auto
  then have w: "window s = b # hs @ w" using assms by simp
  obtain s1 where s1: "readByte s = Ret b s1" "moved 1 s s1" using readByte_base(1) [OF assms(1) w] by blast
  define s2 where "s2 = s1\<lparr>s_byteval := 0\<rparr>"
  have s2: "moved 1 s s2" "base s2"
    using s1(2) moved_base [OF s1(2) assms(1)] by (simp_all add: s2_def moved_def base_def cong: list.case_cong)
  have w2: "window s2 = hs @ w" using moved_window [OF s2(1) assms(1)] w by simp
  show ?thesis
  proof (cases k)
    case KByte
    with hb assms(3) s1 show ?thesis by (simp add: s_readKind_def head_ok_def)
  next
    case k: KString
    show ?thesis
    proof (cases "sz < 56")
      case True
      with hb k have "b = 0x80 + word_of_nat sz" by (simp add: header_def)
      with True k s1 show ?thesis
        using unat_tag [of "0x80" sz] by (simp add: s_readKind_def le unat_small)
    next
      case False
      define L where "L = length (nat_bytes sz)"
      have "1 \<le> L" "L \<le> 8" using False assms length_size_bytes [of sz] by (auto simp: L_def)
      moreover from False hb k have "b = 0xB7 + word_of_nat L" "hs = nat_bytes sz" by (auto simp: header_def L_def)
      moreover from this obtain s' where "long_size KString L s2 = Ret (KString, sz, None) s'"
        using long_size_complete [OF s2(2), of sz w KString] False assms w2 by (auto simp: L_def)
      ultimately show ?thesis
        using k s1 unat_tag [of "0xB7" L] by (simp add: s_readKind_def le unat_small s2_def)
    qed
  next
    case k: KList
    show ?thesis
    proof (cases "sz < 56")
      case True
      with hb k have "b = 0xC0 + word_of_nat sz" by (simp add: header_def)
      with True k s1 show ?thesis
        using unat_tag [of "0xC0" sz] by (simp add: s_readKind_def le unat_small)
    next
      case False
      define L where "L = length (nat_bytes sz)"
      have "1 \<le> L" "L \<le> 8" using False assms length_size_bytes [of sz] by (auto simp: L_def)
      moreover from False hb k have "b = 0xF7 + word_of_nat L" "hs = nat_bytes sz" by (auto simp: header_def L_def)
      moreover from this obtain s' where "long_size KList L s2 = Ret (KList, sz, None) s'"
        using long_size_complete [OF s2(2), of sz w KList] False assms w2 by (auto simp: L_def)
      ultimately show ?thesis
        using k s1 unat_tag [of "0xF7" L] by (simp add: s_readKind_def le unat_small s2_def)
    qed
  qed
qed

lemma s_readKind_empty:
  assumes "base s" "room s = 0"
  shows "\<exists>k sz e s'. s_readKind s = Ret (k, sz, Some e) s' \<and> e \<noteq> EOL"
proof -
  obtain e s' where "readByte s = Fail e s'" "e \<noteq> EOL" using readByte_base(2) [OF assms] by blast
  then show ?thesis by (simp add: s_readKind_def)
qed

section \<open>Kind\<close>

text \<open>After \<^verbatim>\<open>Kind\<close> the header of the next value has been read and is remembered.\<close>

definition kinded :: "Stream \<Rightarrow> Kind \<Rightarrow> nat \<Rightarrow> Stream \<Rightarrow> bool" where
  "kinded s k sz s' \<longleftrightarrow> head_read s k sz (s_byteval s') s' \<and> sz \<le> room s' \<and>
     s_kind s' = Some k \<and> s_size s' = sz \<and> s_kinderr s' = None"

definition kind_check :: "Kind \<times> nat \<times> rlp_error option \<Rightarrow> (Kind \<times> nat) dec" where
  "kind_check r s = (case r of (k, n, err) \<Rightarrow>
     (let err = (if err = None \<and> n > room s then Some (if s_stack s = [] then ErrValueTooLarge else ErrElemTooLarge)
                 else err);
          s = s\<lparr>s_kind := Some k, s_size := n, s_kinderr := err\<rparr>
      in case err of None \<Rightarrow> Ret (k, n) s | Some e \<Rightarrow> Fail e s))"

lemma s_readKind_keeps:
  assumes "base s" "s_readKind s = Ret (k, sz, None) s'"
  shows "s_limited s' \<and> s_remaining s' = length (s_input s') \<and> (s_stack s' = [] \<longleftrightarrow> s_stack s = [])"
proof -
  have "kind_res s (s_readKind s)"
    using s_readKind_spec [OF assms(1)] s_readKind_empty [OF assms(1)] length_window [OF assms(1)]
    by (cases "window s") (auto simp: kind_res_def)
  with assms(2) obtain x where "moved (length (head_bytes k sz x)) s s'" by (auto simp: kind_res_def head_read_def)
  then show ?thesis using moved_base [OF _ assms(1)]
    by (cases "s_stack s") (auto simp: base_def moved_def)
qed

lemma s_Kind_ready:
  assumes "ready s" "\<not> at_end s"
  shows "s_Kind s = rbind s_readKind kind_check (s\<lparr>s_kinderr := None\<rparr>)"
proof -
  let ?s = "s\<lparr>s_kinderr := None\<rparr>"
  have b: "base ?s" using assms(1) by (cases "s_stack s") (auto simp: ready_def base_def)
  have top: "\<not> (p = z)" if "s_stack s = (p, z) # st" for p z st
    using that assms by (auto simp: at_end_def room_def ready_def base_def)
  have k: "s_kind s = None" using assms(1) by (simp add: ready_def)
  obtain r where r: "s_readKind ?s = r" by blast
  show ?thesis
  proof (cases r)
    case (Ret x s')
    obtain k sz err where x: "x = (k, sz, err)" by (cases x) auto
    show ?thesis
    proof (cases err)
      case None
      with s_readKind_keeps [OF b] r Ret x have keep: "s_limited s'" "s_remaining s' = length (s_input s')"
        "s_stack s' = [] \<longleftrightarrow> s_stack s = []" by auto
      then show ?thesis
        using k r Ret x None top
        by (cases "s_stack s"; cases "s_stack s'")
          (auto simp: s_Kind_def rbind_def kind_check_def room_def Let_def)
    next
      case (Some e)
      with k r Ret x top show ?thesis
        by (cases "s_stack s") (auto simp: s_Kind_def rbind_def kind_check_def Let_def)
    qed
  qed (use k r top in \<open>cases "s_stack s"; auto simp: s_Kind_def rbind_def Let_def\<close>)+
qed

lemma s_Kind_spec:
  assumes "ready s"
  shows "at_end s \<Longrightarrow> \<exists>s'. s_Kind s = Fail EOL s' \<and> moved 0 s s' \<and> s_kind s' = None"
    and "\<not> at_end s \<Longrightarrow> (\<exists>k sz s'. s_Kind s = Ret (k, sz) s' \<and> kinded s k sz s') \<or>
      (\<exists>e s'. s_Kind s = Fail e s' \<and> e \<noteq> EOL)"
proof -
  assume "at_end s"
  then obtain p z st where st: "s_stack s = (p, z) # st" and "z - p = 0"
    by (cases "s_stack s") (auto simp: at_end_def room_def)
  with assms have "p = z" by (simp add: ready_def base_def)
  with st assms have "s_Kind s = Fail EOL (s\<lparr>s_kinderr := None\<rparr>)" by (simp add: s_Kind_def ready_def)
  moreover have "moved 0 s (s\<lparr>s_kinderr := None\<rparr>)" using assms by (intro moved_0) (simp_all add: ready_def)
  ultimately show "\<exists>s'. s_Kind s = Fail EOL s' \<and> moved 0 s s' \<and> s_kind s' = None"
    using assms by (simp add: ready_def)
next
  assume ne: "\<not> at_end s"
  let ?s = "s\<lparr>s_kinderr := None\<rparr>"
  have b: "base ?s" using assms by (cases "s_stack s") (auto simp: ready_def base_def)
  have "kind_res ?s (s_readKind ?s)"
    using s_readKind_spec [OF b] s_readKind_empty [OF b] length_window [OF b]
    by (cases "window ?s") (auto simp: kind_res_def)
  then consider k sz x s' where "s_readKind ?s = Ret (k, sz, None) s'" "head_read ?s k sz x s'"
    | k sz e s' where "s_readKind ?s = Ret (k, sz, Some e) s'" "e \<noteq> EOL"
    by (auto simp: kind_res_def)
  then show "(\<exists>k sz s'. s_Kind s = Ret (k, sz) s' \<and> kinded s k sz s') \<or> (\<exists>e s'. s_Kind s = Fail e s' \<and> e \<noteq> EOL)"
  proof cases
    case 1
    show ?thesis
    proof (cases "sz \<le> room s'")
      case True
      let ?s' = "s'\<lparr>s_kind := Some k, s_size := sz, s_kinderr := None\<rparr>"
      have "s_Kind s = Ret (k, sz) ?s'"
        using s_Kind_ready [OF assms ne] 1 True by (simp add: rbind_def kind_check_def)
      moreover have "head_read s k sz (s_byteval ?s') ?s'"
        using 1(2) by (auto simp: head_read_def)
      ultimately show ?thesis using True by (auto simp: kinded_def)
    next
      case False
      then show ?thesis
        using s_Kind_ready [OF assms ne] 1 by (simp add: rbind_def kind_check_def)
    qed
  next
    case 2
    then show ?thesis
      using s_Kind_ready [OF assms ne] by (simp add: rbind_def kind_check_def)
  qed
qed

lemma s_Kind_complete:
  assumes "ready s" "window s = head_bytes k sz x @ w" "head_ok k sz x" "sz \<le> length w"
  shows "\<exists>s'. s_Kind s = Ret (k, sz) s' \<and> kinded s k sz s' \<and> s_byteval s' = x"
proof -
  let ?s = "s\<lparr>s_kinderr := None\<rparr>"
  have b: "base ?s" "base s" using assms by (cases "s_stack s"; auto simp: ready_def base_def)+
  have r: "room s = length (head_bytes k sz x) + length w" using length_window [OF b(2)] assms(2) by simp
  then have ne: "\<not> at_end s" using head_bytes_ne by (simp add: at_end_def)
  have "room s \<le> max_alloc" using b(2) by (auto simp: base_def room_def split: list.splits)
  then have "sz < 2 ^ 64" using r assms(4) by (simp add: max_alloc_def)
  then obtain s' where s': "s_readKind ?s = Ret (k, sz, None) s'"
    using s_readKind_complete [OF b(1) _ assms(3)] assms(2) by auto
  obtain x' where x': "head_read ?s k sz x' s'"
    using s_readKind_spec [OF b(1)] s' assms(2) head_bytes_ne [of k sz x]
    by (cases "head_bytes k sz x") (auto simp: kind_res_def)
  have eq: "x' = x"
    using x' assms(2,3) by (cases k) (auto simp: head_read_def head_ok_def)
  have "room s' = length w"
    using x' r moved_room [OF _ b(1)] by (auto simp: head_read_def eq)
  then have "s_Kind s = Ret (k, sz) (s'\<lparr>s_kind := Some k, s_size := sz, s_kinderr := None\<rparr>)"
    using s_Kind_ready [OF assms(1) ne] s' assms(4) by (simp add: rbind_def kind_check_def)
  moreover have "s_byteval s' = x" using x' eq by (simp add: head_read_def)
  ultimately show ?thesis
    using s_Kind_spec(2) [OF assms(1) ne] by auto
qed

lemma s_Kind_again: "kinded s k sz s' \<Longrightarrow> s_Kind s' = Ret (k, sz) s'"
  by (simp add: kinded_def s_Kind_def)

section \<open>Exact decoders\<close>

definition returns :: "'a dec \<Rightarrow> ('a \<Rightarrow> bytes) \<Rightarrow> ('a \<Rightarrow> bool) \<Rightarrow> Stream \<Rightarrow> bool" where
  "returns m enc ok s \<longleftrightarrow> (\<exists>v s' w. m s = Ret v s' \<and> ok v \<and> window s = enc v @ w \<and>
     moved (length (enc v)) s s' \<and> s_kind s' = None)"

definition fails :: "'a dec \<Rightarrow> Stream \<Rightarrow> bool" where
  "fails m s \<longleftrightarrow> (\<exists>e s'. m s = Fail e s' \<and> e \<noteq> EOL)"

definition ends :: "'a dec \<Rightarrow> Stream \<Rightarrow> bool" where
  "ends m s \<longleftrightarrow> (\<exists>s'. m s = Fail EOL s' \<and> moved 0 s s' \<and> s_kind s' = None)"

definition exact :: "nat \<Rightarrow> 'a dec \<Rightarrow> ('a \<Rightarrow> bytes) \<Rightarrow> ('a \<Rightarrow> bool) \<Rightarrow> bool" where
  "exact R m enc ok \<longleftrightarrow> (\<forall>s. ready s \<longrightarrow> room s \<le> R \<longrightarrow>
     (at_end s \<longrightarrow> ends m s) \<and>
     (\<not> at_end s \<longrightarrow> returns m enc ok s \<or> fails m s) \<and>
     (\<forall>v w. ok v \<longrightarrow> window s = enc v @ w \<longrightarrow> (\<exists>s'. m s = Ret v s')))"

lemma exactI:
  assumes "\<And>s. ready s \<Longrightarrow> room s \<le> R \<Longrightarrow> at_end s \<Longrightarrow> ends m s"
    "\<And>s. ready s \<Longrightarrow> room s \<le> R \<Longrightarrow> \<not> at_end s \<Longrightarrow> returns m enc ok s \<or> fails m s"
    "\<And>s v w. ready s \<Longrightarrow> room s \<le> R \<Longrightarrow> ok v \<Longrightarrow> window s = enc v @ w \<Longrightarrow> \<exists>s'. m s = Ret v s'"
  shows "exact R m enc ok"
  using assms unfolding exact_def by blast

lemma exactD:
  assumes "exact R m enc ok" "ready s" "room s \<le> R"
  shows "at_end s \<Longrightarrow> ends m s" "\<not> at_end s \<Longrightarrow> returns m enc ok s \<or> fails m s"
    "ok v \<Longrightarrow> window s = enc v @ w \<Longrightarrow> \<exists>s'. m s = Ret v s'"
  using assms unfolding exact_def by blast+

lemma exact_mono: "exact R m enc ok \<Longrightarrow> R' \<le> R \<Longrightarrow> exact R' m enc ok"
  by (auto simp: exact_def)

lemma wrapStreamError_EOL [simp]: "wrapStreamError e = EOL \<longleftrightarrow> e = EOL"
  by (cases e) (auto simp: wrapStreamError_def)

lemma exact_wrap:
  assumes "exact R m enc ok"
  shows "exact R (wrap m) enc ok"
  using assms unfolding exact_def ends_def returns_def fails_def wrap_def
  by (simp; fastforce split: run.splits)

text \<open>Postprocessing the value, possibly with an error.\<close>

lemma exact_bind:
  assumes "exact R m enc ok"
    "\<And>x s. ok x \<Longrightarrow> (\<exists>y. f x s = Ret y s \<and> ok' y \<and> enc' y = enc x) \<or> (\<exists>e. f x s = Fail e s \<and> e \<noteq> EOL)"
    "\<And>y. ok' y \<Longrightarrow> \<exists>x. ok x \<and> enc x = enc' y \<and> (\<forall>s. f x s = Ret y s)"
  shows "exact R (rbind m f) enc' ok'"
proof (rule exactI)
  fix s
  assume s: "ready s" "room s \<le> R"
  show "at_end s \<Longrightarrow> ends (rbind m f) s"
    using exactD(1) [OF assms(1) s] by (auto simp: ends_def rbind_def)
  show "\<not> at_end s \<Longrightarrow> returns (rbind m f) enc' ok' s \<or> fails (rbind m f) s"
    using exactD(2) [OF assms(1) s] assms(2) by (fastforce simp: returns_def fails_def rbind_def)
  fix v w
  assume v: "ok' v" "window s = enc' v @ w"
  obtain x where "ok x" "enc x = enc' v" "\<And>s. f x s = Ret v s" using assms(3) [OF v(1)] by blast
  then show "\<exists>s'. rbind m f s = Ret v s'" using exactD(3) [OF assms(1) s, of x w] v by (auto simp: rbind_def)
qed

lemma exact_map:
  assumes "exact R m enc ok" "\<And>x. ok x \<Longrightarrow> ok' (f x) \<and> enc' (f x) = enc x" "\<And>y. ok' y \<Longrightarrow> \<exists>x. ok x \<and> y = f x"
  shows "exact R (rbind m (\<lambda>x. ret (f x))) enc' ok'"
  by (rule exact_bind [OF assms(1)]) (use assms(2,3) in \<open>fastforce simp: ret_def\<close>)+

lemma kindedD:
  assumes "kinded s k sz s'" "base s"
  shows "window s = head_bytes k sz (s_byteval s') @ window s'" "moved (length (head_bytes k sz (s_byteval s'))) s s'"
    "base s'" "sz \<le> room s'" "head_ok k sz (s_byteval s')" "room s' \<le> max_alloc" "room s' < room s"
proof -
  obtain w where w: "window s = head_bytes k sz (s_byteval s') @ w"
    and m: "moved (length (head_bytes k sz (s_byteval s'))) s s'"
    and "sz \<le> room s'" "head_ok k sz (s_byteval s')"
    using assms(1) by (auto simp: kinded_def head_read_def)
  moreover show "window s = head_bytes k sz (s_byteval s') @ window s'"
    using w moved_window [OF m assms(2)] by simp
  moreover show "base s'" using moved_base [OF m assms(2)] .
  moreover from this show "room s' \<le> max_alloc" by (auto simp: base_def room_def split: list.splits)
  moreover show "room s' < room s"
    using moved_room [OF m assms(2)] m head_bytes_ne [of k sz "s_byteval s'"]
    by (cases "head_bytes k sz (s_byteval s')") (auto simp: moved_def)
  ultimately show "moved (length (head_bytes k sz (s_byteval s'))) s s'" "sz \<le> room s'" "head_ok k sz (s_byteval s')"
    by blast+
qed

text \<open>An operation that starts with \<^verbatim>\<open>Kind\<close>.\<close>

lemma exact_Kind:
  assumes "\<And>s k sz s'. ready s \<Longrightarrow> room s \<le> R \<Longrightarrow> kinded s k sz s' \<Longrightarrow>
      (\<exists>v s2. f (k, sz) s' = Ret v s2 \<and> ok v \<and> (\<exists>w. window s = enc v @ w) \<and> moved (length (enc v)) s s2 \<and> s_kind s2 = None) \<or>
      (\<exists>e s2. f (k, sz) s' = Fail e s2 \<and> e \<noteq> EOL)"
    "\<And>s v w. ready s \<Longrightarrow> room s \<le> R \<Longrightarrow> ok v \<Longrightarrow> window s = enc v @ w \<Longrightarrow>
      \<exists>k sz x w'. window s = head_bytes k sz x @ w' \<and> head_ok k sz x \<and> sz \<le> length w' \<and>
        (\<forall>s'. kinded s k sz s' \<longrightarrow> s_byteval s' = x \<longrightarrow> (\<exists>s2. f (k, sz) s' = Ret v s2))"
  shows "exact R (rbind s_Kind f) enc ok"
proof (rule exactI)
  fix s
  assume s: "ready s" "room s \<le> R"
  show "at_end s \<Longrightarrow> ends (rbind s_Kind f) s"
    using s_Kind_spec(1) [OF s(1)] by (auto simp: ends_def rbind_def)
  show "returns (rbind s_Kind f) enc ok s \<or> fails (rbind s_Kind f) s" if ne: "\<not> at_end s"
  proof -
    consider k sz s' where "s_Kind s = Ret (k, sz) s'" "kinded s k sz s'"
      | e s' where "s_Kind s = Fail e s'" "e \<noteq> EOL"
      using s_Kind_spec(2) [OF s(1) ne] by blast
    then show ?thesis
    proof cases
      case 1
      then have "rbind s_Kind f s = f (k, sz) s'" by (simp add: rbind_def)
      with assms(1) [OF s 1(2)] show ?thesis unfolding returns_def fails_def by metis
    qed (auto simp: fails_def rbind_def)
  qed
  fix v w
  assume v: "ok v" "window s = enc v @ w"
  obtain k sz x w' where "window s = head_bytes k sz x @ w'" "head_ok k sz x" "sz \<le> length w'"
    and f: "\<And>s'. kinded s k sz s' \<Longrightarrow> s_byteval s' = x \<Longrightarrow> \<exists>s2. f (k, sz) s' = Ret v s2"
    using assms(2) [OF s v] by metis
  then obtain s' where "s_Kind s = Ret (k, sz) s'" "kinded s k sz s'" "s_byteval s' = x"
    using s_Kind_complete [OF s(1)] by blast
  with f show "\<exists>s'. rbind s_Kind f s = Ret v s'" by (auto simp: rbind_def)
qed

section \<open>Strings and numbers\<close>

definition single :: "bytes \<Rightarrow> bool" where
  "single b \<longleftrightarrow> length b = 1 \<and> hd b < 0x80"

lemma enc_string_single: "single b \<Longrightarrow> enc_string b = b"
  and enc_string_header: "\<not> single b \<Longrightarrow> enc_string b = header 0x80 0xB7 (length b) @ b"
  by (auto simp: enc_string_def single_def)

text \<open>The header of an encoded string.\<close>

lemma string_head:
  assumes "window s = enc_string b @ w"
  shows "if single b then window s = head_bytes KByte 0 (hd b) @ w \<and> head_ok KByte 0 (hd b)
    else window s = head_bytes KString (length b) 0 @ b @ w \<and> head_ok KString (length b) 0"
  using assms by (auto simp: enc_string_single enc_string_header head_ok_def single_def length_Suc_conv)

text \<open>Reading the content of a string whose header has been read.\<close>

lemma content_read:
  assumes "base s" "kinded s KString sz s'"
  obtains t w s2 where "readFull sz s' = Ret t s2" "s_kind s2 = None" "length t = sz"
    "window s = header 0x80 0xB7 sz @ t @ w" "moved (length (header 0x80 0xB7 sz) + sz) s s2" "\<not> max_alloc < sz"
proof -
  note k = kindedD [OF assms(2,1)]
  obtain s2 where s2: "readFull sz s' = Ret (take sz (window s')) s2" "moved sz s' s2" "s_kind s2 = None"
    using readFull_base(1) [OF k(3,4)] by blast
  have "moved (length (header 0x80 0xB7 sz) + sz) s s2"
    using moved_trans [OF k(2) assms(1) s2(2)] by simp
  moreover have "window s = header 0x80 0xB7 sz @ take sz (window s') @ drop sz (window s')" using k(1) by simp
  moreover have "length (take sz (window s')) = sz" "\<not> max_alloc < sz" using k by auto
  ultimately show ?thesis using that s2 by blast
qed

lemma Bytes_exact: "exact R s_Bytes enc_string (\<lambda>_. True)"
  unfolding s_Bytes_def
proof (rule exact_Kind, goal_cases)
  case (1 s k sz s')
  note b = base_readyI [OF 1(1)]
  note k = kindedD [OF 1(3) b]
  show ?case
  proof (cases k)
    case KByte
    moreover have "enc_string [s_byteval s'] = [s_byteval s']"
      using KByte k(5) by (simp add: enc_string_single single_def head_ok_def)
    ultimately show ?thesis using k(1,2) by (intro disjI1) (simp add: rearm_def)
  next
    case KString
    obtain t w s2 where s2: "readFull sz s' = Ret t s2" "s_kind s2 = None" "length t = sz"
      "window s = header 0x80 0xB7 sz @ t @ w" "moved (length (header 0x80 0xB7 sz) + sz) s s2" "\<not> max_alloc < sz"
      by (rule content_read [OF b 1(3) [unfolded KString]])
    show ?thesis
    proof (cases "single t")
      case True
      then show ?thesis using KString s2 by (auto simp: rbind_def fail_def single_def)
    next
      case False
      then show ?thesis
        using KString s2 enc_string_header [OF False]
        by (intro disjI1 exI [of _ t] exI [of _ s2]) (auto simp: rbind_def ret_def single_def)
    qed
  qed simp
next
  case (2 s v w)
  note b = base_readyI [OF 2(1)]
  show ?case
  proof (cases "single v")
    case True
    then have "[hd v] = v" by (cases v) (auto simp: single_def)
    then show ?thesis
      using string_head [OF 2(4)] True
      by (intro exI [of _ KByte] exI [of _ 0] exI [of _ "hd v"] exI [of _ w]) simp
  next
    case False
    have h: "window s = head_bytes KString (length v) 0 @ v @ w" "head_ok KString (length v) 0"
      using string_head [OF 2(4)] False by auto
    have "\<exists>s2. (if max_alloc < length v then Panic
        else rbind (readFull (length v)) (\<lambda>b. if length v = 1 \<and> hd b < 128 then fail ErrCanonSize else ret b) s') = Ret v s2"
      if k: "kinded s KString (length v) s'" for s'
    proof -
      obtain t w' s2 where s2: "readFull (length v) s' = Ret t s2" "s_kind s2 = None" "length t = length v"
        "window s = header 0x80 0xB7 (length v) @ t @ w'"
        "moved (length (header 0x80 0xB7 (length v)) + length v) s s2" "\<not> max_alloc < length v"
        by (rule content_read [OF b k])
      have "t @ w' = v @ w" using s2(4) unfolding h(1) head_bytes.simps by simp
      then have "t = v" using s2(3) append_eq_append_conv by blast
      then show ?thesis using s2 False by (auto simp: rbind_def ret_def single_def)
    qed
    then show ?thesis
      using h by (intro exI [of _ KString] exI [of _ "length v"] exI [of _ 0] exI [of _ "v @ w"]) simp
  qed
qed

lemma big_SetBytes_single [simp]: "big_SetBytes [b] = uint b"
  using big_SetBytes_Cons [of b "[]"] by simp

lemma nat_bytes_unat_single: "x \<noteq> 0 \<Longrightarrow> nat_bytes (unat (x :: byte)) = [x]"
  using nat_bytes_single [of "unat x"] unat_lt_pow [of x] by (simp add: unat_gt_0)

lemma single_nat_bytes: "single (nat_bytes n) \<longleftrightarrow> 0 < n \<and> n < 128"
proof (cases "0 < n \<and> n < 256")
  case True
  then have "nat_bytes n = [word_of_nat n]" by (simp add: nat_bytes_single)
  then show ?thesis using True by (simp add: single_def word_less_nat_alt unat_small)
next
  case False
  then have "length (nat_bytes n) \<noteq> 1" using length_nat_bytes_eq_1 [of n] by simp
  with False show ?thesis by (auto simp: single_def)
qed

lemma nat_bytes_read:
  assumes "length t = 1 \<or> hd t \<noteq> 0" "128 \<le> nat (big_SetBytes t)"
  shows "nat_bytes (nat (big_SetBytes t)) = t" "\<not> single t"
proof -
  have "t \<noteq> []" using assms(2) by auto
  have "hd t \<noteq> 0"
    using assms by (cases t; cases "tl t") auto
  then show n: "nat_bytes (nat (big_SetBytes t)) = t" by (simp add: nat_bytes_SetBytes)
  show "\<not> single t" using single_nat_bytes [of "nat (big_SetBytes t)"] assms(2) n by simp
qed

lemma uint_exact:
  assumes "bits \<in> {8, 16, 32, 64}"
  shows "exact R (s_uint bits) (\<lambda>n. enc_string (nat_bytes n)) (\<lambda>n. n < 2 ^ bits)"
  unfolding s_uint_def
proof (rule exact_Kind, goal_cases)
  case (1 s k sz s')
  note b = base_readyI [OF 1(1)]
  note k = kindedD [OF 1(3) b]
  have bits: "2 ^ 8 \<le> (2::nat) ^ bits" using assms by (intro power_increasing) auto
  show ?case
  proof (cases k)
    case KByte
    show ?thesis
    proof (cases "s_byteval s' = 0")
      case False
      let ?n = "unat (s_byteval s')"
      have "enc_string (nat_bytes ?n) = [s_byteval s']"
        using False KByte k(5) by (simp add: nat_bytes_unat_single enc_string_single single_def head_ok_def)
      moreover have "?n < 2 ^ bits" using unat_lt_pow [of "s_byteval s'"] bits by simp
      ultimately show ?thesis using KByte False k(1,2) by (intro disjI1) (simp add: rearm_def)
    qed (use KByte in simp)
  next
    case KString
    show ?thesis
    proof (cases "sz = 0")
      case True
      then have "moved 1 s (rearm s')" using k(2) KString by (simp add: rearm_def header_def)
      moreover have "window s = enc_string (nat_bytes 0) @ window s'"
        using k(1) KString True by (simp add: header_def)
      ultimately show ?thesis
        using KString True by (intro disjI1 exI [of _ 0] exI [of _ "rearm s'"]) (auto simp: readUint_def rearm_def)
    next
      case sz: False
      show ?thesis
      proof (cases "sz \<le> bits div 8")
        case True
        then have sz8: "1 \<le> sz" "sz \<le> 8" using sz assms by auto
        note u = readUint_base [OF k(3) sz8]
        define t where "t = take sz (window s')"
        have t: "length t = sz" "window s' = t @ drop sz (window s')" using k(3,4) by (auto simp: t_def)
        show ?thesis
        proof (cases "sz = 1 \<or> hd (window s') \<noteq> 0")
          case ok: True
          then obtain s2 where s2: "readUint sz s' = Ret (nat (big_SetBytes t)) s2" "moved sz s' s2" "s_kind s2 = None"
            using u k(4) by (auto simp: uint_spec_def t_def)
          show ?thesis
          proof (cases "nat (big_SetBytes t) < 128")
            case False
            have "hd t = hd (window s')" using t sz by (metis hd_append2 length_0_conv)
            then have n: "nat_bytes (nat (big_SetBytes t)) = t" "\<not> single t"
              using nat_bytes_read [of t] ok t False by auto
            have "big_SetBytes t < 256 ^ sz" using big_SetBytes_less [of t] t by simp
            also have "\<dots> = 2 ^ (8 * sz)" by (simp add: power_mult)
            also have "\<dots> \<le> 2 ^ bits" using True by (intro power_increasing) auto
            finally have lt: "nat (big_SetBytes t) < 2 ^ bits" by (simp add: nat_less_iff)
            have "moved (length (enc_string t)) s s2"
              using moved_trans [OF k(2) b s2(2)] enc_string_header [OF n(2)] t KString by simp
            moreover have "\<exists>w. window s = enc_string t @ w"
              using k(1) t(2) enc_string_header [OF n(2)] t(1) KString by auto
            ultimately show ?thesis
              using KString True False sz s2 lt n(1)
              by (intro disjI1 exI [of _ "nat (big_SetBytes t)"] exI [of _ s2]) simp
          qed (use KString True sz s2 in simp)
        next
          case False
          then obtain e s2 where "readUint sz s' = Fail e s2" "e \<noteq> EOL"
            using u by (auto simp: uint_spec_def)
          then show ?thesis using KString True by simp
        qed
      qed (use KString in simp)
    qed
  qed simp
next
  case (2 s n w)
  note b = base_readyI [OF 2(1)]
  define t where "t = nat_bytes n"
  have w: "window s = enc_string t @ w" using 2 by (simp add: t_def)
  have n: "nat (big_SetBytes t) = n" by (simp add: t_def)
  show ?case
  proof (cases "single t")
    case True
    then have "0 < n" "n < 128" using single_nat_bytes [of n] by (auto simp: t_def)
    then have h: "hd t = word_of_nat n" by (simp add: t_def nat_bytes_single)
    then have "hd t \<noteq> 0" "unat (hd t) = n"
      using \<open>0 < n\<close> \<open>n < 128\<close> unat_small [of n] by (auto simp: word_unat_eq_iff)
    then show ?thesis
      using string_head [OF w] True
      by (intro exI [of _ KByte] exI [of _ 0] exI [of _ "hd t"] exI [of _ w]) simp
  next
    case False
    have h: "window s = head_bytes KString (length t) 0 @ t @ w" "head_ok KString (length t) 0"
      using string_head [OF w] False by auto
    have "t \<noteq> [] \<Longrightarrow> 128 \<le> n" using False single_nat_bytes [of n] nat_bytes_eq_Nil [of n] by (auto simp: t_def)
    have "n < 256 ^ (bits div 8)"
      using 2(3) assms by auto
    then have len: "length t \<le> bits div 8" unfolding t_def by (rule length_nat_bytes_le)
    have "\<exists>s2. readUint (length t) s' = Ret n s2" if k: "kinded s KString (length t) s'" for s'
    proof (cases "t = []")
      case True
      then show ?thesis using n by (simp add: readUint_def)
    next
      case ne: False
      note k = kindedD [OF k b]
      have l: "1 \<le> length t" "length t \<le> 8" using ne len assms by (auto simp: Suc_le_eq)
      have "header 0x80 0xB7 (length t) @ window s' = header 0x80 0xB7 (length t) @ t @ w"
        using k(1) h(1) by (metis head_bytes.simps(2))
      then have w': "window s' = t @ w" by simp
      moreover have "hd t \<noteq> 0" using ne nat_bytes_hd [of n] nat_bytes_eq_Nil [of n] by (simp add: t_def)
      ultimately show ?thesis
        using readUint_base [OF k(3) l] k(4) n ne by (auto simp: uint_spec_def)
    qed
    then show ?thesis
      using h len \<open>t \<noteq> [] \<Longrightarrow> 128 \<le> n\<close>
      by (intro exI [of _ KString] exI [of _ "length t"] exI [of _ 0] exI [of _ "t @ w"]) fastforce
  qed
qed

lemma Bool_exact: "exact R s_Bool (\<lambda>b. enc_string (if b then [1] else [])) (\<lambda>_. True)"
  unfolding s_Bool_def
proof (rule exact_bind [OF uint_exact], goal_cases)
  case (2 x s)
  have "nat_bytes 1 = [1]" using nat_bytes_single [of 1] by simp
  then show ?case by (auto simp: ret_def fail_def)
next
  case (3 b)
  have "nat_bytes 1 = [1]" using nat_bytes_single [of 1] by simp
  then show ?case by (intro exI [of _ "if b then 1 else 0"]) (auto simp: ret_def)
qed simp

lemma ByteArray_exact:
  assumes "vlen \<noteq> 1"
  shows "exact R (decodeByteArray vlen) encoding (\<lambda>v. \<exists>b. v = GBytes b \<and> length b = vlen)"
  unfolding decodeByteArray_def
proof (rule exact_Kind, goal_cases)
  case (1 s k sz s')
  note b = base_readyI [OF 1(1)]
  show ?case
  proof (cases k)
    case KString
    show ?thesis
    proof (cases "vlen = sz")
      case True
      obtain t w s2 where s2: "readFull sz s' = Ret t s2" "s_kind s2 = None" "length t = sz"
        "window s = header 0x80 0xB7 sz @ t @ w" "moved (length (header 0x80 0xB7 sz) + sz) s s2" "\<not> max_alloc < sz"
        by (rule content_read [OF b 1(3) [unfolded KString]])
      have "\<not> single t" using assms True s2(3) by (simp add: single_def)
      with s2 True assms KString show ?thesis
        using enc_string_header [of t]
        by (intro disjI1 exI [of _ "GBytes t"] exI [of _ s2]) (auto simp: rbind_def ret_def)
    qed (use KString in auto)
  qed (use assms in \<open>auto simp: wrap_def fail_def\<close>)
next
  case (2 s v w)
  note b = base_readyI [OF 2(1)]
  obtain t where v: "v = GBytes t" "length t = vlen" using 2(3) by blast
  then have w: "window s = enc_string t @ w" and ns: "\<not> single t" using 2(4) assms by (auto simp: single_def)
  have h: "window s = head_bytes KString (length t) 0 @ t @ w" "head_ok KString (length t) 0"
    using string_head [OF w] ns by auto
  have "\<exists>s2. rbind (readFull vlen) (\<lambda>b. if vlen = 1 \<and> hd b < 128 then wrap (fail ErrCanonSize) else ret (GBytes b)) s' = Ret v s2"
    if k: "kinded s KString (length t) s'" for s'
  proof -
    obtain t' w' s2 where s2: "readFull (length t) s' = Ret t' s2" "s_kind s2 = None" "length t' = length t"
      "window s = header 0x80 0xB7 (length t) @ t' @ w'"
      "moved (length (header 0x80 0xB7 (length t)) + length t) s s2" "\<not> max_alloc < length t"
      by (rule content_read [OF b k])
    have "t' @ w' = t @ w" using s2(4) unfolding h(1) head_bytes.simps by simp
    then have "t' = t" using s2(3) append_eq_append_conv by blast
    then show ?thesis using s2(1) v assms by (simp add: rbind_def ret_def)
  qed
  then show ?case
    using h v by (intro exI [of _ KString] exI [of _ "length t"] exI [of _ 0] exI [of _ "t @ w"]) simp
qed

section \<open>Lists\<close>

text \<open>What the decoder of the content of a list has to do: it stays inside the list, and reads all of it if it can.\<close>

definition reads_content :: "nat \<Rightarrow> 'a dec \<Rightarrow> ('a \<Rightarrow> bytes) \<Rightarrow> ('a \<Rightarrow> bool) \<Rightarrow> bool" where
  "reads_content sz m enc ok \<longleftrightarrow> (\<forall>s. ready s \<longrightarrow> s_stack s \<noteq> [] \<longrightarrow> room s = sz \<longrightarrow>
     (returns m enc ok s \<or> fails m s) \<and> (\<forall>v. ok v \<longrightarrow> window s = enc v \<longrightarrow> (\<exists>s'. m s = Ret v s')))"

text \<open>The list opened after \<^verbatim>\<open>Kind\<close>, and closed after reading \<open>l\<close> bytes of it.\<close>

definition opened :: "Stream \<Rightarrow> nat \<Rightarrow> Stream" where
  "opened s sz = s\<lparr>s_stack := (0, sz) # s_stack s, s_kind := None, s_size := 0\<rparr>"

lemma opened_ready:
  assumes "base s" "sz \<le> room s"
  shows "ready (opened s sz)" "room (opened s sz) = sz" "window (opened s sz) = take sz (window s)" "s_stack (opened s sz) \<noteq> []"
proof -
  have "sz \<le> length (s_input s)" using assms by (auto simp: base_def room_def split: list.splits)
  then show "ready (opened s sz)" using assms(1) by (simp add: opened_def ready_def base_def)
  show "room (opened s sz) = sz" by (simp add: opened_def room_def)
  then show "window (opened s sz) = take sz (window s)" using assms(2) by (simp add: window_def opened_def min_def)
qed (simp add: opened_def)

lemma ListEnd_opened:
  assumes "base s" "sz \<le> room s" "moved l (opened s sz) s2"
  shows "if l = sz then \<exists>s3. s_ListEnd s2 = Ret () s3 \<and> moved sz s s3 \<and> s_kind s3 = None
    else \<exists>s3. s_ListEnd s2 = Fail errNotAtEOL s3"
  using assms
  by (cases "s_stack s") (auto simp: s_ListEnd_def moved_def opened_def room_def base_def)

lemma list_content:
  assumes "base s" "kinded s KList sz s'" "reads_content sz m enc ok" "E = s_ListEnd \<or> E = wrap s_ListEnd"
  shows "(\<exists>v s2 w. rbind m (\<lambda>v. rbind E (\<lambda>_. ret (f v))) (opened s' sz) = Ret (f v) s2 \<and> ok v \<and>
       window s = enc_list (enc v) @ w \<and> moved (length (enc_list (enc v))) s s2 \<and> s_kind s2 = None) \<or>
     fails (rbind m (\<lambda>v. rbind E (\<lambda>_. ret (f v)))) (opened s' sz)" (is "?A \<or> fails ?D _")
    and "ok v \<Longrightarrow> window s = enc_list (enc v) @ w \<Longrightarrow> length (enc v) = sz \<Longrightarrow>
     \<exists>s2. rbind m (\<lambda>v. rbind E (\<lambda>_. ret (f v))) (opened s' sz) = Ret (f v) s2"
proof -
  note k = kindedD [OF assms(2,1)]
  note o = opened_ready [OF k(3,4)]
  have m: "returns m enc ok (opened s' sz) \<or> fails m (opened s' sz)"
    "ok v \<Longrightarrow> window (opened s' sz) = enc v \<Longrightarrow> \<exists>s2. m (opened s' sz) = Ret v s2" for v
    using assms(3) o unfolding reads_content_def by blast+
  have E: "E s2 = Ret () s3" if "s_ListEnd s2 = Ret () s3" for s2 s3 using that assms(4) by (auto simp: wrap_def)
  have E': "\<exists>e. E s2 = Fail e s3 \<and> e \<noteq> EOL" if "s_ListEnd s2 = Fail errNotAtEOL s3" for s2 s3
    using that assms(4) by (auto simp: wrap_def)
  have ok_end: "\<exists>s3. ?D (opened s' sz) = Ret (f v) s3 \<and> moved (length (header 0xC0 0xF7 sz) + sz) s s3 \<and> s_kind s3 = None"
    if r: "m (opened s' sz) = Ret v s2" "moved sz (opened s' sz) s2" for v s2
  proof -
    obtain s3 where s3: "s_ListEnd s2 = Ret () s3" "moved sz s' s3" "s_kind s3 = None"
      using ListEnd_opened [OF k(3,4) r(2)] by auto
    then show ?thesis using r(1) E [OF s3(1)] moved_trans [OF k(2) assms(1) s3(2)] by (simp add: rbind_def ret_def)
  qed
  show "?A \<or> fails ?D (opened s' sz)"
  proof (cases "returns m enc ok (opened s' sz)")
    case True
    then obtain v s2 w where v: "m (opened s' sz) = Ret v s2" "ok v" "take sz (window s') = enc v @ w"
      "moved (length (enc v)) (opened s' sz) s2"
      unfolding returns_def o(3) by blast
    show ?thesis
    proof (cases "length (enc v) = sz")
      case True
      have "length (take sz (window s')) = sz" using k by simp
      with True v(3) have "take sz (window s') = enc v" by simp
      then have "window s = enc_list (enc v) @ drop sz (window s')"
        using k(1) True by (metis append.assoc append_take_drop_id enc_list_def head_bytes.simps(3))
      moreover have "length (enc_list (enc v)) = length (header 0xC0 0xF7 sz) + sz" using True by (simp add: enc_list_def)
      ultimately show ?thesis using ok_end [OF v(1)] v(2,4) True by metis
    next
      case False
      then obtain s3 where "s_ListEnd s2 = Fail errNotAtEOL s3"
        using ListEnd_opened [OF k(3,4) v(4)] by auto
      with E' v(1) show ?thesis by (fastforce simp: fails_def rbind_def)
    qed
  next
    case False
    with m show ?thesis by (fastforce simp: fails_def rbind_def)
  qed
  assume v: "ok v" "window s = enc_list (enc v) @ w" "length (enc v) = sz"
  have "header 0xC0 0xF7 sz @ window s' = header 0xC0 0xF7 sz @ enc v @ w"
    using k(1) v(2,3) by (metis append.assoc enc_list_def head_bytes.simps(3))
  then have w': "window (opened s' sz) = enc v" using o(3) v(3) by simp
  then obtain s2 where s2: "m (opened s' sz) = Ret v s2" using m(2) [OF v(1)] by blast
  then have "moved (length (enc v)) (opened s' sz) s2" using m(1) by (auto simp: returns_def fails_def)
  with ok_end [OF s2] v(3) show "\<exists>s2. ?D (opened s' sz) = Ret (f v) s2" by auto
qed

lemma framed_exact:
  assumes "\<And>sz. sz < R \<Longrightarrow> reads_content sz (m sz) enc ok" "E = s_ListEnd \<or> E = wrap s_ListEnd"
    "\<And>v. ok v \<Longrightarrow> ok' (f v) \<and> enc' (f v) = enc_list (enc v)" "\<And>x. ok' x \<Longrightarrow> \<exists>v. ok v \<and> x = f v"
  shows "exact R (rbind (wrap s_List) (\<lambda>sz. rbind (m sz) (\<lambda>v. rbind E (\<lambda>_. ret (f v))))) enc' ok'" (is "exact R ?D _ _")
proof (rule exactI)
  fix s
  assume s: "ready s" "room s \<le> R"
  note b = base_readyI [OF s(1)]
  have D: "?D s = rbind (m sz) (\<lambda>v. rbind E (\<lambda>_. ret (f v))) (opened s' sz)"
    if "s_Kind s = Ret (KList, sz) s'" for sz s'
    using that by (simp add: rbind_def wrap_def s_List_def opened_def)
  have rc: "reads_content sz (m sz) enc ok" if "kinded s KList sz s'" for sz s'
    using kindedD(4,7) [OF that b] s(2) assms(1) [of sz] by simp
  show "at_end s \<Longrightarrow> ends ?D s"
    using s_Kind_spec(1) [OF s(1)] by (auto simp: ends_def rbind_def wrap_def s_List_def)
  show "returns ?D enc' ok' s \<or> fails ?D s" if ne: "\<not> at_end s"
  proof -
    consider k sz s' where "s_Kind s = Ret (k, sz) s'" "kinded s k sz s'" | e s' where "s_Kind s = Fail e s'" "e \<noteq> EOL"
      using s_Kind_spec(2) [OF s(1) ne] by blast
    then show ?thesis
    proof cases
      case 1
      show ?thesis
      proof (cases "k = KList")
        case True
        note 1 = 1 [unfolded True]
        from list_content(1) [OF b 1(2) rc [OF 1(2)] assms(2), of f] show ?thesis
          unfolding returns_def fails_def D [OF 1(1)] using assms(3) by metis
      qed (use 1 in \<open>simp add: fails_def rbind_def wrap_def s_List_def\<close>)
    qed (simp add: fails_def rbind_def wrap_def s_List_def)
  qed
  fix x w
  assume x: "ok' x" "window s = enc' x @ w"
  then obtain v where v: "ok v" "x = f v" "window s = enc_list (enc v) @ w" using assms(3,4) by metis
  then have "window s = head_bytes KList (length (enc v)) 0 @ enc v @ w" "head_ok KList (length (enc v)) 0"
    by (simp_all add: enc_list_def head_ok_def)
  then obtain s' where s': "s_Kind s = Ret (KList, length (enc v)) s'" "kinded s KList (length (enc v)) s'"
    using s_Kind_complete [OF s(1)] by fastforce
  from list_content(2) [OF b s'(2) rc [OF s'(2)] assms(2) v(1,3) refl, of f]
  show "\<exists>s'. ?D s = Ret x s'" unfolding D [OF s'(1)] v(2) .
qed

section \<open>Types\<close>

text \<open>The values a type decodes to.\<close>

inductive typed :: "gotype \<Rightarrow> goval \<Rightarrow> bool" where
  typed_uint: "unat i < 2 ^ bits \<Longrightarrow> typed (TUint bits) (GUint i)"
| typed_bool: "typed TBool (GBool b)"
| typed_string: "typed TString (GString b)"
| typed_big: "0 \<le> i \<Longrightarrow> typed TBigInt (GBigInt (Some i))"
| typed_bytes: "typed TByteSlice (GBytes b)"
| typed_array: "length b = k \<Longrightarrow> typed (TByteArray k) (GBytes b)"
| typed_slice: "\<forall>v\<in>set vs. typed t v \<Longrightarrow> typed (TSlice t) (GSlice False vs)"
| typed_listarray: "\<forall>v\<in>set vs. typed t v \<Longrightarrow> length vs = k \<Longrightarrow> typed (TArray k t) (GSlice False vs)"
| typed_struct: "list_all2 typed ts vs \<Longrightarrow> typed (TStruct ts) (GStruct vs)"
| typed_ptr: "typed t v \<Longrightarrow> typed (TPtr t) v"
| typed_if_bytes: "typed TInterface (GBytes b)"
| typed_if_list: "\<forall>v\<in>set vs. typed TInterface v \<Longrightarrow> typed TInterface (GSlice False vs)"

inductive_simps typed_simps:
  "typed (TUint bits) v" "typed TBool v" "typed TString v" "typed TBigInt v" "typed TByteSlice v"
  "typed (TByteArray k) v" "typed (TSlice t) v" "typed (TArray k t) v" "typed (TStruct ts) v" "typed (TPtr t) v"

text \<open>
  The types for which decoding is the inverse of encoding: those without raw values, the two struct tags and
  arrays of one byte.
\<close>

fun plain :: "gotype \<Rightarrow> bool" where
  "plain (TUint bits) \<longleftrightarrow> bits \<in> {8, 16, 32, 64}"
| "plain (TByteArray k) \<longleftrightarrow> k \<noteq> 1"
| "plain (TSlice t) \<longleftrightarrow> plain t"
| "plain (TArray k t) \<longleftrightarrow> plain t"
| "plain (TStruct ts) \<longleftrightarrow> list_all plain ts"
| "plain (TPtr t) \<longleftrightarrow> plain t"
| "plain TRaw \<longleftrightarrow> False"
| "plain (TTail _) \<longleftrightarrow> False"
| "plain (TOptPtr _) \<longleftrightarrow> False"
| "plain _ \<longleftrightarrow> True"

fun tsize :: "gotype \<Rightarrow> nat" where
  "tsize (TSlice t) = tsize t + 1"
| "tsize (TTail t) = tsize t + 1"
| "tsize (TArray k t) = tsize t + 1"
| "tsize (TStruct ts) = sum_list (map (\<lambda>t. tsize t + 1) ts) + 1"
| "tsize (TPtr t) = tsize t + 1"
| "tsize (TOptPtr t) = tsize t + 1"
| "tsize TInterface = 2"
| "tsize _ = 1"

lemma tsize_pos: "0 < tsize t"
  by (cases t) auto

lemma enc_string_ne: "enc_string b \<noteq> []"
  by (auto simp: enc_string_def header_def)

lemma enc_list_ne: "enc_list c \<noteq> []"
  by (simp add: enc_list_def header_def)

lemma typed_ne: "typed t v \<Longrightarrow> encoding v \<noteq> []"
  by (induction rule: typed.induct) (simp_all add: enc_string_ne enc_list_ne)

lemma exact_returns:
  assumes "exact R m enc ok" "ready s" "room s \<le> R" "ok v" "window s = enc v @ w" "enc v \<noteq> []"
  obtains s' where "m s = Ret v s'" "moved (length (enc v)) s s'" "s_kind s' = None" "ready s'" "window s' = w"
    "room s' < room s"
proof -
  have b: "base s" using assms(2) by (rule base_readyI)
  have r: "room s = length (enc v) + length w" using length_window [OF b] assms(5) by simp
  then have "\<not> at_end s" using assms(6) by (simp add: at_end_def)
  obtain s' where s': "m s = Ret v s'" using exactD(3) [OF assms(1-5)] by blast
  then have m: "moved (length (enc v)) s s'" "s_kind s' = None"
    using exactD(2) [OF assms(1-3) \<open>\<not> at_end s\<close>] by (auto simp: returns_def fails_def)
  then show ?thesis
    using that [OF s'] moved_base [OF m(1) b] moved_window [OF m(1) b] moved_room [OF m(1) b] r assms(5,6)
    by (auto simp: ready_def)
qed

lemma returnsE:
  assumes "returns m enc ok s" "ready s"
  obtains v s' where "m s = Ret v s'" "ok v" "moved (length (enc v)) s s'" "ready s'" "window s = enc v @ window s'"
    "room s = length (enc v) + room s'"
proof -
  obtain v s' w where v: "m s = Ret v s'" "ok v" "window s = enc v @ w" "moved (length (enc v)) s s'" "s_kind s' = None"
    using assms(1) unfolding returns_def by blast
  have b: "base s" using assms(2) by (rule base_readyI)
  have b': "base s'" using moved_base [OF v(4) b] .
  have "room s = length (enc v) + room s'"
    using length_window [OF b] moved_window [OF v(4) b] length_window [OF b'] v(3) by simp
  with v b' show ?thesis using that [OF v(1,2,4)] moved_window [OF v(4) b] by (simp add: ready_def)
qed

lemma returnsI:
  assumes "m s = Ret v s'" "ok v" "window s = enc v @ w" "moved (length (enc v)) s s'" "ready s'"
  shows "returns m enc ok s"
  using assms unfolding returns_def ready_def by blast

section \<open>Elements\<close>

abbreviation encs :: "('a \<Rightarrow> bytes) \<Rightarrow> 'a list \<Rightarrow> bytes" where
  "encs enc vs \<equiv> concat (map enc vs)"

text \<open>One element and then the others, by the decoder \<open>g'\<close>.\<close>

lemma cons_returns:
  assumes ex: "exact (room s) d enc ok" and s: "ready s" "\<not> at_end s" and ne: "\<And>v. ok v \<Longrightarrow> enc v \<noteq> []"
    and g: "\<And>v s'. d s = Ret v s' \<Longrightarrow> g s = rbind g' (\<lambda>vs. ret (v # vs)) s'"
      "\<And>e s'. d s = Fail e s' \<Longrightarrow> e \<noteq> EOL \<Longrightarrow> fails g s"
    and IH: "\<And>k s'. ready s' \<Longrightarrow> moved k s s' \<Longrightarrow> room s' < room s \<Longrightarrow> returns g' (encs enc) okr s' \<or> fails g' s'"
    and okr: "\<And>v vs. ok v \<Longrightarrow> okr vs \<Longrightarrow> okr' (v # vs)"
  shows "returns g (encs enc) okr' s \<or> fails g s"
proof (cases "returns d enc ok s")
  case True
  then obtain v s' where v: "d s = Ret v s'" "ok v" "moved (length (enc v)) s s'" "ready s'"
    "window s = enc v @ window s'" "room s = length (enc v) + room s'"
    using s(1) by (rule returnsE)
  then have "room s' < room s" using ne [OF v(2)] by simp
  note IH = IH [OF v(4,3) this]
  show ?thesis
  proof (cases "fails g' s'")
    case True
    then show ?thesis using g(1) [OF v(1)] by (auto simp: fails_def rbind_def)
  next
    case False
    with IH have "returns g' (encs enc) okr s'" by blast
    then obtain vs s2 where vs: "g' s' = Ret vs s2" "okr vs" "moved (length (encs enc vs)) s' s2" "ready s2"
      "window s' = encs enc vs @ window s2" "room s' = length (encs enc vs) + room s2"
      using v(4) by (rule returnsE)
    have "moved (length (encs enc (v # vs))) s s2"
      using moved_trans [OF v(3) base_readyI [OF s(1)] vs(3)] by simp
    then show ?thesis
      using v vs okr g(1) [OF v(1)]
      by (intro disjI1 returnsI [of _ _ "v # vs" s2 _ _ "window s2"]) (simp_all add: rbind_def ret_def)
  qed
next
  case False
  then have "fails d s" using exactD(2) [OF ex s(1)] s(2) by simp
  then show ?thesis using g(2) by (auto simp: fails_def)
qed

lemma cons_complete:
  assumes "exact (room s) d enc ok" "ready s" "ok v" "window s = enc v @ w" "enc v \<noteq> []"
    "\<And>s'. d s = Ret v s' \<Longrightarrow> g s = rbind g' (\<lambda>vs. ret (v # vs)) s'"
    "\<And>k s'. ready s' \<Longrightarrow> moved k s s' \<Longrightarrow> room s' < room s \<Longrightarrow> window s' = w \<Longrightarrow> \<exists>s2. g' s' = Ret vs s2"
  shows "\<exists>s2. g s = Ret (v # vs) s2"
proof -
  obtain s' where s': "d s = Ret v s'" "moved (length (enc v)) s s'" "s_kind s' = None" "ready s'" "window s' = w"
    "room s' < room s"
    by (rule exact_returns [OF assms(1,2) order_refl assms(3-5)])
  then show ?thesis using assms(6) [OF s'(1)] assms(7) [OF s'(4,2,6,5)] by (auto simp: rbind_def ret_def)
qed

lemma ends_returns:
  assumes "exact (room s) d enc ok" "ready s" "at_end s" "okr []"
    "\<And>s'. d s = Fail EOL s' \<Longrightarrow> g s = Ret [] s'"
  shows "returns g (encs enc) okr s"
proof -
  have b: "base s" using assms(2) by (rule base_readyI)
  obtain s' where s': "d s = Fail EOL s'" "moved 0 s s'" "s_kind s' = None"
    using exactD(1) [OF assms(1,2)] assms(3) by (auto simp: ends_def)
  moreover have "ready s'" using moved_base [OF s'(2) b] s'(3) by (simp add: ready_def)
  moreover have "window s = []" using length_window [OF b] assms(3) by (simp add: at_end_def)
  ultimately show ?thesis using assms(4,5) by (intro returnsI [of _ _ "[]"]) simp_all
qed

lemma moved_stack: "moved k s s' \<Longrightarrow> s_stack s \<noteq> [] \<Longrightarrow> s_stack s' \<noteq> []"
  by (cases "s_stack s") (auto simp: moved_def)

lemma SliceElems_spec:
  assumes "\<And>n R. n < N \<Longrightarrow> 3 * R + tsize t \<le> n \<Longrightarrow> exact R (decode n t) enc ok" and ne: "\<And>v. ok v \<Longrightarrow> enc v \<noteq> []"
  shows "n \<le> N \<Longrightarrow> 3 * room s + tsize t + 1 \<le> n \<Longrightarrow> ready s \<Longrightarrow> s_stack s \<noteq> [] \<Longrightarrow>
    (returns (decodeSliceElems n t) (encs enc) (\<lambda>vs. \<forall>v\<in>set vs. ok v) s \<or> fails (decodeSliceElems n t) s) \<and>
    (\<forall>vs. (\<forall>v\<in>set vs. ok v) \<longrightarrow> window s = encs enc vs \<longrightarrow> (\<exists>s'. decodeSliceElems n t s = Ret vs s'))"
proof (induction n arbitrary: s)
  case (Suc n)
  have ex: "exact (room s) (decode n t) enc ok" using Suc.prems assms(1) by simp
  have b: "base s" using Suc.prems(3) by (rule base_readyI)
  have IH: "(returns (decodeSliceElems n t) (encs enc) (\<lambda>vs. \<forall>v\<in>set vs. ok v) s' \<or> fails (decodeSliceElems n t) s') \<and>
      (\<forall>vs. (\<forall>v\<in>set vs. ok v) \<longrightarrow> window s' = encs enc vs \<longrightarrow> (\<exists>s2. decodeSliceElems n t s' = Ret vs s2))"
    if "ready s'" "moved k s s'" "room s' < room s" for k s'
    using Suc.IH [of s'] that Suc.prems moved_stack [OF that(2)] by simp
  show ?case
  proof (intro conjI allI impI)
    show "returns (decodeSliceElems (Suc n) t) (encs enc) (\<lambda>vs. \<forall>v\<in>set vs. ok v) s \<or> fails (decodeSliceElems (Suc n) t) s"
    proof (cases "at_end s")
      case True
      then show ?thesis by (intro disjI1 ends_returns [OF ex Suc.prems(3)]) simp_all
    next
      case False
      then show ?thesis
        by (rule cons_returns [OF ex Suc.prems(3) _ ne]) (use IH in \<open>auto simp: fails_def\<close>)
    qed
    fix vs
    assume vs: "\<forall>v\<in>set vs. ok v" "window s = encs enc vs"
    show "\<exists>s'. decodeSliceElems (Suc n) t s = Ret vs s'"
    proof (cases vs)
      case Nil
      then have "at_end s" using vs(2) length_window [OF b] Suc.prems(4) by (simp add: at_end_def)
      then obtain s' where "decode n t s = Fail EOL s'"
        using exactD(1) [OF ex Suc.prems(3)] by (auto simp: ends_def)
      then show ?thesis using Nil by simp
    next
      case (Cons v vs')
      then have "ok v" "window s = enc v @ encs enc vs'" using vs by auto
      then show ?thesis
        unfolding Cons by (rule cons_complete [OF ex Suc.prems(3) _ _ ne]) (use IH vs(1) Cons in auto)
    qed
  qed
qed simp

lemma ArrayElems_spec:
  assumes "\<And>n R. n < N \<Longrightarrow> 3 * R + tsize t \<le> n \<Longrightarrow> exact R (decode n t) enc ok" and ne: "\<And>v. ok v \<Longrightarrow> enc v \<noteq> []"
  shows "n \<le> N \<Longrightarrow> 3 * room s + tsize t + 1 \<le> n \<Longrightarrow> ready s \<Longrightarrow> s_stack s \<noteq> [] \<Longrightarrow>
    (returns (decodeArrayElems n k t) (encs enc) (\<lambda>vs. (\<forall>v\<in>set vs. ok v) \<and> length vs \<le> k) s \<or> fails (decodeArrayElems n k t) s) \<and>
    (\<forall>vs w. (\<forall>v\<in>set vs. ok v) \<longrightarrow> length vs = k \<longrightarrow> window s = encs enc vs @ w \<longrightarrow>
       (\<exists>s'. decodeArrayElems n k t s = Ret vs s'))"
proof (induction n arbitrary: s k)
  case (Suc n)
  have ex: "exact (room s) (decode n t) enc ok" using Suc.prems assms(1) by simp
  have b: "base s" using Suc.prems(3) by (rule base_readyI)
  have IH: "(returns (decodeArrayElems n (k - 1) t) (encs enc) (\<lambda>vs. (\<forall>v\<in>set vs. ok v) \<and> length vs \<le> k - 1) s' \<or>
      fails (decodeArrayElems n (k - 1) t) s') \<and>
      (\<forall>vs w. (\<forall>v\<in>set vs. ok v) \<longrightarrow> length vs = k - 1 \<longrightarrow> window s' = encs enc vs @ w \<longrightarrow>
         (\<exists>s2. decodeArrayElems n (k - 1) t s' = Ret vs s2))"
    if "ready s'" "moved l s s'" "room s' < room s" for l s'
    using Suc.IH [of s' "k - 1"] that Suc.prems moved_stack [OF that(2)] by simp
  show ?case
  proof (cases "k = 0")
    case True
    have "moved 0 s s" using b by (rule moved_0) simp_all
    then have "returns (decodeArrayElems (Suc n) k t) (encs enc) (\<lambda>vs. (\<forall>v\<in>set vs. ok v) \<and> length vs \<le> k) s"
      using True Suc.prems(3) by (intro returnsI [of _ _ "[]" s _ _ "window s"]) simp_all
    moreover have "(\<exists>s'. decodeArrayElems (Suc n) k t s = Ret vs s')" if "length vs = k" for vs
      using True that by simp
    ultimately show ?thesis by blast
  next
    case k: False
    show ?thesis
    proof (intro conjI allI impI)
      show "returns (decodeArrayElems (Suc n) k t) (encs enc) (\<lambda>vs. (\<forall>v\<in>set vs. ok v) \<and> length vs \<le> k) s \<or>
          fails (decodeArrayElems (Suc n) k t) s"
      proof (cases "at_end s")
        case True
        then show ?thesis using k by (intro disjI1 ends_returns [OF ex Suc.prems(3)]) simp_all
      next
        case False
        then show ?thesis
          by (rule cons_returns [OF ex Suc.prems(3) _ ne, where g' = "decodeArrayElems n (k - 1) t"
                and okr = "\<lambda>vs. (\<forall>v\<in>set vs. ok v) \<and> length vs \<le> k - 1"]) (use IH k in \<open>auto simp: fails_def\<close>)
      qed
      fix vs w
      assume vs: "\<forall>v\<in>set vs. ok v" "length vs = k" "window s = encs enc vs @ w"
      with k obtain v vs' where Cons: "vs = v # vs'" by (cases vs) auto
      then have "ok v" "window s = enc v @ encs enc vs' @ w" using vs by auto
      then show "\<exists>s'. decodeArrayElems (Suc n) k t s = Ret vs s'"
        unfolding Cons
        by (rule cons_complete [OF ex Suc.prems(3) _ _ ne, where g' = "decodeArrayElems n (k - 1) t"])
          (use IH vs Cons k in auto)
    qed
  qed
qed simp

lemma Fields_spec:
  assumes "\<And>t n R. t \<in> set ts \<Longrightarrow> n < N \<Longrightarrow> 3 * R + tsize t \<le> n \<Longrightarrow> exact R (decode n t) enc (ok t)"
    and ne: "\<And>t v. ok t v \<Longrightarrow> enc v \<noteq> []"
  shows "n \<le> N \<Longrightarrow> 3 * room s + sum_list (map (\<lambda>t. tsize t + 1) ts) + 1 \<le> n \<Longrightarrow> ready s \<Longrightarrow> s_stack s \<noteq> [] \<Longrightarrow>
    (returns (decodeFields n ts) (encs enc) (list_all2 ok ts) s \<or> fails (decodeFields n ts) s) \<and>
    (\<forall>vs w. list_all2 ok ts vs \<longrightarrow> window s = encs enc vs @ w \<longrightarrow> (\<exists>s'. decodeFields n ts s = Ret vs s'))"
  using assms(1)
proof (induction n arbitrary: s ts)
  case (Suc n)
  have b: "base s" using Suc.prems(3) by (rule base_readyI)
  show ?case
  proof (cases ts)
    case Nil
    have "moved 0 s s" using b by (rule moved_0) simp_all
    then have "returns (decodeFields (Suc n) ts) (encs enc) (list_all2 ok ts) s"
      using Nil Suc.prems(3) by (intro returnsI [of _ _ "[]" s _ _ "window s"]) simp_all
    moreover have "(\<exists>s'. decodeFields (Suc n) ts s = Ret vs s')" if "list_all2 ok ts vs" for vs
      using Nil that by simp
    ultimately show ?thesis by blast
  next
    case (Cons t ts')
    have ex: "exact (room s) (decode n t) enc (ok t)" using Suc.prems(1,2,5) Cons by simp
    have IH: "(returns (decodeFields n ts') (encs enc) (list_all2 ok ts') s' \<or> fails (decodeFields n ts') s') \<and>
        (\<forall>vs w. list_all2 ok ts' vs \<longrightarrow> window s' = encs enc vs @ w \<longrightarrow> (\<exists>s2. decodeFields n ts' s' = Ret vs s2))"
      if "ready s'" "moved l s s'" "room s' < room s" for l s'
      using Suc.IH [of s' ts'] that Suc.prems moved_stack [OF that(2)] Cons by simp
    show ?thesis
    proof (intro conjI allI impI)
      show "returns (decodeFields (Suc n) ts) (encs enc) (list_all2 ok ts) s \<or> fails (decodeFields (Suc n) ts) s"
      proof (cases "at_end s")
        case True
        then obtain s' where "decode n t s = Fail EOL s'"
          using exactD(1) [OF ex Suc.prems(3)] by (auto simp: ends_def)
        then show ?thesis using Cons by (simp add: fails_def)
      next
        case False
        then show ?thesis
          by (rule cons_returns [OF ex Suc.prems(3) _ ne, where g' = "decodeFields n ts'" and okr = "list_all2 ok ts'"])
            (use IH Cons in \<open>auto simp: fails_def\<close>)
      qed
      fix vs w
      assume vs: "list_all2 ok ts vs" "window s = encs enc vs @ w"
      with Cons obtain v vs' where v: "vs = v # vs'" by (cases vs) auto
      then have "ok t v" "window s = enc v @ encs enc vs' @ w" using vs Cons by auto
      then show "\<exists>s'. decodeFields (Suc n) ts s = Ret vs s'"
        unfolding v
        by (rule cons_complete [OF ex Suc.prems(3) _ _ ne, where g' = "decodeFields n ts'"]) (use IH vs v Cons in auto)
    qed
  qed
qed simp

section \<open>Decoding inverts encoding\<close>

lemma rbind_ret [simp]: "rbind (ret x) f = f x"
  by (rule ext) (simp add: rbind_def ret_def)

lemma rbind_assoc: "rbind (rbind m f) g = rbind m (\<lambda>x. rbind (f x) g)"
  by (rule ext) (simp add: rbind_def split: run.splits)

lemma rbind_fail [simp]: "rbind (fail e) f = fail e"
  by (rule ext) (simp add: rbind_def fail_def)

lemma rbind_if: "rbind (if c then a else b) f = (if c then rbind a f else rbind b f)"
  by simp

lemma window_empty: "room s = 0 \<Longrightarrow> window s = []"
  by (simp add: window_def)

lemma ListSlice_exact:
  assumes "\<And>n R. n < N \<Longrightarrow> 3 * R + tsize t \<le> n \<Longrightarrow> exact R (decode n t) encoding (typed t)"
    "n \<le> N" "0 < n" "3 * R + tsize t \<le> Suc n"
  shows "exact R (decodeListSlice n t) encoding (\<lambda>v. \<exists>vs. v = GSlice False vs \<and> (\<forall>v\<in>set vs. typed t v))"
proof -
  obtain m where m: "n = Suc m" using assms(3) by (cases n) auto
  define body where "body sz = (if sz = 0 then ret [] else decodeSliceElems m t)" for sz :: nat
  have "decodeListSlice n t =
      rbind (wrap s_List) (\<lambda>sz. rbind (body sz) (\<lambda>vs. rbind s_ListEnd (\<lambda>_. ret (GSlice False vs))))"
    by (rule ext) (simp add: m body_def rbind_if cong: if_cong)
  moreover have "reads_content sz (body sz) (encs encoding) (\<lambda>vs. \<forall>v\<in>set vs. typed t v)" if "sz < R" for sz
  proof (cases "sz = 0")
    case True
    have "returns (ret []) (encs encoding) (\<lambda>vs. \<forall>v\<in>set vs. typed t v) s" if "ready s" "room s = 0" for s
      using that base_readyI [OF that(1)] window_empty [of s] moved_0 [of s s]
      by (intro returnsI [of _ _ "[]" s _ _ "[]"]) (simp_all add: ret_def)
    moreover have "vs = []" if "window s = encs encoding vs" "room s = 0" "\<forall>v\<in>set vs. typed t v" "ready s" for vs s
      using that window_empty [of s] typed_ne by (cases vs) auto
    ultimately show ?thesis using True by (auto simp: reads_content_def body_def ret_def)
  next
    case False
    have "3 * sz + tsize t + 1 \<le> m" "m \<le> N" using that assms(2,4) m by simp_all
    then show ?thesis
      using SliceElems_spec [OF assms(1) typed_ne] False by (simp add: reads_content_def body_def)
  qed
  ultimately show ?thesis by (simp only:) (rule framed_exact, auto)
qed

lemma Array_exact:
  assumes "\<And>n R. n < N \<Longrightarrow> 3 * R + tsize t \<le> n \<Longrightarrow> exact R (decode n t) encoding (typed t)"
    "n < N" "3 * R + tsize t \<le> n"
  shows "exact R (decode (Suc n) (TArray k t)) encoding (typed (TArray k t))"
proof -
  define body where "body = rbind (decodeArrayElems n k t) (\<lambda>vs.
      if length vs < k then fail (DecodeError ''input list has too few elements'') else ret vs)"
  have "decode (Suc n) (TArray k t) =
      rbind (wrap s_List) (\<lambda>sz. rbind body (\<lambda>vs. rbind (wrap s_ListEnd) (\<lambda>_. ret (GSlice False vs))))"
    by (rule ext) (simp add: body_def rbind_assoc rbind_if cong: if_cong)
  moreover have "reads_content sz body (encs encoding) (\<lambda>vs. (\<forall>v\<in>set vs. typed t v) \<and> length vs = k)" if "sz < R" for sz
  proof -
    have "3 * sz + tsize t + 1 \<le> n" using that assms(3) by simp
    then have spec: "(returns (decodeArrayElems n k t) (encs encoding) (\<lambda>vs. (\<forall>v\<in>set vs. typed t v) \<and> length vs \<le> k) s \<or>
        fails (decodeArrayElems n k t) s) \<and>
        (\<forall>vs w. (\<forall>v\<in>set vs. typed t v) \<longrightarrow> length vs = k \<longrightarrow> window s = encs encoding vs @ w \<longrightarrow>
          (\<exists>s'. decodeArrayElems n k t s = Ret vs s'))"
      if "ready s" "s_stack s \<noteq> []" "room s = sz" for s
      using ArrayElems_spec [OF assms(1) typed_ne, where n = n and s = s and k = k] that assms(2) by simp
    have bRet: "body s = (if length vs < k then Fail (DecodeError ''input list has too few elements'') s' else Ret vs s')"
      if "decodeArrayElems n k t s = Ret vs s'" for s vs s'
      using that by (simp add: body_def rbind_def ret_def fail_def)
    have bFail: "body s = Fail e s'" if "decodeArrayElems n k t s = Fail e s'" for s e s'
      using that by (simp add: body_def rbind_def)
    have "returns body (encs encoding) (\<lambda>vs. (\<forall>v\<in>set vs. typed t v) \<and> length vs = k) s \<or> fails body s"
      if s: "ready s" "s_stack s \<noteq> []" "room s = sz" for s
    proof (cases "fails (decodeArrayElems n k t) s")
      case True
      then show ?thesis unfolding fails_def using bFail by blast
    next
      case False
      with spec [OF s] have "returns (decodeArrayElems n k t) (encs encoding) (\<lambda>vs. (\<forall>v\<in>set vs. typed t v) \<and> length vs \<le> k) s"
        by blast
      then obtain vs s' where vs: "decodeArrayElems n k t s = Ret vs s'"
          "(\<forall>v\<in>set vs. typed t v) \<and> length vs \<le> k" "moved (length (encs encoding vs)) s s'" "ready s'"
          "window s = encs encoding vs @ window s'" "room s = length (encs encoding vs) + room s'"
        using s(1) by (rule returnsE)
      show ?thesis
      proof (cases "length vs = k")
        case True
        with bRet [OF vs(1)] have "body s = Ret vs s'" by simp
        with True vs show ?thesis by (intro disjI1 returnsI [of _ _ vs s']) simp_all
      next
        case False
        with bRet [OF vs(1)] vs(2) show ?thesis by (simp add: fails_def)
      qed
    qed
    moreover have "\<exists>s'. body s = Ret vs s'"
      if s: "ready s" "s_stack s \<noteq> []" "room s = sz" and vs: "(\<forall>v\<in>set vs. typed t v) \<and> length vs = k" "window s = encs encoding vs"
      for s vs
    proof -
      have "window s = encs encoding vs @ []" using vs(2) by simp
      then obtain s' where "decodeArrayElems n k t s = Ret vs s'" using spec [OF s] vs(1) by blast
      from bRet [OF this] vs(1) show ?thesis by simp
    qed
    ultimately show ?thesis unfolding reads_content_def by blast
  qed
  ultimately show ?thesis by (simp only:) (rule framed_exact, auto simp: typed_simps)
qed

lemma Struct_exact:
  assumes "\<And>t n R. t \<in> set ts \<Longrightarrow> n < N \<Longrightarrow> 3 * R + tsize t \<le> n \<Longrightarrow> exact R (decode n t) encoding (typed t)"
    "n < N" "3 * R + tsize (TStruct ts) \<le> Suc n"
  shows "exact R (decode (Suc n) (TStruct ts)) encoding (typed (TStruct ts))"
proof -
  have "decode (Suc n) (TStruct ts) =
      rbind (wrap s_List) (\<lambda>sz. rbind (decodeFields n ts) (\<lambda>vs. rbind (wrap s_ListEnd) (\<lambda>_. ret (GStruct vs))))"
    by (rule ext) simp
  moreover have "reads_content sz (decodeFields n ts) (encs encoding) (list_all2 typed ts)" if "sz < R" for sz
  proof -
    have "3 * sz + sum_list (map (\<lambda>t. tsize t + 1) ts) + 1 \<le> n" "n \<le> N" using that assms(2,3) by simp_all
    then show ?thesis
      using Fields_spec [OF assms(1) typed_ne] by (fastforce simp: reads_content_def)
  qed
  ultimately show ?thesis by (simp only:) (rule framed_exact, auto simp: typed_simps)
qed

text \<open>The interface type reads the kind first and then what follows from it.\<close>

lemma after_Kind:
  assumes "s_Kind s = Ret (k, sz) s'" "kinded s k sz s'"
  shows "s_Bytes s' = s_Bytes s" "decodeListSlice (Suc m) t s' = decodeListSlice (Suc m) t s"
proof -
  have again: "rbind s_Kind f s' = rbind s_Kind f s" for f :: "Kind \<times> nat \<Rightarrow> 'a dec"
    using assms(1) s_Kind_again [OF assms(2)] by (simp add: rbind_def)
  show "s_Bytes s' = s_Bytes s" by (simp add: s_Bytes_def rbind_def assms(1) s_Kind_again [OF assms(2)])
  have "s_List s' = s_List s" by (simp add: s_List_def rbind_def assms(1) s_Kind_again [OF assms(2)])
  then show "decodeListSlice (Suc m) t s' = decodeListSlice (Suc m) t s" by (simp add: rbind_def wrap_def)
qed

lemma Interface_exact:
  assumes "\<And>n R. n < N \<Longrightarrow> 3 * R + tsize TInterface \<le> n \<Longrightarrow> exact R (decode n TInterface) encoding (typed TInterface)"
    "n < N" "3 * R + tsize TInterface \<le> Suc n"
  shows "exact R (decode (Suc n) TInterface) encoding (typed TInterface)"
proof (rule exactI)
  fix s
  assume s: "ready s" "room s \<le> R"
  obtain m where m: "n = Suc m" using assms(3) by (cases n) auto
  let ?bytes = "rbind s_Bytes (\<lambda>b. ret (GBytes b))" and ?list = "decodeListSlice n TInterface"
  have bytes: "exact R ?bytes encoding (\<lambda>v. \<exists>b. v = GBytes b)"
    by (rule exact_map [OF Bytes_exact]) auto
  have list: "exact R ?list encoding (\<lambda>v. \<exists>vs. v = GSlice False vs \<and> (\<forall>v\<in>set vs. typed TInterface v))"
    by (rule ListSlice_exact [OF assms(1)]) (use assms(2,3) m in auto)
  have D: "decode (Suc n) TInterface s = (if k = KList then ?list s else ?bytes s)"
    if "s_Kind s = Ret (k, sz) s'" "kinded s k sz s'" for k sz s'
    using that(1) after_Kind [OF that] m by (simp add: rbind_def)
  show "at_end s \<Longrightarrow> ends (decode (Suc n) TInterface) s"
    using s_Kind_spec(1) [OF s(1)] by (auto simp: ends_def rbind_def)
  show "returns (decode (Suc n) TInterface) encoding (typed TInterface) s \<or> fails (decode (Suc n) TInterface) s"
    if ne: "\<not> at_end s"
  proof -
    consider k sz s' where "s_Kind s = Ret (k, sz) s'" "kinded s k sz s'" | e s' where "s_Kind s = Fail e s'" "e \<noteq> EOL"
      using s_Kind_spec(2) [OF s(1) ne] by blast
    then show ?thesis
    proof cases
      case 1
      have "returns ?list encoding (typed TInterface) s \<or> fails ?list s"
        using exactD(2) [OF list s ne] unfolding returns_def by (blast intro: typed_if_list)
      moreover have "returns ?bytes encoding (typed TInterface) s \<or> fails ?bytes s"
        using exactD(2) [OF bytes s ne] unfolding returns_def by (blast intro: typed_if_bytes)
      ultimately show ?thesis unfolding returns_def fails_def D [OF 1] by (cases "k = KList") simp_all
    qed (simp add: fails_def rbind_def)
  qed
  fix v w
  assume v: "typed TInterface v" "window s = encoding v @ w"
  then consider b where "v = GBytes b" | vs where "v = GSlice False vs" "\<forall>v\<in>set vs. typed TInterface v"
    by (auto elim: typed.cases)
  then show "\<exists>s'. decode (Suc n) TInterface s = Ret v s'"
  proof cases
    case 1
    with v have w: "window s = enc_string b @ w" by simp
    obtain k sz s' where k: "s_Kind s = Ret (k, sz) s'" "kinded s k sz s'" "k \<noteq> KList"
    proof (cases "single b")
      case True
      then have "window s = head_bytes KByte 0 (hd b) @ w" "head_ok KByte 0 (hd b)" using string_head [OF w] by auto
      then show ?thesis using s_Kind_complete [OF s(1), of KByte 0 "hd b" w] that by blast
    next
      case False
      then have "window s = head_bytes KString (length b) 0 @ b @ w" "head_ok KString (length b) 0"
        using string_head [OF w] by auto
      then show ?thesis using s_Kind_complete [OF s(1), of KString "length b" 0 "b @ w"] that by auto
    qed
    have "\<exists>s'. ?bytes s = Ret v s'" by (rule exactD(3) [OF bytes s]) (use 1 v in auto)
    with D [OF k(1,2)] k(3) show ?thesis by simp
  next
    case 2
    let ?c = "encs encoding vs"
    have "window s = head_bytes KList (length ?c) 0 @ ?c @ w" "head_ok KList (length ?c) 0"
      using 2 v by (simp_all add: enc_list_def head_ok_def)
    then obtain s' where k: "s_Kind s = Ret (KList, length ?c) s'" "kinded s KList (length ?c) s'"
      using s_Kind_complete [OF s(1), of KList "length ?c" 0 "?c @ w"] by auto
    have "\<exists>s'. ?list s = Ret v s'" by (rule exactD(3) [OF list s]) (use 2 v in auto)
    with D [OF k] show ?thesis by simp
  qed
qed

lemma decodeUint_exact:
  assumes "bits \<in> {8, 16, 32, 64}"
  shows "exact R (decodeUint bits) encoding (typed (TUint bits))"
  unfolding decodeUint_def
proof (rule exact_map [OF exact_wrap [OF uint_exact [OF assms]]], goal_cases)
  case (1 n)
  have "(2::nat) ^ bits \<le> 2 ^ 64" using assms by (intro power_increasing) auto
  with 1 have "unat (word_of_nat n :: uint64) = n" by (intro unat_of_nat_64) simp
  with 1 show ?case by (simp add: typed_simps)
next
  case (2 y)
  then obtain i where "y = GUint i" "unat i < 2 ^ bits" by (auto simp: typed_simps)
  then show ?case by (intro exI [of _ "unat i"]) simp
qed

lemma decodeBigInt_exact: "exact R decodeBigInt encoding (typed TBigInt)"
  unfolding decodeBigInt_def
proof (rule exact_bind [OF exact_wrap [OF Bytes_exact]], goal_cases)
  case (1 b s)
  show ?case
  proof (cases "b \<noteq> [] \<and> hd b = 0")
    case False
    then have "big_Bytes (big_SetBytes b) = b"
      using nat_bytes_SetBytes [of b] by (auto simp: big_Bytes_def)
    with False show ?thesis by (auto simp: ret_def typed_simps)
  qed (simp add: wrap_def fail_def)
next
  case (2 y)
  then obtain i where y: "y = GBigInt (Some i)" "0 \<le> i" by (auto simp: typed_simps)
  have "big_Bytes i \<noteq> [] \<Longrightarrow> hd (big_Bytes i) \<noteq> 0"
    using nat_bytes_hd [of "nat \<bar>i\<bar>"] by (auto simp: big_Bytes_def nat_bytes_eq_Nil)
  with y show ?case by (intro exI [of _ "big_Bytes i"]) (auto simp: ret_def)
qed

lemma decode_exact:
  "plain t \<Longrightarrow> 3 * R + tsize t \<le> n \<Longrightarrow> exact R (decode n t) encoding (typed t)"
proof (induction n arbitrary: t R rule: less_induct)
  case (less n)
  then obtain m where m: "n = Suc m" using tsize_pos [of t] by (cases n) auto
  have IH: "exact R (decode k t) encoding (typed t)" if "plain t" "k < n" "3 * R + tsize t \<le> k" for t k R
    using less.IH [of k t R] that by simp
  show ?case
  proof (cases t)
    case (TUint bits)
    then have "exact R (decodeUint bits) encoding (typed t)"
      using decodeUint_exact [of bits R] less.prems(1) by simp
    moreover have "decode n t = decodeUint bits" using TUint by (intro ext) (simp add: m)
    ultimately show ?thesis by simp
  next
    case TBool
    have "exact R decodeBool encoding (typed t)"
      unfolding decodeBool_def by (rule exact_map [OF exact_wrap [OF Bool_exact]]) (auto simp: TBool typed_simps)
    moreover have "decode n t = decodeBool" using TBool by (intro ext) (simp add: m)
    ultimately show ?thesis by simp
  next
    case TString
    have "exact R decodeString encoding (typed t)"
      unfolding decodeString_def by (rule exact_map [OF exact_wrap [OF Bytes_exact]]) (auto simp: TString typed_simps)
    moreover have "decode n t = decodeString" using TString by (intro ext) (simp add: m)
    ultimately show ?thesis by simp
  next
    case TBigInt
    then have "exact R decodeBigInt encoding (typed t)" using decodeBigInt_exact by simp
    moreover have "decode n t = decodeBigInt" using TBigInt by (intro ext) (simp add: m)
    ultimately show ?thesis by simp
  next
    case TByteSlice
    have "exact R decodeByteSlice encoding (typed t)"
      unfolding decodeByteSlice_def by (rule exact_map [OF exact_wrap [OF Bytes_exact]]) (auto simp: TByteSlice typed_simps)
    moreover have "decode n t = decodeByteSlice" using TByteSlice by (intro ext) (simp add: m)
    ultimately show ?thesis by simp
  next
    case (TByteArray k)
    then have "typed t = (\<lambda>v. \<exists>b. v = GBytes b \<and> length b = k)" by (intro ext) (auto simp: typed_simps)
    moreover have "decode n t = decodeByteArray k" using TByteArray by (intro ext) (simp add: m)
    ultimately show ?thesis using ByteArray_exact [of k R] TByteArray less.prems by simp
  next
    case (TSlice t')
    then have "typed t = (\<lambda>v. \<exists>vs. v = GSlice False vs \<and> (\<forall>v\<in>set vs. typed t' v))" by (intro ext) (auto simp: typed_simps)
    moreover have "decode n t = decodeListSlice m t'" using TSlice by (intro ext) (simp add: m)
    moreover have "0 < m" using less.prems(2) TSlice m tsize_pos [of t'] by simp
    ultimately show ?thesis
      using ListSlice_exact [of n t' m R] IH [of t'] less.prems TSlice m by simp
  next
    case (TArray k t')
    then show ?thesis using Array_exact [of n t' m R k] IH [of t'] less.prems m by (simp del: decode.simps)
  next
    case (TStruct ts)
    have "plain t'" if "t' \<in> set ts" for t' using that less.prems(1) TStruct by (simp add: list_all_iff)
    then show ?thesis using Struct_exact [of ts n m R] IH less.prems m TStruct by (simp del: decode.simps)
  next
    case (TPtr t')
    then have "typed t = typed t'" by (intro ext) (simp add: typed_simps)
    moreover have "decode n t = decode m t'" using TPtr by (intro ext) (simp add: m)
    ultimately show ?thesis using IH [of t' m R] less.prems m TPtr by simp
  next
    case TInterface
    then show ?thesis using Interface_exact [of n m R] IH [of TInterface] less.prems m by (simp del: decode.simps)
  qed (use less.prems in auto)
qed

lemma NewStream_ready:
  assumes "length b \<le> max_alloc"
  shows "ready (NewStream b (length b))" "window (NewStream b (length b)) = b" "room (NewStream b (length b)) = length b"
    "\<not> at_end (NewStream b (length b))"
  using assms by (simp_all add: NewStream_def ready_def base_def window_def room_def at_end_def)

lemma DecodeBytes_cases:
  assumes "plain t" "length b \<le> max_alloc" "3 * length b + tsize t \<le> n"
  shows "(\<exists>e s. DecodeBytes n b t = Fail e s) \<or> (\<exists>v s. DecodeBytes n b t = Ret v s \<and> typed t v \<and> b = encoding v)"
    and "typed t v \<Longrightarrow> b = encoding v \<Longrightarrow> \<exists>s. DecodeBytes n b t = Ret v s"
proof -
  note s = NewStream_ready [OF assms(2)]
  have ex: "exact (length b) (decode n t) encoding (typed t)" using assms by (intro decode_exact)
  have r: "returns (decode n t) encoding (typed t) (NewStream b (length b)) \<or> fails (decode n t) (NewStream b (length b))"
    using exactD(2) [OF ex s(1)] s by simp
  have ret: "\<exists>s. DecodeBytes n b t = (if w = [] then Ret v s else Fail ErrMoreThanOneValue s)"
    if "decode n t (NewStream b (length b)) = Ret v s'" "moved (length (encoding v)) (NewStream b (length b)) s'"
      "b = encoding v @ w" for v s' w
  proof -
    have "s_input s' = w" using that(2,3) by (simp add: moved_def NewStream_def)
    with that(1) show ?thesis by (simp add: DecodeBytes_def rbind_def)
  qed
  show "(\<exists>e s. DecodeBytes n b t = Fail e s) \<or> (\<exists>v s. DecodeBytes n b t = Ret v s \<and> typed t v \<and> b = encoding v)"
  proof (cases "fails (decode n t) (NewStream b (length b))")
    case True
    then show ?thesis by (auto simp: fails_def DecodeBytes_def rbind_def)
  next
    case False
    with r obtain v s' w where v: "decode n t (NewStream b (length b)) = Ret v s'" "typed t v" "b = encoding v @ w"
      "moved (length (encoding v)) (NewStream b (length b)) s'"
      by (auto simp: returns_def s)
    then show ?thesis using ret [OF v(1,4,3)] by (cases "w = []") auto
  qed
  assume v: "typed t v" "b = encoding v"
  have w: "window (NewStream b (length b)) = encoding v @ []" using s(2) v(2) by simp
  obtain s' where s': "decode n t (NewStream b (length b)) = Ret v s'"
    using exactD(3) [OF ex s(1) _ v(1) w] s by auto
  then have "moved (length (encoding v)) (NewStream b (length b)) s'"
    using r by (auto simp: returns_def fails_def)
  then show "\<exists>s. DecodeBytes n b t = Ret v s" using ret [OF s', of "[]"] v(2) by simp
qed

lemma typed_not_negative: "typed t v \<Longrightarrow> \<not> has_negative v"
proof (induction rule: typed.induct)
  case (typed_struct ts vs)
  then show ?case by (auto simp: list_all2_conv_all_nth list_ex_iff in_set_conv_nth)
qed (auto simp: list_ex_iff)

section \<open>Properties\<close>





text \<open>
  C35. Decoding a slice of one-byte arrays from the two bytes C1 00, the encoding of \<^verbatim>\<open>[][1]byte{{0}}\<close>, never
  ends, with any fuel: the decoder of the array ignores the error of \<^verbatim>\<open>Uint\<close> for a zero byte, which leaves the byte
  unread, so that the loop over the elements sees it again and again.
\<close>

theorem zero_byte_array_never_ends: "DecodeBytes n [0xC1, 0x00] (TSlice (TByteArray 1)) = OutOfFuel"
proof -
  define s where "s = \<lparr>s_input = [], s_remaining = 0, s_limited = True, s_kind = Some KByte, s_size = 0,
    s_byteval = 0, s_kinderr = None, s_stack = [(1, 1)]\<rparr>"
  have again: "decodeByteArray 1 s = Ret (GBytes [0]) s"
    by (simp add: decodeByteArray_def rbind_def s_Kind_def s_uint_def s_def)
  have elems: "decodeSliceElems m (TByteArray 1) s = OutOfFuel" for m
  proof (induction m rule: less_induct)
    case (less m)
    show ?case
    proof (cases m)
      case (Suc k)
      then show ?thesis using less.IH [of k] again by (cases k) (simp_all add: rbind_def)
    qed simp
  qed
  define s0 where "s0 = \<lparr>s_input = [0x00], s_remaining = 1, s_limited = True, s_kind = None, s_size = 0,
    s_byteval = 0, s_kinderr = None, s_stack = [(0, 1)]\<rparr>"
  have list: "wrap s_List (NewStream [0xC1, 0x00] 2) = Ret 1 s0"
    by (simp add: wrap_def s_List_def s_Kind_def s_readKind_def readByte_def willRead_def rbind_def rearm_def
        NewStream_def Let_def s0_def word_less_nat_alt)
  have first: "decodeByteArray 1 s0 = Ret (GBytes [0]) s"
    by (simp add: decodeByteArray_def rbind_def s_Kind_def s_readKind_def readByte_def willRead_def rearm_def
        s_uint_def s0_def s_def Let_def word_less_nat_alt)
  have "decodeSliceElems m (TByteArray 1) s0 = OutOfFuel" for m
  proof (cases m)
    case (Suc k)
    then show ?thesis using elems [of k] first by (cases k) (simp_all add: rbind_def)
  qed simp
  then have "decodeListSlice m (TByteArray 1) (NewStream [0xC1, 0x00] 2) = OutOfFuel" for m
    using list by (cases m) (simp_all add: rbind_def)
  then have "decode n (TSlice (TByteArray 1)) (NewStream [0xC1, 0x00] 2) = OutOfFuel"
    by (cases n) simp_all
  then show ?thesis by (simp add: DecodeBytes_def rbind_def numeral_2_eq_2)
qed


end
