(* ===== verification/Transaction.thy ===== *)
theory Transaction
  imports Rlp_Decode Vm_Analysis
begin

text \<open>
  \<^verbatim>\<open>core/types/transaction.go\<close> and \<^verbatim>\<open>transaction_signing.go\<close>: transactions, their hashes and the two signers.
  Keccak-256 is the parameter \<open>K\<close>; public key recovery and signing, done by the C library behind package
  \<^verbatim>\<open>secp256k1\<close>, are the parameters \<open>Ecrecover\<close> and \<open>Sign\<close>. The caches of hash and size hold what
  is computed from the data and are left out; the cache of the sender is a field.
\<close>

section \<open>Signatures\<close>

definition secp256k1_N :: int where
  "secp256k1_N = 0xfffffffffffffffffffffffffffffffebaaedce6af48a03bbfd25e8cd0364141"

definition secp256k1_HalfN :: int where
  "secp256k1_HalfN = 0x7fffffffffffffffffffffffffffffff5d576e7357a4501ddfe92f46681b20a0"

definition ValidateSignatureValues :: "byte \<Rightarrow> int \<Rightarrow> int \<Rightarrow> bool \<Rightarrow> bool" where
  "ValidateSignatureValues v r s homestead =
     (if big_Sign r \<le> 0 \<or> big_Sign s \<le> 0 then False
      else if homestead \<and> s > secp256k1_HalfN then False
      else if s \<ge> secp256k1_N then False
      else r < secp256k1_N \<and> (v = 27 \<or> v = 28))"

text \<open>The errors of this file and those of the recovery.\<close>

datatype sig_error = ErrInvalidSig | ErrInvalidChainId | InvalidPublicKey | EcrecoverError string

section \<open>Transactions\<close>

text \<open>A \<^verbatim>\<open>ChainIdSigner\<close> holds the chain id and its double.\<close>

datatype Signer = BasicSigner | ChainIdSigner int int

definition NewChainIdSigner :: "int \<Rightarrow> Signer" where
  "NewChainIdSigner chainId = ChainIdSigner chainId (chainId * 2)"

fun Signer_Equal :: "Signer \<Rightarrow> Signer \<Rightarrow> bool" where
  "Signer_Equal (ChainIdSigner c _) s2 = (case s2 of ChainIdSigner c' _ \<Rightarrow> c' = c | BasicSigner \<Rightarrow> False)"
| "Signer_Equal BasicSigner s2 = (case s2 of BasicSigner \<Rightarrow> True | ChainIdSigner _ _ \<Rightarrow> False)"

text \<open>No recipient means contract creation.\<close>

record txdata =
  AccountNonce :: uint64
  tx_Price :: int
  tx_GasLimit :: int
  Recipient :: "address option"
  Amount :: int
  Payload :: bytes
  tx_V :: int
  tx_R :: int
  tx_S :: int

record Transaction =
  tx_signer :: Signer
  tx_data :: txdata
  tx_from :: "(Signer \<times> address) option"

definition NewContractCreation :: "uint64 \<Rightarrow> int \<Rightarrow> int \<Rightarrow> int \<Rightarrow> bytes \<Rightarrow> Transaction" where
  "NewContractCreation nonce amount gasLimit gasPrice data =
     \<lparr>tx_signer = BasicSigner, tx_data =
        \<lparr>AccountNonce = nonce, tx_Price = gasPrice, tx_GasLimit = gasLimit, Recipient = None, Amount = amount,
         Payload = data, tx_V = 0, tx_R = 0, tx_S = 0\<rparr>, tx_from = None\<rparr>"

definition NewTransaction :: "uint64 \<Rightarrow> address \<Rightarrow> int option \<Rightarrow> int option \<Rightarrow> int option \<Rightarrow> bytes \<Rightarrow> Transaction" where
  "NewTransaction nonce to amount gasLimit gasPrice data =
     \<lparr>tx_signer = BasicSigner, tx_data =
        \<lparr>AccountNonce = nonce, tx_Price = case_option 0 id gasPrice, tx_GasLimit = case_option 0 id gasLimit,
         Recipient = Some to, Amount = case_option 0 id amount, Payload = data, tx_V = 0, tx_R = 0, tx_S = 0\<rparr>,
      tx_from = None\<rparr>"

definition SetSigner :: "Transaction \<Rightarrow> Signer \<Rightarrow> Transaction" where
  "SetSigner tx s = tx\<lparr>tx_signer := s\<rparr>"

text \<open>\<^verbatim>\<open>Cost\<close> is amount + gasprice * gaslimit.\<close>

definition tx_Cost :: "Transaction \<Rightarrow> int" where
  "tx_Cost tx = tx_Price (tx_data tx) * tx_GasLimit (tx_data tx) + Amount (tx_data tx)"

section \<open>The parameter V\<close>

definition isProtectedV :: "int \<Rightarrow> bool" where
  "isProtectedV V = (if big_BitLen V \<le> 8 then big_Uint64 V \<noteq> 27 \<and> big_Uint64 V \<noteq> 28 else True)"

definition deriveChainId :: "int \<Rightarrow> int" where
  "deriveChainId v =
     (if big_BitLen v \<le> 64 then
        (let v = big_Uint64 v in if v = 27 \<or> v = 28 then 0 else uint ((v - 35) div 2))
      else big_Div (v - 35) 2)"

text \<open>The conversion to a byte keeps the low eight bits.\<close>

definition normaliseV :: "Signer \<Rightarrow> int \<Rightarrow> byte" where
  "normaliseV s v =
     (case s of
        ChainIdSigner chainId chainIdMul \<Rightarrow>
          (let stdV = (big_BitLen v \<le> 8 \<and> (big_Uint64 v = 27 \<or> big_Uint64 v = 28)) in
           if big_BitLen chainId > 0 \<and> \<not> stdV then ucast (big_Uint64 (v - chainIdMul) - 35 + 27)
           else ucast (big_Uint64 v))
      | BasicSigner \<Rightarrow> ucast (big_Uint64 v))"

definition tx_ChainId :: "Transaction \<Rightarrow> int" where
  "tx_ChainId tx = deriveChainId (tx_V (tx_data tx))"

definition Protected :: "Transaction \<Rightarrow> bool" where
  "Protected tx = isProtectedV (tx_V (tx_data tx))"

definition deriveSigner :: "int \<Rightarrow> Signer" where
  "deriveSigner V =
     (if big_Sign V \<noteq> 0 \<and> isProtectedV V then NewChainIdSigner (deriveChainId V) else BasicSigner)"

section \<open>Hashes\<close>

text \<open>The error of \<^verbatim>\<open>rlp.Encode\<close> is ignored; nothing has been written to the hash then.\<close>

definition rlpHash :: "(bytes \<Rightarrow> hash) \<Rightarrow> goval \<Rightarrow> hash option" where
  "rlpHash K x = map_option (case_sum (\<lambda>_. K []) K) (Encode x)"

text \<open>The recipient is a pointer to a byte array, nil for a contract creation.\<close>

definition Recipient_value :: "address option \<Rightarrow> goval" where
  "Recipient_value r = (case r of None \<Rightarrow> GNilPtr True | Some a \<Rightarrow> GBytes (Address_Bytes a))"

definition signed_fields :: "txdata \<Rightarrow> goval list" where
  "signed_fields d =
     [GUint (AccountNonce d), GBigInt (Some (tx_Price d)), GBigInt (Some (tx_GasLimit d)),
      Recipient_value (Recipient d), GBigInt (Some (Amount d)), GBytes (Payload d)]"

definition txdata_value :: "txdata \<Rightarrow> goval" where
  "txdata_value d =
     GStruct (signed_fields d @ [GBigInt (Some (tx_V d)), GBigInt (Some (tx_R d)), GBigInt (Some (tx_S d))])"

definition tx_Hash :: "(bytes \<Rightarrow> hash) \<Rightarrow> Transaction \<Rightarrow> hash option" where
  "tx_Hash K tx = rlpHash K (txdata_value (tx_data tx))"

fun Signer_Hash :: "(bytes \<Rightarrow> hash) \<Rightarrow> Signer \<Rightarrow> Transaction \<Rightarrow> hash option" where
  "Signer_Hash K (ChainIdSigner chainId _) tx =
     rlpHash K (GSlice False (signed_fields (tx_data tx) @ [GBigInt (Some chainId), GUint 0, GUint 0]))"
| "Signer_Hash K BasicSigner tx = rlpHash K (GSlice False (signed_fields (tx_data tx)))"

section \<open>The sender\<close>

text \<open>
  \<^verbatim>\<open>copy(sig[32-len(R):32], R)\<close> and the like: a negative index, which the values excluded by
  \<^verbatim>\<open>ValidateSignatureValues\<close> would have, is a panic.
\<close>

definition put_at :: "bytes \<Rightarrow> nat \<Rightarrow> bytes \<Rightarrow> bytes" where
  "put_at xs i ys = take i xs @ ys @ drop (i + length ys) xs"

definition put_signature :: "int \<Rightarrow> int \<Rightarrow> byte \<Rightarrow> bytes option" where
  "put_signature r s v =
     (let R = big_Bytes r; S = big_Bytes s in
      if 32 < length R \<or> 64 < length S then None
      else Some ((put_at (put_at (replicate 65 0) (32 - length R) R) (64 - length S) S)[64 := v]))"

text \<open>What both signers do with validated values.\<close>

definition recover_plain ::
  "(bytes \<Rightarrow> bytes \<Rightarrow> string + bytes) \<Rightarrow> hash option \<Rightarrow> int \<Rightarrow> int \<Rightarrow> byte \<Rightarrow> (sig_error + bytes) option" where
  "recover_plain Ecrecover h r s V = do {
     sig \<leftarrow> put_signature r s (V - 27);
     hash \<leftarrow> h;
     Some (case Ecrecover (Hash_Bytes hash) sig of
             Inl e \<Rightarrow> Inl (EcrecoverError e)
           | Inr pub \<Rightarrow> if length pub = 0 \<or> hd pub \<noteq> 4 then Inl InvalidPublicKey else Inr pub)
   }"

definition Basic_PublicKey ::
  "(bytes \<Rightarrow> hash) \<Rightarrow> (bytes \<Rightarrow> bytes \<Rightarrow> string + bytes) \<Rightarrow> Transaction \<Rightarrow> (sig_error + bytes) option" where
  "Basic_PublicKey K Ecrecover tx =
     (let d = tx_data tx; V = ucast (big_Uint64 (tx_V d)) in
      if big_BitLen (tx_V d) > 8 then Some (Inl ErrInvalidSig)
      else if \<not> ValidateSignatureValues V (tx_R d) (tx_S d) False then Some (Inl ErrInvalidSig)
      else recover_plain Ecrecover (Signer_Hash K BasicSigner tx) (tx_R d) (tx_S d) V)"

fun PublicKey ::
  "(bytes \<Rightarrow> hash) \<Rightarrow> (bytes \<Rightarrow> bytes \<Rightarrow> string + bytes) \<Rightarrow> Signer \<Rightarrow> Transaction \<Rightarrow>
   (sig_error + bytes) option" where
  "PublicKey K Ecrecover (ChainIdSigner chainId chainIdMul) tx =
     (let s = ChainIdSigner chainId chainIdMul; d = tx_data tx; V = normaliseV s (tx_V d) in
      if \<not> Protected tx then Basic_PublicKey K Ecrecover tx
      else if tx_ChainId tx \<noteq> chainId then Some (Inl ErrInvalidChainId)
      else if \<not> ValidateSignatureValues V (tx_R d) (tx_S d) True then Some (Inl ErrInvalidSig)
      else recover_plain Ecrecover (Signer_Hash K s tx) (tx_R d) (tx_S d) V)"
| "PublicKey K Ecrecover BasicSigner tx = Basic_PublicKey K Ecrecover tx"

text \<open>The address of an uncompressed public key: the last 20 bytes of its hash.\<close>

definition pubkey_address :: "(bytes \<Rightarrow> hash) \<Rightarrow> bytes \<Rightarrow> address" where
  "pubkey_address K pubkey = BytesToAddress (drop 12 (Hash_Bytes (K (tl pubkey))))"

definition derive_sender ::
  "(bytes \<Rightarrow> hash) \<Rightarrow> (bytes \<Rightarrow> bytes \<Rightarrow> string + bytes) \<Rightarrow> Signer \<Rightarrow> Transaction \<Rightarrow>
   ((sig_error + address) \<times> Transaction) option" where
  "derive_sender K Ecrecover signer tx = do {
     r \<leftarrow> PublicKey K Ecrecover signer tx;
     Some (case r of
             Inl err \<Rightarrow> (Inl err, tx)
           | Inr pubkey \<Rightarrow>
               (let addr = pubkey_address K pubkey in (Inr addr, tx\<lparr>tx_from := Some (signer, addr)\<rparr>)))
   }"

text \<open>The cached sender is used when it was derived with an equal signer.\<close>

definition Sender ::
  "(bytes \<Rightarrow> hash) \<Rightarrow> (bytes \<Rightarrow> bytes \<Rightarrow> string + bytes) \<Rightarrow> Signer \<Rightarrow> Transaction \<Rightarrow>
   ((sig_error + address) \<times> Transaction) option" where
  "Sender K Ecrecover signer tx =
     (case tx_from tx of
        Some (s, from) \<Rightarrow>
          if Signer_Equal s signer then Some (Inr from, tx) else derive_sender K Ecrecover signer tx
      | None \<Rightarrow> derive_sender K Ecrecover signer tx)"

definition tx_From ::
  "(bytes \<Rightarrow> hash) \<Rightarrow> (bytes \<Rightarrow> bytes \<Rightarrow> string + bytes) \<Rightarrow> Transaction \<Rightarrow>
   ((sig_error + address) \<times> Transaction) option" where
  "tx_From K Ecrecover tx = Sender K Ecrecover (tx_signer tx) tx"

section \<open>Signing\<close>

text \<open>\<^verbatim>\<open>sig[64] + 35\<close> and \<^verbatim>\<open>sig[64] + 27\<close> are additions of bytes. A signature of another length is a panic.\<close>

fun WithSignature :: "Signer \<Rightarrow> Transaction \<Rightarrow> bytes \<Rightarrow> Transaction option" where
  "WithSignature (ChainIdSigner chainId chainIdMul) tx sig =
     (if length sig \<noteq> 65 then None
      else Some \<lparr>tx_signer = tx_signer tx, tx_data = (tx_data tx)
        \<lparr>tx_R := big_SetBytes (take 32 sig), tx_S := big_SetBytes (take 32 (drop 32 sig)),
         tx_V := (if big_BitLen chainId > 0 then uint (sig ! 64 + 35) + chainIdMul
                  else big_SetBytes [sig ! 64])\<rparr>, tx_from = None\<rparr>)"
| "WithSignature BasicSigner tx sig =
     (if length sig \<noteq> 65 then None
      else Some \<lparr>tx_signer = tx_signer tx, tx_data = (tx_data tx)
        \<lparr>tx_R := big_SetBytes (take 32 sig), tx_S := big_SetBytes (take 32 (drop 32 sig)),
         tx_V := big_SetBytes [sig ! 64 + 27]\<rparr>, tx_from = None\<rparr>)"

definition SignECDSA ::
  "(bytes \<Rightarrow> hash) \<Rightarrow> (bytes \<Rightarrow> 'key \<Rightarrow> string + bytes) \<Rightarrow> Signer \<Rightarrow> Transaction \<Rightarrow> 'key \<Rightarrow>
   (string + Transaction) option" where
  "SignECDSA K Sign s tx prv = do {
     h \<leftarrow> Signer_Hash K s tx;
     (case Sign (Hash_Bytes h) prv of
        Inl err \<Rightarrow> Some (Inl err)
      | Inr sig \<Rightarrow> map_option Inr (WithSignature s tx sig))
   }"

section \<open>Bytes of a signature\<close>

lemma leading_zeros:
  obtains k bs' where "bs = replicate k (0 :: byte) @ bs'" "bs' = [] \<or> hd bs' \<noteq> 0"
proof -
  have "takeWhile (\<lambda>b. b = 0) bs = replicate (length (takeWhile (\<lambda>b. b = 0) bs)) 0"
    by (induction bs) auto
  then have "bs = replicate (length (takeWhile (\<lambda>b. b = 0) bs)) 0 @ dropWhile (\<lambda>b. b = 0) bs"
    using takeWhile_dropWhile_id [of "\<lambda>b. b = 0" bs] by simp
  moreover have "dropWhile (\<lambda>b. b = 0) bs = [] \<or> hd (dropWhile (\<lambda>b. b = 0) bs) \<noteq> 0"
    using hd_dropWhile [of "\<lambda>b. b = 0" bs] by blast
  ultimately show ?thesis by (rule that)
qed

lemma big_Bytes_SetBytes_pad:
  "length (big_Bytes (big_SetBytes bs)) \<le> length bs"
  "replicate (length bs - length (big_Bytes (big_SetBytes bs))) 0 @ big_Bytes (big_SetBytes bs) = bs"
proof -
  obtain k bs' where bs: "bs = replicate k 0 @ bs'" "bs' = [] \<or> hd bs' \<noteq> 0" by (rule leading_zeros)
  have "big_Bytes (big_SetBytes bs) = bs'"
    using nat_bytes_SetBytes [OF bs(2)] by (simp add: bs(1) big_SetBytes_append big_Bytes_def)
  then show "length (big_Bytes (big_SetBytes bs)) \<le> length bs"
    "replicate (length bs - length (big_Bytes (big_SetBytes bs))) 0 @ big_Bytes (big_SetBytes bs) = bs"
    by (simp_all add: bs(1))
qed

lemma put_signature_bytes:
  assumes "length sig = 65"
  shows "put_signature (big_SetBytes (take 32 sig)) (big_SetBytes (take 32 (drop 32 sig))) (sig ! 64) = Some sig"
proof -
  define rs where "rs = take 32 sig"
  define ss where "ss = take 32 (drop 32 sig)"
  have len: "length rs = 32" "length ss = 32" using assms by (simp_all add: rs_def ss_def)
  have sig: "sig = rs @ ss @ [sig ! 64]"
  proof -
    have "drop 32 sig = ss @ drop 64 sig" using append_take_drop_id [of 32 "drop 32 sig"] by (simp add: ss_def)
    then have "sig = rs @ ss @ drop 64 sig" using append_take_drop_id [of 32 sig] by (simp add: rs_def)
    moreover have "drop 64 sig = [sig ! 64]" using assms Cons_nth_drop_Suc [of 64 sig] by simp
    ultimately show ?thesis by simp
  qed
  note R = big_Bytes_SetBytes_pad [of rs, unfolded len] and S = big_Bytes_SetBytes_pad [of ss, unfolded len]
  let ?R = "big_Bytes (big_SetBytes rs)" and ?S = "big_Bytes (big_SetBytes ss)"
  have 1: "put_at (replicate 65 0) (32 - length ?R) ?R = rs @ replicate 33 0"
  proof -
    have "take (32 - length ?R) (replicate 65 (0::byte)) = replicate (32 - length ?R) 0" by simp
    moreover have "32 - length ?R + length ?R = 32" using R(1) by simp
    ultimately show ?thesis using R(2) by (simp add: put_at_def)
  qed
  have 2: "put_at (rs @ replicate 33 0) (64 - length ?S) ?S = rs @ ss @ [0]"
  proof -
    have e: "64 - length ?S + length ?S = 64" "64 - length ?S = 32 + (32 - length ?S)" using S(1) by simp_all
    have "take (64 - length ?S) (rs @ replicate 33 0) = rs @ replicate (32 - length ?S) 0"
      unfolding e(2) by (simp add: len)
    moreover have "drop 64 (rs @ replicate 33 (0::byte)) = [0]" by (simp add: len)
    ultimately show ?thesis using S(2) by (simp add: put_at_def e(1))
  qed
  have "(rs @ ss @ [0])[64 := sig ! 64] = sig"
    by (subst (2) sig) (simp add: list_update_append len)
  with R(1) S(1) show ?thesis
    by (simp add: put_signature_def 1 2 flip: rs_def ss_def)
qed

section \<open>The parameter V of a signed transaction\<close>

lemma big_BitLen_le: "0 \<le> x \<Longrightarrow> big_BitLen x \<le> k \<longleftrightarrow> x < 2 ^ k"
  by (simp add: big_BitLen_def nat_BitLen_bound nat_less_iff)

lemma uint_big_Uint64: "0 \<le> x \<Longrightarrow> x < 2 ^ 64 \<Longrightarrow> uint (big_Uint64 x) = x"
  by (simp add: big_Uint64_def uint_of_int_small)

lemma deriveChainId_V:
  assumes "0 < c" "b = 0 \<or> b = 1"
  shows "deriveChainId (b + 35 + c * 2) = c"
proof (cases "b + 35 + c * 2 < 2 ^ 64")
  case True
  let ?v = "big_Uint64 (b + 35 + c * 2)"
  have u: "uint ?v = b + 35 + c * 2" using assms True by (intro uint_big_Uint64) auto
  then have "?v \<noteq> 27" "?v \<noteq> 28" using assms by auto
  moreover have "uint (?v - 35) = b + c * 2"
    using u assms True by (auto simp: uint_sub_if_size)
  ultimately show ?thesis
    using assms True by (auto simp: deriveChainId_def big_BitLen_le uint_div Let_def)
next
  case False
  then show ?thesis
    using assms by (auto simp: deriveChainId_def big_BitLen_le big_Div_def)
qed

lemma isProtectedV_V:
  assumes "0 < c" "b = 0 \<or> b = 1"
  shows "isProtectedV (b + 35 + c * 2)"
proof (cases "b + 35 + c * 2 < 2 ^ 8")
  case True
  have "uint (big_Uint64 (b + 35 + c * 2)) = b + 35 + c * 2" using assms True by (intro uint_big_Uint64) auto
  then have "big_Uint64 (b + 35 + c * 2) \<noteq> 27" "big_Uint64 (b + 35 + c * 2) \<noteq> 28" using assms by auto
  then show ?thesis by (simp add: isProtectedV_def)
next
  case False
  then show ?thesis using assms by (auto simp: isProtectedV_def big_BitLen_le)
qed

lemma normaliseV_V:
  assumes "0 < c" "b = 0 \<or> b = 1"
  shows "normaliseV (NewChainIdSigner c) (b + 35 + c * 2) = word_of_int b + 27"
proof -
  have "isProtectedV (b + 35 + c * 2)" using assms by (rule isProtectedV_V)
  then have "\<not> (big_BitLen (b + 35 + c * 2) \<le> 8 \<and>
      (big_Uint64 (b + 35 + c * 2) = 27 \<or> big_Uint64 (b + 35 + c * 2) = 28))"
    by (auto simp: isProtectedV_def)
  moreover have "0 < big_BitLen c" using assms(1) big_BitLen_le [of c 0] by fastforce
  ultimately have "normaliseV (NewChainIdSigner c) (b + 35 + c * 2) = ucast (big_Uint64 (b + 35) - 35 + 27)"
    by (simp add: normaliseV_def NewChainIdSigner_def)
  then show ?thesis using assms(2) by (auto simp: big_Uint64_def)
qed

section \<open>The cache of the sender\<close>

text \<open>A cached sender was derived with the signer it is kept with, which has the double of its chain id.\<close>

definition signer_ok :: "Signer \<Rightarrow> bool" where
  "signer_ok s \<longleftrightarrow> (case s of ChainIdSigner c m \<Rightarrow> m = c * 2 | BasicSigner \<Rightarrow> True)"

definition from_ok :: "(bytes \<Rightarrow> hash) \<Rightarrow> (bytes \<Rightarrow> bytes \<Rightarrow> string + bytes) \<Rightarrow> Transaction \<Rightarrow> bool" where
  "from_ok K Ecrecover tx \<longleftrightarrow>
     (case tx_from tx of
        Some (s, a) \<Rightarrow> signer_ok s \<and> map_option fst (derive_sender K Ecrecover s tx) = Some (Inr a)
      | None \<Rightarrow> True)"

lemma Signer_Equal_ok: "signer_ok s \<Longrightarrow> signer_ok s' \<Longrightarrow> Signer_Equal s s' \<longleftrightarrow> s = s'"
  by (cases s; cases s') (auto simp: signer_ok_def)

lemma PublicKey_from [simp]: "PublicKey K Ecrecover s (tx\<lparr>tx_from := x\<rparr>) = PublicKey K Ecrecover s tx"
proof -
  have "Signer_Hash K sg (tx\<lparr>tx_from := x\<rparr>) = Signer_Hash K sg tx" for sg by (cases sg) simp_all
  moreover have "Protected (tx\<lparr>tx_from := x\<rparr>) = Protected tx" "tx_ChainId (tx\<lparr>tx_from := x\<rparr>) = tx_ChainId tx"
    by (simp_all add: Protected_def tx_ChainId_def)
  ultimately show ?thesis by (cases s) (simp_all add: Basic_PublicKey_def Let_def)
qed

text \<open>
  \<^verbatim>\<open>Sender\<close> returns what deriving the sender anew would, and keeps the cache in order; so the sender is a
  function of the signer and of the data.
\<close>

lemma Sender_cache:
  assumes "from_ok K Ecrecover tx" "signer_ok signer" "Sender K Ecrecover signer tx = Some (r, tx')"
  shows "map_option fst (derive_sender K Ecrecover signer tx) = Some r" "from_ok K Ecrecover tx'"
    "tx_data tx' = tx_data tx" "tx_signer tx' = tx_signer tx"
proof -
  have derive: "map_option fst (derive_sender K Ecrecover signer tx) = Some r \<and> from_ok K Ecrecover tx' \<and>
      tx_data tx' = tx_data tx \<and> tx_signer tx' = tx_signer tx"
    if "derive_sender K Ecrecover signer tx = Some (r, tx')"
  proof -
    from that obtain p where p: "PublicKey K Ecrecover signer tx = Some p"
      by (auto simp: derive_sender_def elim!: bind_eq_SomeE)
    with that assms(1,2) show ?thesis
      by (cases p) (auto simp: derive_sender_def from_ok_def Let_def)
  qed
  have "map_option fst (derive_sender K Ecrecover signer tx) = Some r \<and> from_ok K Ecrecover tx' \<and>
      tx_data tx' = tx_data tx \<and> tx_signer tx' = tx_signer tx"
  proof (cases "tx_from tx")
    case None
    with assms(3) derive show ?thesis by (simp add: Sender_def)
  next
    case (Some sa)
    then obtain s a where sa: "tx_from tx = Some (s, a)" by (cases sa) auto
    with assms(1,2) have "Signer_Equal s signer \<longleftrightarrow> s = signer" by (simp add: from_ok_def Signer_Equal_ok)
    with sa assms(1,3) derive show ?thesis
      by (cases "s = signer") (auto simp: Sender_def from_ok_def)
  qed
  then show "map_option fst (derive_sender K Ecrecover signer tx) = Some r" "from_ok K Ecrecover tx'"
    "tx_data tx' = tx_data tx" "tx_signer tx' = tx_signer tx" by simp_all
qed

section \<open>The sender of a signed transaction\<close>

lemma rlpHash_eq:
  assumes "length (encoding v) < 2 ^ 64"
  shows "rlpHash K v = Some (if has_negative v then K [] else K (encoding v))"
  using writer_emits [OF assms, of encbuf_empty]
  by (cases "has_negative v") (auto simp: rlpHash_def Encode_def toBytes_emits)

text \<open>
  The signatures that pass \<^verbatim>\<open>ValidateSignatureValues\<close>: both numbers in range, the second in the lower half, and
  the recovery id 0 or 1.
\<close>

definition sig_valid :: "bytes \<Rightarrow> bool" where
  "sig_valid sig \<longleftrightarrow> length sig = 65 \<and> 0 < big_SetBytes (take 32 sig) \<and> big_SetBytes (take 32 sig) < secp256k1_N \<and>
     0 < big_SetBytes (take 32 (drop 32 sig)) \<and> big_SetBytes (take 32 (drop 32 sig)) \<le> secp256k1_HalfN \<and>
     (sig ! 64 = 0 \<or> sig ! 64 = 1)"

lemma recover_plain_sig:
  assumes "length sig = 65" "Ecrecover (Hash_Bytes h) sig = Inr pub" "pub \<noteq> []" "hd pub = 4"
  shows "recover_plain Ecrecover (Some h) (big_SetBytes (take 32 sig)) (big_SetBytes (take 32 (drop 32 sig)))
      (sig ! 64 + 27) = Some (Inr pub)"
  using assms by (simp add: recover_plain_def put_signature_bytes)

lemma Validate_sig_valid:
  assumes "sig_valid sig"
  shows "ValidateSignatureValues (sig ! 64 + 27) (big_SetBytes (take 32 sig)) (big_SetBytes (take 32 (drop 32 sig))) True"
proof -
  have "big_SetBytes (take 32 (drop 32 sig)) < secp256k1_N"
    using assms by (simp add: sig_valid_def secp256k1_HalfN_def secp256k1_N_def)
  with assms show ?thesis
    by (auto simp: sig_valid_def ValidateSignatureValues_def big_Sign_def)
qed

text \<open>The signed transaction has the hash that was signed: V, R and S do not enter it.\<close>

lemma Signer_Hash_signature [simp]:
  "tx_data tx' = (tx_data tx)\<lparr>tx_R := r, tx_S := s, tx_V := v\<rparr> \<Longrightarrow> Signer_Hash K sg tx' = Signer_Hash K sg tx"
  by (cases sg) (simp_all add: signed_fields_def)

lemma WithSignature_chain:
  assumes "0 < c" "sig_valid sig"
  obtains tx' b where "WithSignature (NewChainIdSigner c) tx sig = Some tx'" "tx_from tx' = None"
    "b = 0 \<or> b = 1" "sig ! 64 = word_of_int b"
    "tx_data tx' = (tx_data tx)\<lparr>tx_R := big_SetBytes (take 32 sig), tx_S := big_SetBytes (take 32 (drop 32 sig)),
       tx_V := b + 35 + c * 2\<rparr>"
proof -
  have "0 < big_BitLen c" using assms(1) big_BitLen_le [of c 0] by fastforce
  moreover obtain b :: int where b: "b = 0 \<or> b = 1" "sig ! 64 = word_of_int b"
    using assms(2) unfolding sig_valid_def by (metis of_int_0 of_int_1)
  moreover have "uint (sig ! 64 + 35) = b + 35" using b by auto
  ultimately show ?thesis
    using assms(2) that [of _ b] by (simp add: NewChainIdSigner_def sig_valid_def)
qed

lemma Basic_refuses_chain:
  assumes "0 < c" "b = 0 \<or> b = 1" "tx_V (tx_data tx) = b + 35 + c * 2"
  shows "Basic_PublicKey K Ecrecover tx = Some (Inl ErrInvalidSig)"
proof (cases "b + 35 + c * 2 < 2 ^ 8")
  case True
  let ?V = "ucast (big_Uint64 (b + 35 + c * 2)) :: byte"
  have "uint ?V = b + 35 + c * 2"
    using assms(1,2) True uint_big_Uint64 [of "b + 35 + c * 2"] by (auto simp: unsigned_ucast_eq take_bit_eq_mod)
  then have "?V \<noteq> 27" "?V \<noteq> 28" using assms(1,2) by auto
  then show ?thesis
    by (simp add: Basic_PublicKey_def ValidateSignatureValues_def assms(3) Let_def)
next
  case False
  then have "8 < big_BitLen (b + 35 + c * 2)"
    using assms(1,2) big_BitLen_le [of "b + 35 + c * 2" 8] by linarith
  then show ?thesis by (simp add: Basic_PublicKey_def assms(3))
qed

text \<open>
  C16. Replay protection: a transaction signed for a chain id other than 0 belongs to the key that signed it, and
  to one chain only. \<^verbatim>\<open>SignECDSA\<close> of the signer of the chain returns a transaction from which \<^verbatim>\<open>Sender\<close>, with the same
  signer, derives the address of the public key. The signer of any other chain id refuses it with
  \<^verbatim>\<open>ErrInvalidChainId\<close>, and the signer without a chain id with \<^verbatim>\<open>ErrInvalidSig\<close>.
\<close>

theorem signed_for_one_chain:
  assumes "0 < c" "Signer_Hash K (NewChainIdSigner c) tx = Some h" "Sign (Hash_Bytes h) prv = Inr sig"
    "sig_valid sig" "Ecrecover (Hash_Bytes h) sig = Inr pub" "pub \<noteq> []" "hd pub = 4"
  shows "\<exists>tx'. SignECDSA K Sign (NewChainIdSigner c) tx prv = Some (Inr tx') \<and>
    map_option fst (Sender K Ecrecover (NewChainIdSigner c) tx') = Some (Inr (pubkey_address K pub)) \<and>
    (\<forall>c'. c' \<noteq> c \<longrightarrow>
      map_option fst (Sender K Ecrecover (NewChainIdSigner c') tx') = Some (Inl ErrInvalidChainId)) \<and>
    map_option fst (Sender K Ecrecover BasicSigner tx') = Some (Inl ErrInvalidSig)"
proof -
  obtain tx' b where tx': "WithSignature (NewChainIdSigner c) tx sig = Some tx'" "tx_from tx' = None"
    "b = 0 \<or> b = 1" "sig ! 64 = word_of_int b"
    "tx_data tx' = (tx_data tx)\<lparr>tx_R := big_SetBytes (take 32 sig), tx_S := big_SetBytes (take 32 (drop 32 sig)),
       tx_V := b + 35 + c * 2\<rparr>"
    by (rule WithSignature_chain [OF assms(1,4), of tx])
  have P: "Protected tx'" "tx_ChainId tx' = c"
    using isProtectedV_V [OF assms(1) tx'(3)] deriveChainId_V [OF assms(1) tx'(3)]
    by (simp_all add: Protected_def tx_ChainId_def tx'(5))
  have "PublicKey K Ecrecover (NewChainIdSigner c) tx' = Some (Inr pub)"
    using P normaliseV_V [OF assms(1) tx'(3)] Validate_sig_valid [OF assms(4)]
      recover_plain_sig [where Ecrecover = Ecrecover, OF _ assms(5-7)] assms(2,4) Signer_Hash_signature [OF tx'(5), of K "NewChainIdSigner c"]
    by (simp add: NewChainIdSigner_def tx'(4,5) sig_valid_def)
  moreover have "PublicKey K Ecrecover (NewChainIdSigner c') tx' = Some (Inl ErrInvalidChainId)" if "c' \<noteq> c" for c'
    using P that by (simp add: NewChainIdSigner_def)
  moreover have "Basic_PublicKey K Ecrecover tx' = Some (Inl ErrInvalidSig)"
    by (rule Basic_refuses_chain [OF assms(1) tx'(3)]) (simp add: tx'(5))
  ultimately show ?thesis
    using assms(2,3) tx'(1,2) by (simp add: SignECDSA_def Sender_def derive_sender_def Let_def)
qed

text \<open>A signature, a key and a hash function for the example.\<close>

definition ex_sig :: bytes where
  "ex_sig = replicate 31 0 @ [5] @ replicate 31 0 @ [7] @ [1]"

definition ex_tx :: Transaction where
  "ex_tx = NewTransaction 0 2 (Some 10) (Some 21000) (Some 1) []"

theorem signed_for_one_chain_witness:
  "\<exists>tx'. SignECDSA (\<lambda>b. of_nat (length b)) (\<lambda>h key. Inr ex_sig) (NewChainIdSigner 24484) ex_tx () = Some (Inr tx') \<and>
    map_option fst (Sender (\<lambda>b. of_nat (length b)) (\<lambda>h s. Inr [4]) (NewChainIdSigner 24484) tx') =
      Some (Inr (pubkey_address (\<lambda>b. of_nat (length b)) [4])) \<and>
    map_option fst (Sender (\<lambda>b. of_nat (length b)) (\<lambda>h s. Inr [4]) (NewChainIdSigner 61) tx') =
      Some (Inl ErrInvalidChainId) \<and>
    map_option fst (Sender (\<lambda>b. of_nat (length b)) (\<lambda>h s. Inr [4]) BasicSigner tx') = Some (Inl ErrInvalidSig)"
proof -
  let ?K = "\<lambda>b :: bytes. of_nat (length b) :: hash"
  let ?v = "GSlice False (signed_fields (tx_data ex_tx) @ [GBigInt (Some 24484), GUint 0, GUint 0])"
  have n: "nat_bytes 21000 = [0x52, 0x08]" "nat_bytes 24484 = [0x5F, 0xA4]" "nat_bytes 10 = [10]" "nat_bytes (Suc 0) = [1]"
    by (simp_all add: nat_bytes.simps)
  have "length (encoding ?v) < 2 ^ 64"
    using length_Address_Bytes [of 2]
    by (simp add: signed_fields_def ex_tx_def NewTransaction_def Recipient_value_def enc_string_def enc_list_def
        header_def big_Bytes_def n)
  then have "\<exists>h. rlpHash ?K ?v = Some h" by (simp add: rlpHash_eq)
  then obtain h where h: "Signer_Hash ?K (NewChainIdSigner 24484) ex_tx = Some h"
    by (auto simp: NewChainIdSigner_def)
  have "sig_valid ex_sig"
    by (simp add: sig_valid_def ex_sig_def secp256k1_N_def secp256k1_HalfN_def big_SetBytes_append nth_append)
  from signed_for_one_chain [where Sign = "\<lambda>h key. Inr ex_sig" and Ecrecover = "\<lambda>h s. Inr [4]" and prv = "()" and pub = "[4]", OF _ h _ this]
  show ?thesis by fastforce
qed

end
