(* ===== verification/Chain_Config.thy ===== *)
theory Chain_Config
  imports Transaction Vm_Types
begin

text \<open>
  \<^verbatim>\<open>core/config.go\<close>: the forks of a chain, the options of their features and what the other components ask the
  configuration. A nil \<^verbatim>\<open>big.Int\<close> is \<open>None\<close>. The first result of the methods that can panic is an \<open>option\<close>.
  The methods of the configuration read the options of a feature without keeping the cache that \<^verbatim>\<open>GetString\<close> and
  \<^verbatim>\<open>GetBigInt\<close> fill; below it is shown that the cache does not change what they read.
\<close>

section \<open>Options of a feature\<close>

text \<open>
  The values of an option: a JSON number is a \<^verbatim>\<open>float64\<close>, given by the integer that its conversion to
  \<^verbatim>\<open>int64\<close> yields; \<^verbatim>\<open>int64\<close> and \<^verbatim>\<open>int\<close> come from Go code. A cached value is a string or a big integer.
\<close>

datatype option_value = OptFloat int | OptInt64 int | OptInt int | OptString string | OptOther

datatype parsed_value = ParsedString string | ParsedBig int

record ForkFeature =
  feature_ID :: string
  Options :: "string \<rightharpoonup> option_value"
  ParsedOptions :: "(string \<rightharpoonup> parsed_value) option"

text \<open>
  \<^verbatim>\<open>SetString(value, 0)\<close> of \<^verbatim>\<open>math/big\<close>: an optional sign and digits, whose base is chosen by the prefix.
\<close>

definition digit_value :: "char \<Rightarrow> nat option" where
  "digit_value c =
     (let n = of_char c :: nat in
      if 48 \<le> n \<and> n \<le> 57 then Some (n - 48)
      else if 97 \<le> n \<and> n \<le> 122 then Some (n - 87)
      else if 65 \<le> n \<and> n \<le> 90 then Some (n - 55)
      else None)"

fun read_digits :: "nat \<Rightarrow> nat \<Rightarrow> string \<Rightarrow> nat option" where
  "read_digits bs acc [] = Some acc"
| "read_digits bs acc (c # cs) =
     (case digit_value c of
        Some d \<Rightarrow> if d < bs then read_digits bs (acc * bs + d) cs else None
      | None \<Rightarrow> None)"

definition read_number :: "nat \<Rightarrow> string \<Rightarrow> nat option" where
  "read_number bs s = (if s = [] then None else read_digits bs 0 s)"

definition read_unsigned :: "string \<Rightarrow> nat option" where
  "read_unsigned s =
     (case s of
        CHR ''0'' # c # cs \<Rightarrow>
          if c \<in> {CHR ''x'', CHR ''X''} then read_number 16 cs
          else if c \<in> {CHR ''b'', CHR ''B''} then read_number 2 cs
          else read_number 8 (c # cs)
      | _ \<Rightarrow> read_number 10 s)"

definition big_SetString :: "string \<Rightarrow> int option" where
  "big_SetString s =
     (case s of
        CHR ''-'' # cs \<Rightarrow> map_option (\<lambda>n. - int n) (read_unsigned cs)
      | CHR ''+'' # cs \<Rightarrow> map_option int (read_unsigned cs)
      | _ \<Rightarrow> map_option int (read_unsigned s))"

text \<open>The cached value that is no string fails the type assertion, which is a panic.\<close>

definition parsed :: "ForkFeature \<Rightarrow> string \<rightharpoonup> parsed_value" where
  "parsed f = case_option Map.empty id (ParsedOptions f)"

definition remember :: "ForkFeature \<Rightarrow> string \<Rightarrow> parsed_value \<Rightarrow> ForkFeature" where
  "remember f name v = f\<lparr>ParsedOptions := Some ((parsed f)(name \<mapsto> v))\<rparr>"

definition GetString :: "ForkFeature \<Rightarrow> string \<Rightarrow> ((string \<times> bool) \<times> ForkFeature) option" where
  "GetString f name =
     (case parsed f name of
        Some (ParsedString v) \<Rightarrow> Some ((v, True), f)
      | Some (ParsedBig _) \<Rightarrow> None
      | None \<Rightarrow>
          (case Options f name of
             Some (OptString v) \<Rightarrow> Some ((v, True), remember f name (ParsedString v))
           | _ \<Rightarrow> Some ((''''  , False), remember f name (ParsedString ''''))))"

definition read_big :: "option_value option \<Rightarrow> int option" where
  "read_big ov =
     (case ov of
        Some (OptFloat v) \<Rightarrow> Some v
      | Some (OptInt64 v) \<Rightarrow> Some v
      | Some (OptInt v) \<Rightarrow> Some v
      | Some (OptString s) \<Rightarrow> big_SetString s
      | _ \<Rightarrow> None)"

definition GetBigInt :: "ForkFeature \<Rightarrow> string \<Rightarrow> int option \<times> ForkFeature" where
  "GetBigInt f name =
     (case parsed f name of
        Some (ParsedBig v) \<Rightarrow> (Some v, f)
      | _ \<Rightarrow>
          (case read_big (Options f name) of
             Some v \<Rightarrow> (Some v, remember f name (ParsedBig v))
           | None \<Rightarrow> (None, f\<lparr>ParsedOptions := Some (parsed f)\<rparr>)))"

section \<open>The configuration\<close>

record Fork =
  Fork_Name :: string
  Fork_Block :: "int option"
  RequiredHash :: hash
  Features :: "ForkFeature list"

record BadHash =
  Bad_Block :: int
  Bad_Hash :: hash

record ChainConfig =
  Forks :: "Fork list"
  BadHashes :: "BadHash list"

definition no_fork :: Fork where
  "no_fork = \<lparr>Fork_Name = '''', Fork_Block = None, RequiredHash = 0, Features = []\<rparr>"

definition no_feature :: ForkFeature where
  "no_feature = \<lparr>feature_ID = '''', Options = Map.empty, ParsedOptions = None\<rparr>"

fun ForkByName_in :: "Fork list \<Rightarrow> string \<Rightarrow> Fork" where
  "ForkByName_in [] name = no_fork"
| "ForkByName_in (f # fs) name = (if Fork_Name f = name then f else ForkByName_in fs name)"

definition ForkByName :: "ChainConfig \<Rightarrow> string \<Rightarrow> Fork" where
  "ForkByName c name = ForkByName_in (Forks c) name"

text \<open>What \<^verbatim>\<open>IsHomestead\<close>, \<^verbatim>\<open>IsDiehard\<close>, \<^verbatim>\<open>IsHardfork2\<close> and \<^verbatim>\<open>IsAtlantis\<close> have in common.\<close>

definition fork_reached :: "Fork \<Rightarrow> int option \<Rightarrow> bool" where
  "fork_reached fork num =
     (case (Fork_Block fork, num) of (Some b, Some n) \<Rightarrow> n \<ge> b | _ \<Rightarrow> False)"

definition config_IsHomestead :: "ChainConfig \<Rightarrow> int option \<Rightarrow> bool" where
  "config_IsHomestead c num = fork_reached (ForkByName c ''Homestead'') num"

definition config_IsDiehard :: "ChainConfig \<Rightarrow> int option \<Rightarrow> bool" where
  "config_IsDiehard c num = fork_reached (ForkByName c ''Diehard'') num"

definition config_IsHardfork2 :: "ChainConfig \<Rightarrow> int option \<Rightarrow> bool" where
  "config_IsHardfork2 c num = fork_reached (ForkByName c ''Hardfork2'') num"

definition config_IsAtlantis :: "ChainConfig \<Rightarrow> int option \<Rightarrow> bool" where
  "config_IsAtlantis c num = fork_reached (ForkByName c ''Atlantis'') num"

text \<open>
  The loops of \<^verbatim>\<open>GetFeature\<close> and \<^verbatim>\<open>HasFeature\<close>: a later feature replaces an earlier one. The accumulator is the
  feature, its fork and whether one was found.
\<close>

type_synonym found = "ForkFeature \<times> Fork \<times> bool"

definition pick_feature :: "string \<Rightarrow> Fork \<Rightarrow> ForkFeature \<Rightarrow> found \<Rightarrow> found" where
  "pick_feature i f ff acc = (if feature_ID ff = i then (ff, f, True) else acc)"

definition pick_fork :: "string \<Rightarrow> Fork \<Rightarrow> found \<Rightarrow> found" where
  "pick_fork i f acc = fold (pick_feature i f) (Features f) acc"

definition GetFeature :: "ChainConfig \<Rightarrow> int option \<Rightarrow> string \<Rightarrow> found" where
  "GetFeature c num i =
     (if num \<noteq> None \<and> i \<noteq> '''' then
        fold (\<lambda>f acc. if Fork_Block f = None then acc
                      else if the (Fork_Block f) > the num then acc
                      else pick_fork i f acc)
          (Forks c) (no_feature, no_fork, False)
      else (no_feature, no_fork, False))"

definition HasFeature :: "ChainConfig \<Rightarrow> string \<Rightarrow> found" where
  "HasFeature c i =
     (if i \<noteq> '''' then fold (pick_fork i) (Forks c) (no_feature, no_fork, False)
      else (no_feature, no_fork, False))"

definition GetChainID :: "ChainConfig \<Rightarrow> int option \<Rightarrow> int" where
  "GetChainID c num =
     (let (feat, _, found) = (if num = None then HasFeature c ''eip155'' else GetFeature c num ''eip155'') in
      if \<not> found then 0
      else (case fst (GetBigInt feat ''chainID'') of Some v \<Rightarrow> v | None \<Rightarrow> 0))"

text \<open>The explosion asked for without a length is a panic.\<close>

definition IsExplosion :: "ChainConfig \<Rightarrow> int option \<Rightarrow> bool option" where
  "IsExplosion c num =
     (let (feat, fork, configured) = GetFeature c num ''difficulty'' in
      if configured then do {
        ((name, exists), feat) \<leftarrow> GetString feat ''type'';
        (if exists \<and> name = ''ecip1010'' then do {
           len \<leftarrow> fst (GetBigInt feat ''length'');
           b \<leftarrow> Fork_Block fork;
           n \<leftarrow> num;
           Some (n \<ge> b + len)
         } else Some False)
      } else Some False)"

text \<open>A fork without a block is dereferenced.\<close>

fun check_forks :: "Fork list \<Rightarrow> int \<Rightarrow> hash \<Rightarrow> bool option" where
  "check_forks [] number h = Some True"
| "check_forks (f # fs) number h = do {
     b \<leftarrow> Fork_Block f;
     (if b \<noteq> number then check_forks fs number h
      else if \<not> EmptyHash (RequiredHash f) \<and> RequiredHash f \<noteq> h then Some False
      else check_forks fs number h)
   }"

datatype header_check = ErrHashKnownFork | ErrHashKnownBad

definition HeaderCheck :: "ChainConfig \<Rightarrow> int \<Rightarrow> hash \<Rightarrow> header_check option option" where
  "HeaderCheck c number h = do {
     good \<leftarrow> check_forks (Forks c) number h;
     Some (if \<not> good then Some ErrHashKnownFork
           else if list_ex (\<lambda>bad. Bad_Block bad = number \<and> Bad_Hash bad = h) (BadHashes c) then Some ErrHashKnownBad
           else None)
   }"

text \<open>\<open>lastBlockN\<close> starts at 0.\<close>

fun latest_required :: "Fork list \<Rightarrow> int \<Rightarrow> Fork option \<Rightarrow> int \<Rightarrow> Fork option option" where
  "latest_required [] n f lastBlockN = Some f"
| "latest_required (ff # fs) n f lastBlockN =
     (if EmptyHash (RequiredHash ff) then latest_required fs n f lastBlockN
      else do {
        b \<leftarrow> Fork_Block ff;
        (if b > lastBlockN \<and> n \<ge> b then latest_required fs n (Some ff) b
         else latest_required fs n f lastBlockN)
      })"

definition GetLatestRequiredHashFork :: "ChainConfig \<Rightarrow> int \<Rightarrow> Fork option option" where
  "GetLatestRequiredHashFork c n = latest_required (Forks c) n None 0"

text \<open>A chain without a chain id from its EIP-155 block on is a panic.\<close>

definition GetSigner :: "ChainConfig \<Rightarrow> int option \<Rightarrow> Signer option" where
  "GetSigner c blockNumber =
     (let (feature, _, configured) = GetFeature c blockNumber ''eip155'' in
      if configured then map_option NewChainIdSigner (fst (GetBigInt feature ''chainID''))
      else Some BasicSigner)"

definition DefaultDiehardGasTable :: GasTable where
  "DefaultDiehardGasTable = \<lparr>ExtcodeSize = 700, ExtcodeCopy = 700, BalanceGas = 400, SLoad = 200, Calls = 700,
     SuicideGas = 5000, ExpByte = 50, CreateBySuicide = Some 25000\<rparr>"

text \<open>A gas table of another name is a panic.\<close>

definition config_GasTable :: "ChainConfig \<Rightarrow> int option \<Rightarrow> GasTable option" where
  "config_GasTable c num =
     (let (f, _, configured) = GetFeature c num ''gastable'' in
      if \<not> configured then Some DefaultDiehardGasTable
      else do {
        ((name, found), _) \<leftarrow> GetString f ''type'';
        (if found \<and> name = ''eip160'' then Some DefaultDiehardGasTable else None)
      })"

text \<open>
  The configuration as the virtual machine's rule set. A method that panics has no value in the record: where
  \<^verbatim>\<open>GasTable\<close> does, the default stands there, and what uses the rule set has to ask for the gas table first.
\<close>

definition config_RuleSet :: "ChainConfig \<Rightarrow> RuleSet" where
  "config_RuleSet c = \<lparr>IsHomestead = (\<lambda>n. config_IsHomestead c (Some n)), IsAtlantis = (\<lambda>n. config_IsAtlantis c (Some n)),
     IsHardfork2 = (\<lambda>n. config_IsHardfork2 c (Some n)),
     RuleSet_GasTable = (\<lambda>n. case config_GasTable c (Some n) of Some t \<Rightarrow> t | None \<Rightarrow> DefaultDiehardGasTable)\<rparr>"

section \<open>The cache of options\<close>


text \<open>A cached number is the one that reading the option gives.\<close>

definition cache_coherent :: "ForkFeature \<Rightarrow> bool" where
  "cache_coherent f \<longleftrightarrow> (\<forall>name v. parsed f name = Some (ParsedBig v) \<longrightarrow> read_big (Options f name) = Some v)"

lemma parsed_simps [simp]:
  "parsed (f\<lparr>ParsedOptions := Some m\<rparr>) = m"
  "parsed (remember f name v) = (parsed f)(name \<mapsto> v)" "Options (remember f name v) = Options f"
  by (simp_all add: parsed_def remember_def)

text \<open>A number reads the same whatever has been read, and remembered, before.\<close>

lemma GetBigInt_coherent:
  assumes "cache_coherent f"
  shows "fst (GetBigInt f name) = read_big (Options f name)" "cache_coherent (snd (GetBigInt f name))"
  using assms by (auto simp: GetBigInt_def cache_coherent_def split: option.splits parsed_value.splits)

lemma GetString_coherent:
  assumes "cache_coherent f" "GetString f name = Some (r, f')"
  shows "cache_coherent f'"
  using assms by (auto simp: GetString_def cache_coherent_def split: option.splits parsed_value.splits
      option_value.splits if_splits)

text \<open>
  A missing option is reported as present from the second time on: \<^verbatim>\<open>GetString\<close> caches the empty string before it
  looks at whether there was one.
\<close>

lemma GetString_finds_missing:
  "fst (the (GetString no_feature name)) = ('''', False) \<and>
   fst (the (GetString (snd (the (GetString no_feature name))) name)) = ('''', True)"
  by (simp add: GetString_def no_feature_def parsed_def remember_def)

section \<open>Features\<close>

lemma pick_fork_eq:
  "pick_fork i f acc =
     (if \<exists>ff\<in>set (Features f). feature_ID ff = i
      then (last (filter (\<lambda>ff. feature_ID ff = i) (Features f)), f, True) else acc)"
proof -
  have "fold (pick_feature i f) fs acc =
      (if \<exists>ff\<in>set fs. feature_ID ff = i then (last (filter (\<lambda>ff. feature_ID ff = i) fs), f, True) else acc)" for fs
    by (induction fs rule: rev_induct) (auto simp: pick_feature_def)
  then show ?thesis by (simp add: pick_fork_def)
qed

definition has_feature :: "string \<Rightarrow> Fork \<Rightarrow> bool" where
  "has_feature i f \<longleftrightarrow> (\<exists>ff\<in>set (Features f). feature_ID ff = i)"

text \<open>The forks that \<^verbatim>\<open>GetFeature\<close> looks at.\<close>

definition active :: "int \<Rightarrow> Fork \<Rightarrow> bool" where
  "active n f \<longleftrightarrow> (case Fork_Block f of Some b \<Rightarrow> b \<le> n | None \<Rightarrow> False)"

lemma GetFeature_eq:
  assumes "i \<noteq> ''''"
  shows "GetFeature c (Some n) i =
     (let fs = filter (\<lambda>f. active n f \<and> has_feature i f) (Forks c) in
      if fs = [] then (no_feature, no_fork, False)
      else (last (filter (\<lambda>ff. feature_ID ff = i) (Features (last fs))), last fs, True))"
proof -
  let ?pick = "\<lambda>f. (last (filter (\<lambda>ff. feature_ID ff = i) (Features f)), f, True)"
  have step: "(if Fork_Block f = None then acc else if the (Fork_Block f) > n then acc else pick_fork i f acc) =
      (if active n f \<and> has_feature i f then ?pick f else acc)" for f acc
    by (cases "Fork_Block f") (simp_all add: pick_fork_eq active_def has_feature_def)
  have "fold (\<lambda>f acc. if P f then h f else acc) fs acc =
      (if filter P fs = [] then acc else h (last (filter P fs)))" for P fs acc and h :: "Fork \<Rightarrow> found"
    by (induction fs arbitrary: acc) auto
  from this [of _ ?pick] assms show ?thesis unfolding GetFeature_def option.sel step by (simp add: Let_def)
qed

text \<open>Forks in the order of their blocks, as \<^verbatim>\<open>SortForks\<close> leaves them; every fork has a block then.\<close>

definition forks_sorted :: "ChainConfig \<Rightarrow> bool" where
  "forks_sorted c \<longleftrightarrow> (\<forall>f\<in>set (Forks c). Fork_Block f \<noteq> None) \<and>
     sorted_wrt (\<lambda>f g. the (Fork_Block f) \<le> the (Fork_Block g)) (Forks c)"

lemma sorted_wrt_last: "sorted_wrt P xs \<Longrightarrow> x \<in> set xs \<Longrightarrow> x = last xs \<or> P x (last xs)"
  by (induction xs) (auto simp: last_in_set)

text \<open>
  C26. The feature in force: with forks in order, \<^verbatim>\<open>GetFeature\<close> at a block finds a feature exactly when a fork at or
  before the block configures it, and then returns the feature of the latest such fork.
\<close>

theorem GetFeature_latest:
  assumes "forks_sorted c" "i \<noteq> ''''" "GetFeature c (Some n) i = (ff, f, found)"
  shows "(found \<longleftrightarrow> (\<exists>g\<in>set (Forks c). active n g \<and> has_feature i g)) \<and>
    (found \<longrightarrow> f \<in> set (Forks c) \<and> active n f \<and> ff \<in> set (Features f) \<and> feature_ID ff = i \<and>
       (\<forall>g\<in>set (Forks c). active n g \<and> has_feature i g \<longrightarrow> the (Fork_Block g) \<le> the (Fork_Block f)))"
proof -
  let ?fs = "filter (\<lambda>f. active n f \<and> has_feature i f) (Forks c)"
  note eq = GetFeature_eq [OF assms(2), of c n, unfolded assms(3) Let_def]
  show ?thesis
  proof (cases "?fs = []")
    case True
    with eq have "\<not> found" by simp
    with True show ?thesis by (auto simp: filter_empty_conv)
  next
    case False
    with eq have r: "found" "f = last ?fs" "ff = last (filter (\<lambda>ff. feature_ID ff = i) (Features f))" by auto
    from False have "last ?fs \<in> set ?fs" by (rule last_in_set)
    with r(2) have f: "f \<in> set (Forks c)" "active n f" "has_feature i f" by auto
    then have "filter (\<lambda>ff. feature_ID ff = i) (Features f) \<noteq> []" by (simp add: has_feature_def filter_empty_conv)
    from last_in_set [OF this] r(3) have ff: "ff \<in> set (Features f)" "feature_ID ff = i" by auto
    have "sorted_wrt (\<lambda>f g. the (Fork_Block f) \<le> the (Fork_Block g)) ?fs"
      using assms(1) by (intro sorted_wrt_filter) (simp add: forks_sorted_def)
    then have "the (Fork_Block g) \<le> the (Fork_Block f)" if "g \<in> set ?fs" for g
      using sorted_wrt_last [OF _ that] r(2) by fastforce
    with r f ff show ?thesis by auto
  qed
qed

text \<open>A configuration with two forks that set the chain id.\<close>

definition ex_feature :: "int \<Rightarrow> ForkFeature" where
  "ex_feature v = \<lparr>feature_ID = ''eip155'', Options = [''chainID'' \<mapsto> OptFloat v], ParsedOptions = None\<rparr>"

definition ex_config :: ChainConfig where
  "ex_config = \<lparr>Forks =
     [\<lparr>Fork_Name = ''Homestead'', Fork_Block = Some 0, RequiredHash = 0, Features = [ex_feature 101]\<rparr>,
      \<lparr>Fork_Name = ''Atlantis'', Fork_Block = Some 50, RequiredHash = 0, Features = [ex_feature 24484]\<rparr>],
     BadHashes = []\<rparr>"

theorem GetFeature_latest_witness:
  "GetFeature ex_config (Some 60) ''eip155'' = (ex_feature 24484, Forks ex_config ! 1, True) \<and>
   active 60 (Forks ex_config ! 1) \<and> ex_feature 24484 \<in> set (Features (Forks ex_config ! 1)) \<and>
   the (Fork_Block (Forks ex_config ! 0)) \<le> the (Fork_Block (Forks ex_config ! 1))"
proof -
  have eq: "GetFeature ex_config (Some 60) ''eip155'' = (ex_feature 24484, Forks ex_config ! 1, True)"
    by (simp add: GetFeature_def ex_config_def pick_fork_def pick_feature_def ex_feature_def)
  have "forks_sorted ex_config" by (simp add: forks_sorted_def ex_config_def)
  from GetFeature_latest [OF this _ eq] have "active 60 (Forks ex_config ! 1)"
    "ex_feature 24484 \<in> set (Features (Forks ex_config ! 1))"
    "\<forall>g\<in>set (Forks ex_config). active 60 g \<and> has_feature ''eip155'' g \<longrightarrow>
      the (Fork_Block g) \<le> the (Fork_Block (Forks ex_config ! 1))"
    by simp_all
  moreover have "active 60 (Forks ex_config ! 0)" "has_feature ''eip155'' (Forks ex_config ! 0)"
    "Forks ex_config ! 0 \<in> set (Forks ex_config)"
    by (simp_all add: active_def has_feature_def ex_config_def ex_feature_def)
  ultimately show ?thesis using eq by blast
qed

text \<open>A fork stays in force: the rules of the virtual machine never switch off again.\<close>

lemma fork_reached_mono: "fork_reached f (Some m) \<Longrightarrow> m \<le> n \<Longrightarrow> fork_reached f (Some n)"
  by (auto simp: fork_reached_def split: option.splits)

end
