(* ===== verification/State_Transition.thy ===== *)
theory State_Transition
  imports Vm_Properties Chain_Config
begin

text \<open>
  \<^verbatim>\<open>core/state_transition.go\<close> and \<^verbatim>\<open>gaspool.go\<close>: what a message does to the state. The state is the database in the
  environment. The pointer \<^verbatim>\<open>st.gas\<close> is handed to the virtual machine, which lowers it in place; the calls of the
  model return what is left. A message is given by the results of its methods.
\<close>

section \<open>The gas pool\<close>

datatype tx_error =
    SenderError sig_error
  | NonceErr uint64 uint64
  | GasLimitErr int int
  | ErrInsufficientBalanceForGas
  | VmError vm_error
  | InvalidTxErr tx_error

definition AddGas :: "int \<Rightarrow> int \<Rightarrow> int" where
  "AddGas gp amount = gp + amount"

definition SubGas :: "int \<Rightarrow> int \<Rightarrow> tx_error + int" where
  "SubGas gp amount = (if gp < amount then Inl (GasLimitErr gp amount) else Inr (gp - amount))"

section \<open>Messages\<close>

definition TxGas :: int where "TxGas = 21000"
definition TxGasContractCreation :: int where "TxGasContractCreation = 53000"
definition TxDataZeroGas :: int where "TxDataZeroGas = 4"
definition TxDataNonZeroGas :: int where "TxDataNonZeroGas = 68"

record Message =
  msg_From :: "sig_error + address"
  msg_To :: "address option"
  msg_GasPrice :: int
  msg_Gas :: int
  msg_Value :: int
  msg_Nonce :: uint64
  msg_Data :: bytes

definition MessageCreatesContract :: "Message \<Rightarrow> bool" where
  "MessageCreatesContract msg \<longleftrightarrow> msg_To msg = None"

definition IntrinsicGas :: "bytes \<Rightarrow> bool \<Rightarrow> bool \<Rightarrow> int" where
  "IntrinsicGas data contractCreation homestead =
     (let igas = (if contractCreation \<and> homestead then TxGasContractCreation else TxGas) in
      if length data > 0 then
        (let nz = int (length (filter (\<lambda>byt. byt \<noteq> 0) data))
         in igas + nz * TxDataNonZeroGas + (int (length data) - nz) * TxDataZeroGas)
      else igas)"

section \<open>The transition\<close>

record StateTransition =
  st_gp :: int
  st_msg :: Message
  st_gas :: int
  st_gasPrice :: int
  st_initialGas :: int
  st_value :: int
  st_data :: bytes
  st_env :: "StateDB Environment"

abbreviation st_state :: "StateTransition \<Rightarrow> StateDB" where
  "st_state st \<equiv> env_Db (st_env st)"

abbreviation set_state :: "StateTransition \<Rightarrow> StateDB \<Rightarrow> StateTransition" where
  "set_state st d \<equiv> st\<lparr>st_env := (st_env st)\<lparr>env_Db := d\<rparr>\<rparr>"

definition NewStateTransition :: "StateDB Environment \<Rightarrow> Message \<Rightarrow> int \<Rightarrow> StateTransition" where
  "NewStateTransition env msg gp =
     \<lparr>st_gp = gp, st_msg = msg, st_gas = 0, st_gasPrice = msg_GasPrice msg, st_initialGas = 0,
      st_value = msg_Value msg, st_data = msg_Data msg, st_env = env\<rparr>"

text \<open>The recipient is created when it does not exist, before Atlantis.\<close>

definition st_to :: "StateTransition \<Rightarrow> address \<times> StateTransition" where
  "st_to st =
     (case msg_To (st_msg st) of
        None \<Rightarrow> (0, st)
      | Some to \<Rightarrow>
          (let (ex, d) = sdb_Exist (st_state st) to;
               env = st_env st;
               d = (if \<not> ex \<and> \<not> IsAtlantis (env_RuleSet env) (env_BlockNumber env)
                    then sdb_CreateAccount d to else d)
           in (to, set_state st d)))"

definition st_useGas :: "StateTransition \<Rightarrow> int \<Rightarrow> vm_error option \<times> StateTransition" where
  "st_useGas st amount =
     (if st_gas st < amount then (Some OutOfGasError, st) else (None, st\<lparr>st_gas := st_gas st - amount\<rparr>))"

definition st_addGas :: "StateTransition \<Rightarrow> int \<Rightarrow> StateTransition" where
  "st_addGas st amount = st\<lparr>st_gas := st_gas st + amount\<rparr>"

definition st_gasUsed :: "StateTransition \<Rightarrow> int" where
  "st_gasUsed st = st_initialGas st - st_gas st"

text \<open>\<^verbatim>\<open>GetAccount\<close> loads the account; it is then used through its address, and may be nil.\<close>

definition buyGas :: "StateTransition \<Rightarrow> (tx_error option \<times> StateTransition) option" where
  "buyGas st =
     (let mgas = msg_Gas (st_msg st); mgval = mgas * st_gasPrice st in
      case msg_From (st_msg st) of
        Inl err \<Rightarrow> Some (Some (SenderError err), st)
      | Inr address \<Rightarrow>
          (let (_, d) = sdb_Exist (st_state st) address;
               (bal, d) = sdb_GetBalance d address;
               st = set_state st d
           in if bal < mgval then Some (Some ErrInsufficientBalanceForGas, st)
              else (case SubGas (st_gp st) mgas of
                      Inl err \<Rightarrow> Some (Some err, st)
                    | Inr gp \<Rightarrow> do {
                        let st = st_addGas (st\<lparr>st_gp := gp\<rparr>) mgas;
                        let st = st\<lparr>st_initialGas := mgas\<rparr>;
                        d \<leftarrow> obj_SubBalance (st_state st) address mgval;
                        Some (None, set_state st d)
                      })))"

fun IsGasLimitErr :: "tx_error \<Rightarrow> bool" where
  "IsGasLimitErr (GasLimitErr _ _) = True"
| "IsGasLimitErr _ = False"

definition preCheck :: "StateTransition \<Rightarrow> (tx_error option \<times> StateTransition) option" where
  "preCheck st =
     (case msg_From (st_msg st) of
        Inl err \<Rightarrow> Some (Some (SenderError err), st)
      | Inr address \<Rightarrow>
          (let (n, d) = sdb_GetNonce (st_state st) address; st = set_state st d in
           if n \<noteq> msg_Nonce (st_msg st) then Some (Some (NonceErr (msg_Nonce (st_msg st)) n), st)
           else do {
             (err, st) \<leftarrow> buyGas st;
             Some (case err of
                     None \<Rightarrow> (None, st)
                   | Some e \<Rightarrow> (Some (if IsGasLimitErr e then e else InvalidTxErr e), st))
           }))"

text \<open>
  \<^verbatim>\<open>refund\<close> is the pointer that \<^verbatim>\<open>BigMin\<close> returns: when the counter of the state is the smaller one it is the
  counter itself, and \<^verbatim>\<open>refund.Mul(refund, st.gasPrice)\<close> multiplies it in place.
\<close>

definition refundGas :: "StateTransition \<Rightarrow> StateTransition" where
  "refundGas st =
     (case msg_From (st_msg st) of
        Inl err \<Rightarrow> st
      | Inr address \<Rightarrow>
          (let remaining = st_gas st * st_gasPrice st;
               d = sdb_AddBalance (st_state st) address remaining;
               uhalf = big_Div (st_gasUsed st) 2;
               counter = sdb_GetRefund d;
               refnd = BigMin uhalf counter;
               st = st\<lparr>st_gas := st_gas st + refnd\<rparr>;
               d = (if uhalf > counter then d\<lparr>refund := counter * st_gasPrice st\<rparr> else d);
               d = sdb_AddBalance d address (refnd * st_gasPrice st)
           in (set_state st d)\<lparr>st_gp := AddGas (st_gp st) (st_gas st)\<rparr>))"

fun IsValueTransferErr :: "vm_error option \<Rightarrow> bool" where
  "IsValueTransferErr (Some (ValueTransferError _ _)) = True"
| "IsValueTransferErr _ = False"

text \<open>
  Running the message: the return data, the error of the virtual machine and the state transition after it. A
  collision of addresses and, from Homestead on, code too expensive to store cost all gas.
\<close>

definition st_execute ::
  "StateDB runner \<Rightarrow> address \<Rightarrow> StateTransition \<Rightarrow> (bytes \<times> vm_error option \<times> StateTransition) outcome option" where
  "st_execute run address st =
     (let env = st_env st; homestead = isHomestead env in
      if MessageCreatesContract (st_msg st) then
        map_option (map_outcome (\<lambda>(out, _, vmerr, env, _, gas).
            (out, vmerr, st\<lparr>st_env := env, st_gas :=
               (if vmerr = Some ErrContractAddressCollision \<or> homestead \<and> vmerr = Some CodeStoreOutOfGasError
                then 0 else gas)\<rparr>)))
          (Create run env (AccountRef address) (st_data st) (st_gas st) (st_gasPrice st) (st_value st))
      else
        (let (n, d) = sdb_GetNonce (st_state st) address;
             st = set_state st (sdb_SetNonce d address (n + 1));
             (to, st) = st_to st
         in map_option (map_outcome (\<lambda>(out, vmerr, env, _, gas). (out, vmerr, st\<lparr>st_env := env, st_gas := gas\<rparr>)))
              (Call run (st_env st) (AccountRef address) to (st_data st) (st_gas st) (st_gasPrice st)
                (st_value st))))"

text \<open>What is done after the run: the sender gets the gas back that was not used, the miner is paid.\<close>

definition st_settle ::
  "bytes \<times> vm_error option \<times> StateTransition \<Rightarrow> (tx_error + bytes \<times> int \<times> bool) \<times> StateTransition" where
  "st_settle r =
     (case r of (out, vmerr, st) \<Rightarrow>
        if IsValueTransferErr vmerr then (Inl (InvalidTxErr (VmError (the vmerr))), st)
        else
          (let st = refundGas st;
               d = sdb_AddBalance (st_state st) (env_Coinbase (st_env st)) (st_gasUsed st * st_gasPrice st)
           in (Inr (out, st_gasUsed st, vmerr \<noteq> None), set_state st d)))"

definition TransitionDb ::
  "StateDB runner \<Rightarrow> StateTransition \<Rightarrow>
   ((tx_error + bytes \<times> int \<times> bool) \<times> StateTransition) outcome option" where
  "TransitionDb run st = do {
     (err, st) \<leftarrow> preCheck st;
     (case err of
        Some e \<Rightarrow> Some (Done (Inl e, st))
      | None \<Rightarrow>
          (case msg_From (st_msg st) of
             Inl e \<Rightarrow> Some (Done (Inl (SenderError e), st))
           | Inr address \<Rightarrow>
               (let (ex, d) = sdb_Exist (st_state st) address;
                    st = set_state st (if \<not> ex then sdb_CreateAccount d address else d);
                    homestead = isHomestead (st_env st);
                    (err, st) = st_useGas st (IntrinsicGas (st_data st) (MessageCreatesContract (st_msg st)) homestead)
                in case err of
                     Some e \<Rightarrow> Some (Done (Inl (InvalidTxErr (VmError e)), st))
                   | None \<Rightarrow> map_option (map_outcome st_settle) (st_execute run address st))))
   }"

definition ApplyMessage ::
  "StateDB runner \<Rightarrow> StateDB Environment \<Rightarrow> Message \<Rightarrow> int \<Rightarrow>
   ((tx_error + bytes \<times> int \<times> bool) \<times> StateTransition) outcome option" where
  "ApplyMessage run env msg gp = TransitionDb run (NewStateTransition env msg gp)"

section \<open>What the steps do to the world\<close>

declare sdb_view_simps [simp del]

text \<open>
  \<open>moves b d d' v\<close>: the database stays well-formed, the sum of all balances changes by \<open>v\<close> and the refund counter
  stays.
\<close>

definition db_good :: "Backend \<Rightarrow> StateDB \<Rightarrow> bool" where
  "db_good b d \<longleftrightarrow> sdb_inv b d \<and> world_ok (Keccak256 b) (sdb_view d)"

definition moves :: "Backend \<Rightarrow> StateDB \<Rightarrow> StateDB \<Rightarrow> int \<Rightarrow> bool" where
  "moves b d d' v \<longleftrightarrow> db_good b d' \<and> total_balance (sdb_view d') = total_balance (sdb_view d) + v \<and>
     w_refund (sdb_view d') = w_refund (sdb_view d)"

lemma moves_refl: "db_good b d \<Longrightarrow> moves b d d 0"
  by (simp add: moves_def)

lemma moves_trans: "moves b d1 d2 v \<Longrightarrow> moves b d2 d3 w \<Longrightarrow> moves b d1 d3 (v + w)"
  by (simp add: moves_def)

lemma moves_trans0:
  "moves b d1 d2 0 \<Longrightarrow> moves b d2 d3 w \<Longrightarrow> moves b d1 d3 w" "moves b d1 d2 v \<Longrightarrow> moves b d2 d3 0 \<Longrightarrow> moves b d1 d3 v"
  by (simp_all add: moves_def)

lemma moves_good: "moves b d d' v \<Longrightarrow> db_good b d'"
  by (simp add: moves_def)

lemma fresh_zero [simp]: "a_balance (fresh_account b) = 0" "a_code (fresh_account b) = []"
  by (simp_all add: fresh_account_def)

lemma sdb_reads:
  assumes "db_good b d"
  shows "sdb_Exist d a = (ex, d') \<Longrightarrow> moves b d d' 0 \<and> sdb_view d' = sdb_view d \<and> ex = w_exists (sdb_view d) a"
    "sdb_GetBalance d a = (v, d') \<Longrightarrow> moves b d d' 0 \<and> sdb_view d' = sdb_view d \<and> v = w_balance (sdb_view d) a"
    "sdb_GetNonce d a = (n, d') \<Longrightarrow> moves b d d' 0 \<and> sdb_view d' = sdb_view d \<and>
       n = a_nonce (w_get (fresh_account b) (sdb_view d) a)"
  using assms sdb.Exist [of b d a ex d'] sdb.GetBalance [of b d a v d'] sdb.GetNonce [of b d a n d']
  by (simp_all add: db_good_def moves_def stateDB_ops_def)

lemma sdb_writes:
  assumes "db_good b d"
  shows "0 \<le> v \<Longrightarrow> moves b d (sdb_AddBalance d a v) v" "moves b d (sdb_SetNonce d a n) 0"
    "moves b d (sdb_CreateAccount d a) 0"
  using assms sdb.AddBalance [OF _ refl, of b d a v] sdb.SetNonce [OF _ refl, of b d a n]
    sdb.CreateAccount [OF _ refl, of b d a]
    world_ok_setters(3,5,7) [of "Keccak256 b" "sdb_view d" "fresh_account b"]
  by (simp_all add: db_good_def moves_def stateDB_ops_def total_balance_AddBalance total_balance_same)

lemma sdb_view_AddBalance:
  "db_good b d \<Longrightarrow> sdb_view (sdb_AddBalance d a v) = w_AddBalance (fresh_account b) (sdb_view d) a v"
  using sdb.AddBalance [OF _ refl, of b d a v] by (simp add: db_good_def stateDB_ops_def)

lemma w_acct_SubBalance_good:
  assumes ok: "world_ok K w" and v: "0 \<le> v" "v \<le> w_balance w a"
  shows "\<exists>w'. w_acct_SubBalance w a v = Some w' \<and> world_ok K w' \<and>
    total_balance w' = total_balance w - v \<and> w_refund w' = w_refund w"
proof (cases "v = 0")
  case True
  then show ?thesis using ok by (simp add: w_acct_SubBalance_def)
next
  case False
  with v obtain x where x: "w_accts w a = Some x" "v \<le> a_balance x"
    by (auto simp: w_balance_def split: option.splits)
  have "world_ok K (w\<lparr>w_accts := (w_accts w)(a \<mapsto> x\<lparr>a_balance := a_balance x - v\<rparr>)\<rparr>)"
    using x world_okD [OF ok x(1)] by (intro world_ok_upd ok) simp_all
  with False x show ?thesis
    by (simp add: w_acct_SubBalance_def total_balance_upd w_balance_def)
qed

lemma obj_SubBalance_moves:
  assumes d: "db_good b d" and v: "0 \<le> v" "v \<le> w_balance (sdb_view d) a"
  shows "\<exists>d'. obj_SubBalance d a v = Some d' \<and> moves b d d' (- v)"
proof -
  have "world_ok (Keccak256 b) (sdb_view d)" using d by (simp add: db_good_def)
  from w_acct_SubBalance_good [OF this v] obtain w where w: "w_acct_SubBalance (sdb_view d) a v = Some w"
      "world_ok (Keccak256 b) w" "total_balance w = total_balance (sdb_view d) - v" "w_refund w = w_refund (sdb_view d)"
    by blast
  from sdb.acct_SubBalance_Some [OF _ w(1), of b] d obtain d' where
    "obj_SubBalance d a v = Some d'" "sdb_inv b d'" "sdb_view d' = w"
    by (auto simp: db_good_def stateDB_ops_def)
  with w(2-4) show ?thesis by (simp add: db_good_def moves_def)
qed

text \<open>An environment with another database.\<close>

lemma db_env_good: "db_env_ok b env \<Longrightarrow> db_good b (env_Db env)"
  by (simp add: env_ok_def db_good_def)

lemma db_env_set: "db_env_ok b env \<Longrightarrow> db_good b d \<Longrightarrow> db_env_ok b (env\<lparr>env_Db := d\<rparr>)"
  by (simp add: env_ok_def db_good_def precompiles_def split: if_splits)

section \<open>Checking and buying\<close>

definition msg_ok :: "Message \<Rightarrow> bool" where
  "msg_ok msg \<longleftrightarrow> 0 \<le> msg_Gas msg \<and> 0 \<le> msg_GasPrice msg \<and> 0 \<le> msg_Value msg \<and> small (msg_Data msg)"

lemma buyGas_good:
  assumes d: "db_good b (st_state st)" and g: "0 \<le> msg_Gas (st_msg st)" "0 \<le> st_gasPrice st"
    and sender: "msg_From (st_msg st) = Inr a" and fresh: "st_gas st = 0"
  obtains (refused) d' e where "buyGas st = Some (Some e, set_state st d')" "moves b (st_state st) d' 0"
      "sdb_view d' = sdb_view (st_state st)"
  | (bought) d' where "buyGas st = Some (None, (set_state st d')\<lparr>st_gp := st_gp st - msg_Gas (st_msg st),
        st_gas := msg_Gas (st_msg st), st_initialGas := msg_Gas (st_msg st)\<rparr>)"
      "moves b (st_state st) d' (- (msg_Gas (st_msg st) * st_gasPrice st))" "msg_Gas (st_msg st) \<le> st_gp st"
proof -
  let ?mgval = "msg_Gas (st_msg st) * st_gasPrice st"
  obtain ex d1 where 1: "sdb_Exist (st_state st) a = (ex, d1)" by fastforce
  note r1 = sdb_reads(1) [OF d 1]
  obtain bal d2 where 2: "sdb_GetBalance d1 a = (bal, d2)" by fastforce
  have g1: "db_good b d1" by (rule moves_good [OF conjunct1 [OF r1]])
  note r2 = sdb_reads(2) [OF g1 2]
  have m2: "moves b (st_state st) d2 0" "sdb_view d2 = sdb_view (st_state st)"
    using r1 r2 moves_trans0(1) [OF conjunct1 [OF r1] conjunct1 [OF r2]] by simp_all
  have bal: "bal = w_balance (sdb_view d2) a" using r1 r2 by simp
  have eq: "buyGas st = (if bal < ?mgval then Some (Some ErrInsufficientBalanceForGas, set_state st d2)
      else if st_gp st < msg_Gas (st_msg st)
      then Some (Some (GasLimitErr (st_gp st) (msg_Gas (st_msg st))), set_state st d2)
      else map_option (\<lambda>d. (None, (set_state st d)\<lparr>st_gp := st_gp st - msg_Gas (st_msg st),
        st_gas := msg_Gas (st_msg st), st_initialGas := msg_Gas (st_msg st)\<rparr>)) (obj_SubBalance d2 a ?mgval))"
    unfolding buyGas_def SubGas_def Let_def st_addGas_def sender sum.case 1 2 prod.case
    using fresh by (cases "obj_SubBalance d2 a ?mgval") simp_all
  consider "bal < ?mgval" | "\<not> bal < ?mgval" "st_gp st < msg_Gas (st_msg st)"
    | "\<not> bal < ?mgval" "\<not> st_gp st < msg_Gas (st_msg st)" by blast
  then show thesis
  proof cases
    case 3
    have "0 \<le> ?mgval" "?mgval \<le> w_balance (sdb_view d2) a" using g 3 bal by simp_all
    from obj_SubBalance_moves [OF moves_good [OF m2(1)] this] obtain d3
      where d3: "obj_SubBalance d2 a ?mgval = Some d3" "moves b d2 d3 (- ?mgval)" by blast
    have "moves b (st_state st) d3 (- ?mgval)" using m2(1) d3(2) by (rule moves_trans0)
    with eq 3 d3(1) show thesis by (intro bought [of d3]) simp_all
  qed (use eq m2 in \<open>simp_all add: refused\<close>)
qed

lemma preCheck_good:
  assumes d: "db_good b (st_state st)" and g: "0 \<le> msg_Gas (st_msg st)" "0 \<le> st_gasPrice st"
    and fresh: "st_gas st = 0"
  obtains (refused) d' e where "preCheck st = Some (Some e, set_state st d')" "db_good b d'"
      "sdb_view d' = sdb_view (st_state st)"
  | (bought) d' a where "preCheck st = Some (None, (set_state st d')\<lparr>st_gp := st_gp st - msg_Gas (st_msg st),
        st_gas := msg_Gas (st_msg st), st_initialGas := msg_Gas (st_msg st)\<rparr>)"
      "moves b (st_state st) d' (- (msg_Gas (st_msg st) * st_gasPrice st))" "msg_Gas (st_msg st) \<le> st_gp st"
      "msg_From (st_msg st) = Inr a" "msg_Nonce (st_msg st) = a_nonce (w_get (fresh_account b) (sdb_view (st_state st)) a)"
proof (cases "msg_From (st_msg st)")
  case (Inl e)
  then have "preCheck st = Some (Some (SenderError e), set_state st (st_state st))" by (simp add: preCheck_def)
  with d show thesis by (intro refused [of "SenderError e" "st_state st"]) simp_all
next
  case (Inr a)
  obtain n d1 where 1: "sdb_GetNonce (st_state st) a = (n, d1)" by fastforce
  note r1 = sdb_reads(3) [OF d 1]
  have g1: "db_good b d1" by (rule moves_good [OF conjunct1 [OF r1]])
  show thesis
  proof (cases "n = msg_Nonce (st_msg st)")
    case False
    then have "preCheck st = Some (Some (NonceErr (msg_Nonce (st_msg st)) n), set_state st d1)"
      using Inr 1 by (simp add: preCheck_def Let_def)
    from refused [OF this g1] r1 show thesis by simp
  next
    case True
    have pre: "preCheck st = do { (err, st) \<leftarrow> buyGas (set_state st d1); Some (case err of None \<Rightarrow> (None, st)
        | Some e \<Rightarrow> (Some (if IsGasLimitErr e then e else InvalidTxErr e), st)) }"
      using Inr 1 True by (simp add: preCheck_def Let_def)
    show thesis
    proof (rule buyGas_good [of b "set_state st d1" a])
      fix d' e
      assume *: "buyGas (set_state st d1) = Some (Some e, set_state (set_state st d1) d')"
        "moves b (st_state (set_state st d1)) d' 0" "sdb_view d' = sdb_view (st_state (set_state st d1))"
      then have "preCheck st = Some (Some (if IsGasLimitErr e then e else InvalidTxErr e), set_state st d')"
        using pre by simp
      from refused [OF this moves_good [OF *(2)]] *(3) r1 show thesis by simp
    next
      fix d'
      assume *: "buyGas (set_state st d1) = Some (None, (set_state (set_state st d1) d')
          \<lparr>st_gp := st_gp (set_state st d1) - msg_Gas (st_msg (set_state st d1)),
           st_gas := msg_Gas (st_msg (set_state st d1)), st_initialGas := msg_Gas (st_msg (set_state st d1))\<rparr>)"
        "moves b (st_state (set_state st d1)) d' (- (msg_Gas (st_msg (set_state st d1)) * st_gasPrice (set_state st d1)))"
        "msg_Gas (st_msg (set_state st d1)) \<le> st_gp (set_state st d1)"
      have "moves b (st_state st) d' (- (msg_Gas (st_msg st) * st_gasPrice st))"
        using moves_trans0(1) [OF conjunct1 [OF r1]] *(2) by simp
      with * pre Inr r1 True show thesis by (intro bought [of d' a]) simp_all
    qed (use g1 g fresh Inr in simp_all)
  qed
qed

section \<open>Refunding\<close>

lemma set_refund_good:
  assumes "db_good b d"
  shows "db_good b (d\<lparr>refund := r\<rparr>)" "total_balance (sdb_view (d\<lparr>refund := r\<rparr>)) = total_balance (sdb_view d)"
    "w_refund (sdb_view (d\<lparr>refund := r\<rparr>)) = r"
proof -
  have v: "sdb_view (d\<lparr>refund := r\<rparr>) = (sdb_view d)\<lparr>w_refund := r\<rparr>"
    by (simp add: sdb_view_def sdb_accts_def fun_eq_iff sdb_GetLogs_def split: option.split)
  have "sdb_inv b (d\<lparr>refund := r\<rparr>)"
    using assms by (simp add: db_good_def sdb_inv_def sdb_core_def objects_ok_def gone_def revisions_ok_def)
  moreover have "world_ok (Keccak256 b) (sdb_view (d\<lparr>refund := r\<rparr>))"
    using assms by (simp add: v db_good_def world_ok_def)
  ultimately show "db_good b (d\<lparr>refund := r\<rparr>)" by (simp add: db_good_def)
  show "total_balance (sdb_view (d\<lparr>refund := r\<rparr>)) = total_balance (sdb_view d)"
    unfolding v by (rule total_balance_cong) simp
  show "w_refund (sdb_view (d\<lparr>refund := r\<rparr>)) = r" by (simp add: v)
qed

text \<open>
  \<open>gas\<close> is left after the refund; the sender has been paid for it, at most half of the gas used was refunded, and
  the pool has it back.
\<close>

lemma refundGas_good:
  assumes d: "db_good b (st_state st)" and g: "0 \<le> st_gas st" "st_gas st \<le> st_initialGas st" "0 \<le> st_gasPrice st"
    and r: "0 \<le> w_refund (sdb_view (st_state st))" and a: "msg_From (st_msg st) = Inr a"
  obtains d' gas where "refundGas st = (set_state st d')\<lparr>st_gas := gas, st_gp := st_gp st + gas\<rparr>" "db_good b d'"
    "total_balance (sdb_view d') = total_balance (sdb_view (st_state st)) + gas * st_gasPrice st"
    "st_gas st \<le> gas" "gas \<le> st_initialGas st" "st_initialGas st - st_gas st \<le> 2 * (st_initialGas st - gas)"
    "0 \<le> w_refund (sdb_view d')"
proof -
  define d1 where "d1 = sdb_AddBalance (st_state st) a (st_gas st * st_gasPrice st)"
  have m1: "moves b (st_state st) d1 (st_gas st * st_gasPrice st)"
    unfolding d1_def using d g by (intro sdb_writes) simp_all
  define u where "u = st_gasUsed st div 2"
  define c where "c = sdb_GetRefund d1"
  have c: "c = w_refund (sdb_view (st_state st))" "0 \<le> c"
    using m1 r by (simp_all add: moves_def c_def sdb_GetRefund_def sdb_view_def)
  define x where "x = min u c"
  have u: "0 \<le> u" "2 * u \<le> st_initialGas st - st_gas st" using g by (simp_all add: u_def st_gasUsed_def)
  then have x: "0 \<le> x" "2 * x \<le> st_initialGas st - st_gas st" using c(2) by (auto simp: x_def)
  define d2 where "d2 = (if u > c then d1\<lparr>refund := c * st_gasPrice st\<rparr> else d1)"
  have g1: "db_good b d1" by (rule moves_good [OF m1])
  have d2: "db_good b d2" "total_balance (sdb_view d2) = total_balance (sdb_view d1)" "0 \<le> w_refund (sdb_view d2)"
    using g1 set_refund_good [OF g1] m1 r g(3) c(2) by (auto simp: d2_def moves_def)
  define d3 where "d3 = sdb_AddBalance d2 a (x * st_gasPrice st)"
  have m3: "moves b d2 d3 (x * st_gasPrice st)" unfolding d3_def using d2(1) x(1) g(3) by (intro sdb_writes) simp_all
  have "refundGas st = (set_state st d3)\<lparr>st_gas := st_gas st + x, st_gp := st_gp st + (st_gas st + x)\<rparr>"
    using a by (simp add: refundGas_def Let_def AddGas_def big_Div_def BigMin_min d1_def [symmetric] c_def [symmetric]
        u_def [symmetric] x_def [symmetric]) (cases st, simp add: d2_def d3_def)
  moreover have "total_balance (sdb_view d3) = total_balance (sdb_view (st_state st)) + (st_gas st + x) * st_gasPrice st"
    using m1 d2(2) m3 by (simp add: moves_def distrib_right)
  moreover have "0 \<le> w_refund (sdb_view d3)" using d2(3) m3 by (simp add: moves_def)
  ultimately show thesis using x g by (intro that [of "st_gas st + x" d3] moves_good [OF m3]) auto
qed

section \<open>Running\<close>

lemma st_to_good:
  assumes "db_good b (st_state st)"
  obtains d' a where "st_to st = (a, set_state st d')" "moves b (st_state st) d' 0"
proof (cases "msg_To (st_msg st)")
  case None
  then have "st_to st = (0, set_state st (st_state st))" by (simp add: st_to_def)
  with moves_refl [OF assms] show thesis by (rule that [rotated])
next
  case (Some a)
  obtain ex d1 where 1: "sdb_Exist (st_state st) a = (ex, d1)" by fastforce
  note r1 = conjunct1 [OF sdb_reads(1) [OF assms 1]]
  let ?d = "if \<not> ex \<and> \<not> IsAtlantis (env_RuleSet (st_env st)) (env_BlockNumber (st_env st))
    then sdb_CreateAccount d1 a else d1"
  have "moves b (st_state st) ?d 0"
    using r1 moves_trans0(1) [OF r1 sdb_writes(3) [OF moves_good [OF r1]]] by simp
  moreover have "st_to st = (a, set_state st ?d)" using Some 1 by (simp add: st_to_def Let_def)
  ultimately show thesis by (rule that [rotated])
qed

text \<open>The environment of a transaction: not in a static call.\<close>

definition tx_env_ok :: "Backend \<Rightarrow> StateDB Environment \<Rightarrow> bool" where
  "tx_env_ok b env \<longleftrightarrow> db_env_ok b env \<and> \<not> evm_readOnly env \<and> 0 \<le> w_refund (sdb_view (env_Db env))"

lemma env_step_tx:
  assumes "tx_env_ok b env" "evm.env_step b env env'"
  shows "tx_env_ok b env'" "total_balance (env_view env') \<le> total_balance (env_view env)"
    "env_Coinbase env' = env_Coinbase env"
proof -
  have s: "db_env_ok b env'" "same_static env env'" "evm_effect (fresh_account b) False (env_view env) (env_view env')"
    using assms by (auto simp: evm.env_step_def tx_env_ok_def)
  then show "tx_env_ok b env'" "total_balance (env_view env') \<le> total_balance (env_view env)"
    using assms(1) same_static_fields [OF s(2)] by (auto simp: tx_env_ok_def evm_effect_def)
  show "env_Coinbase env' = env_Coinbase env"
    using s(2) by (cases env; cases env') (simp add: same_static_def)
qed

lemma tx_env_set: "tx_env_ok b env \<Longrightarrow> moves b (env_Db env) d v \<Longrightarrow> tx_env_ok b (env\<lparr>env_Db := d\<rparr>)"
  by (auto simp: tx_env_ok_def moves_def intro: db_env_set)

lemma st_execute_good:
  assumes env: "tx_env_ok b (st_env st)" and g: "0 \<le> st_gas st" "st_gas st < int n" "st_gas st < 2 ^ 63"
    and args: "0 \<le> st_gasPrice st" "0 \<le> st_value st" "small (st_data st)"
  obtains out vmerr env' gas where
    "st_execute (evm_Run n) a st = Some (Done (out, vmerr, st\<lparr>st_env := env', st_gas := gas\<rparr>))"
    "tx_env_ok b env'" "total_balance (env_view env') \<le> total_balance (env_view (st_env st))"
    "env_Coinbase env' = env_Coinbase (st_env st)" "0 \<le> gas" "gas \<le> st_gas st"
proof (cases "MessageCreatesContract (st_msg st)")
  case True
  have e: "db_env_ok b (st_env st)" "\<not> (evm_readOnly (st_env st) \<and> isHardfork2 (st_env st))"
    using env by (simp_all add: tx_env_ok_def)
  from evm.Create_good [OF call_argsI [OF e(1) _ args(3) g args(1), of "AccountRef a"] e(2) args(2)]
  obtain out c err env' caller' gas where r: "Create (evm_Run n) (st_env st) (AccountRef a) (st_data st) (st_gas st)
      (st_gasPrice st) (st_value st) = Some (Done (out, c, err, env', caller', gas))"
    "evm.env_step b (st_env st) env'" "0 \<le> gas" "gas \<le> st_gas st"
    by (auto simp: evm.create_end_def)
  let ?g = "if err = Some ErrContractAddressCollision \<or> isHomestead (st_env st) \<and> err = Some CodeStoreOutOfGasError
    then 0 else gas"
  have "st_execute (evm_Run n) a st = Some (Done (out, err, st\<lparr>st_env := env', st_gas := ?g\<rparr>))"
    using True r(1) by (simp add: st_execute_def Let_def)
  moreover have "0 \<le> ?g" "?g \<le> st_gas st" using r(3,4) g(1) by auto
  ultimately show thesis using env_step_tx [OF env r(2)] by (intro that)
next
  case False
  obtain m d1 where 1: "sdb_GetNonce (st_state st) a = (m, d1)" by fastforce
  have g0: "db_good b (st_state st)" using env by (simp add: tx_env_ok_def db_env_good)
  note r1 = conjunct1 [OF sdb_reads(3) [OF g0 1]]
  let ?d2 = "sdb_SetNonce d1 a (m + 1)"
  have m2: "moves b (st_state st) ?d2 0" by (rule moves_trans0(1) [OF r1 sdb_writes(2) [OF moves_good [OF r1]]])
  obtain d3 c where 3: "st_to (set_state st ?d2) = (c, set_state (set_state st ?d2) d3)"
      "moves b (st_state (set_state st ?d2)) d3 0"
    by (rule st_to_good [of b "set_state st ?d2"]) (use moves_good [OF m2] in simp)
  have m3: "moves b (st_state st) d3 0" using moves_trans0(1) [OF m2] 3(2) by simp
  let ?env = "(st_env st)\<lparr>env_Db := d3\<rparr>"
  have e: "tx_env_ok b ?env" by (rule tx_env_set [OF env m3])
  then have e': "db_env_ok b ?env" "evm_readOnly ?env \<and> isHardfork2 ?env \<longrightarrow> st_value st = 0"
    by (simp_all add: tx_env_ok_def)
  from evm.Call_good [OF call_argsI [OF e'(1) _ args(3) g args(1), of "AccountRef a"] args(2), of c] e'(2)
  obtain out err env' caller' gas where r: "Call (evm_Run n) ?env (AccountRef a) c (st_data st) (st_gas st)
      (st_gasPrice st) (st_value st) = Some (Done (out, err, env', caller', gas))"
    "evm.env_step b ?env env'" "0 \<le> gas" "gas \<le> st_gas st"
    by (auto simp: evm.call_end_def)
  have "st_execute (evm_Run n) a st = Some (Done (out, err, st\<lparr>st_env := env', st_gas := gas\<rparr>))"
    using False 1 3(1) r(1) by (simp add: st_execute_def Let_def)
  moreover have "total_balance (sdb_view d3) = total_balance (env_view (st_env st))" using m3 by (simp add: moves_def)
  ultimately show thesis using env_step_tx [OF e r(2)] r(3,4) by (intro that [of out err gas env']) simp_all
qed

section \<open>Applying a message\<close>

definition intrinsic :: "StateDB Environment \<Rightarrow> Message \<Rightarrow> int" where
  "intrinsic env msg = IntrinsicGas (msg_Data msg) (MessageCreatesContract msg) (isHomestead env)"

lemma IntrinsicGas_pos: "TxGas \<le> IntrinsicGas data cc hs"
proof -
  have "0 \<le> int (length data) - int (length (filter (\<lambda>byt. byt \<noteq> 0) data))" by simp
  then show ?thesis
    by (simp add: IntrinsicGas_def TxGas_def TxGasContractCreation_def TxDataNonZeroGas_def TxDataZeroGas_def Let_def)
qed

lemma st_settle_good:
  assumes env: "tx_env_ok b (st_env st)" and g: "0 \<le> st_gas st" "st_gas st \<le> st_initialGas st - ig" "0 \<le> ig"
    and p: "0 \<le> st_gasPrice st" and a: "msg_From (st_msg st) = Inr a"
    and r: "st_settle (out, vmerr, st) = (res, st')"
  shows "tx_env_ok b (st_env st') \<and> (case res of
      Inl e \<Rightarrow> e = InvalidTxErr (VmError (the vmerr)) \<and>
        total_balance (env_view (st_env st')) = total_balance (env_view (st_env st))
    | Inr (out', used, failed) \<Rightarrow> ig \<le> 2 * used \<and> used \<le> st_initialGas st - st_gas st \<and>
        st_gp st' = st_gp st + (st_initialGas st - used) \<and>
        total_balance (env_view (st_env st')) =
          total_balance (env_view (st_env st)) + st_initialGas st * st_gasPrice st)"
proof (cases "IsValueTransferErr vmerr")
  case True
  with r env show ?thesis by (auto simp: st_settle_def)
next
  case False
  have d: "db_good b (st_state st)" "0 \<le> w_refund (env_view (st_env st))"
    using env by (auto simp: tx_env_ok_def db_env_good)
  obtain d' gas where ref: "refundGas st = (set_state st d')\<lparr>st_gas := gas, st_gp := st_gp st + gas\<rparr>" "db_good b d'"
    "total_balance (sdb_view d') = total_balance (env_view (st_env st)) + gas * st_gasPrice st"
    "st_gas st \<le> gas" "gas \<le> st_initialGas st" "st_initialGas st - st_gas st \<le> 2 * (st_initialGas st - gas)"
    "0 \<le> w_refund (sdb_view d')"
    by (rule refundGas_good [OF d(1) g(1) _ p d(2) a]) (use g in auto)
  let ?used = "st_initialGas st - gas"
  define d2 where "d2 = sdb_AddBalance d' (env_Coinbase (st_env st)) (?used * st_gasPrice st)"
  have m2: "moves b d' d2 (?used * st_gasPrice st)"
    unfolding d2_def using ref(2,5) p by (intro sdb_writes) simp_all
  have st': "res = Inr (out, ?used, vmerr \<noteq> None)" "st_env st' = (st_env st)\<lparr>env_Db := d2\<rparr>" "st_gp st' = st_gp st + gas"
    using r False ref(1) by (auto simp: st_settle_def st_gasUsed_def d2_def Let_def)
  have "tx_env_ok b (st_env st')"
    using env st'(2) moves_good [OF m2] m2 ref(7) by (auto simp: tx_env_ok_def moves_def intro: db_env_set)
  moreover have "total_balance (sdb_view d2) = total_balance (env_view (st_env st)) + st_initialGas st * st_gasPrice st"
    using m2 ref(3) by (simp add: moves_def left_diff_distrib)
  ultimately show ?thesis using st' g ref(4-6) by simp
qed

lemma ApplyMessage_good:
  assumes env: "tx_env_ok b env" and msg: "msg_ok msg" and gp: "gp < 2 ^ 63" and n: "msg_Gas msg < int n"
  obtains (refused) e st' where "ApplyMessage (evm_Run n) env msg gp = Some (Done (Inl e, st'))"
      "tx_env_ok b (st_env st')" "st_gp st' = gp" "env_view (st_env st') = env_view env"
  | (invalid) v st' where "ApplyMessage (evm_Run n) env msg gp = Some (Done (Inl (InvalidTxErr (VmError v)), st'))"
      "tx_env_ok b (st_env st')" "st_gp st' = gp - msg_Gas msg"
      "total_balance (env_view (st_env st')) \<le> total_balance (env_view env)"
  | (applied) out used failed st' where
      "ApplyMessage (evm_Run n) env msg gp = Some (Done (Inr (out, used, failed), st'))"
      "tx_env_ok b (st_env st')" "st_gp st' = gp - used" "used \<le> msg_Gas msg" "msg_Gas msg \<le> gp"
      "intrinsic env msg \<le> 2 * used" "total_balance (env_view (st_env st')) \<le> total_balance (env_view env)"
proof -
  define st0 where "st0 = NewStateTransition env msg gp"
  have st0: "st_env st0 = env" "st_msg st0 = msg" "st_gp st0 = gp" "st_gas st0 = 0" "st_gasPrice st0 = msg_GasPrice msg"
    "st_value st0 = msg_Value msg" "st_data st0 = msg_Data msg"
    by (simp_all add: st0_def NewStateTransition_def)
  have m: "0 \<le> msg_Gas msg" "0 \<le> msg_GasPrice msg" "0 \<le> msg_Value msg" "small (msg_Data msg)"
    using msg by (simp_all add: msg_ok_def)
  have d0: "db_good b (st_state st0)" using env by (simp add: st0 tx_env_ok_def db_env_good)
  show thesis
  proof (rule preCheck_good [of b st0, unfolded st0, OF d0 [unfolded st0] m(1,2) refl])
    fix d' e
    assume *: "preCheck st0 = Some (Some e, st0\<lparr>st_env := env\<lparr>env_Db := d'\<rparr>\<rparr>)" "db_good b d'"
      "sdb_view d' = env_view env"
    have A: "ApplyMessage (evm_Run n) env msg gp = Some (Done (Inl e, st0\<lparr>st_env := env\<lparr>env_Db := d'\<rparr>\<rparr>))"
      using *(1) by (simp add: ApplyMessage_def TransitionDb_def st0_def)
    have "tx_env_ok b (env\<lparr>env_Db := d'\<rparr>)"
      using env *(2,3) by (auto simp: tx_env_ok_def intro: db_env_set)
    with refused [OF A] *(3) show thesis by (simp add: st0)
  next
    fix d1 a
    let ?st1 = "st0\<lparr>st_env := env\<lparr>env_Db := d1\<rparr>, st_gp := gp - msg_Gas msg, st_gas := msg_Gas msg,
      st_initialGas := msg_Gas msg\<rparr>"
    assume *: "preCheck st0 = Some (None, ?st1)" "moves b (env_Db env) d1 (- (msg_Gas msg * msg_GasPrice msg))"
      "msg_Gas msg \<le> gp" "msg_From msg = Inr a"
    obtain ex d2 where 2: "sdb_Exist d1 a = (ex, d2)" by fastforce
    note r2 = conjunct1 [OF sdb_reads(1) [OF moves_good [OF *(2)] 2]]
    define d3 where "d3 = (if \<not> ex then sdb_CreateAccount d2 a else d2)"
    have "moves b d1 d3 0"
      using r2 moves_trans0(1) [OF r2 sdb_writes(3) [OF moves_good [OF r2]]] by (simp add: d3_def)
    from moves_trans0(2) [OF *(2) this]
    have m3: "moves b (env_Db env) d3 (- (msg_Gas msg * msg_GasPrice msg))" .
    let ?st3 = "?st1\<lparr>st_env := env\<lparr>env_Db := d3\<rparr>\<rparr>"
    have e3: "tx_env_ok b (env\<lparr>env_Db := d3\<rparr>)" by (rule tx_env_set [OF env m3])
    have pay: "0 \<le> msg_Gas msg * msg_GasPrice msg" using m by simp
    show thesis
    proof (cases "msg_Gas msg < intrinsic env msg")
      case True
      then have A: "ApplyMessage (evm_Run n) env msg gp = Some (Done (Inl (InvalidTxErr (VmError OutOfGasError)), ?st3))"
        using *(1,4) 2 by (simp add: ApplyMessage_def TransitionDb_def st0_def [symmetric] st0 Let_def st_useGas_def
            intrinsic_def d3_def)
      from invalid [OF A] e3 m3 pay show thesis by (simp add: moves_def)
    next
      case False
      let ?st4 = "?st3\<lparr>st_gas := msg_Gas msg - intrinsic env msg\<rparr>"
      have eq: "ApplyMessage (evm_Run n) env msg gp = map_option (map_outcome st_settle) (st_execute (evm_Run n) a ?st4)"
        using False *(1,4) 2 by (simp add: ApplyMessage_def TransitionDb_def st0_def [symmetric] st0 Let_def st_useGas_def
            intrinsic_def d3_def)
      have ig: "0 \<le> intrinsic env msg"
        using IntrinsicGas_pos [of "msg_Data msg" "MessageCreatesContract msg" "isHomestead env"]
        by (simp add: intrinsic_def TxGas_def)
      obtain out vmerr env' gas where
        ex: "st_execute (evm_Run n) a ?st4 = Some (Done (out, vmerr, ?st4\<lparr>st_env := env', st_gas := gas\<rparr>))"
        "tx_env_ok b env'" "total_balance (env_view env') \<le> total_balance (env_view (st_env ?st4))"
        "env_Coinbase env' = env_Coinbase (st_env ?st4)" "0 \<le> gas" "gas \<le> st_gas ?st4"
        by (rule st_execute_good [of b ?st4 n a]) (use e3 False ig m n gp *(3) in \<open>simp_all add: st0\<close>)
      obtain res st' where s: "st_settle (out, vmerr, ?st4\<lparr>st_env := env', st_gas := gas\<rparr>) = (res, st')" by fastforce
      have run: "ApplyMessage (evm_Run n) env msg gp = Some (Done (res, st'))" using eq ex(1) s by simp
      have S: "tx_env_ok b (st_env st') \<and> (case res of
          Inl e \<Rightarrow> e = InvalidTxErr (VmError (the vmerr)) \<and>
            total_balance (env_view (st_env st')) = total_balance (env_view env')
        | Inr (out', used, failed) \<Rightarrow> intrinsic env msg \<le> 2 * used \<and> used \<le> msg_Gas msg - gas \<and>
            st_gp st' = gp - msg_Gas msg + (msg_Gas msg - used) \<and>
            total_balance (env_view (st_env st')) = total_balance (env_view env') + msg_Gas msg * msg_GasPrice msg)"
        using st_settle_good [OF _ _ _ ig _ _ s, of b a] ex(2,5,6) m(2) *(4) by (simp add: st0 split: sum.splits prod.splits)
      have bal: "total_balance (env_view env') \<le> total_balance (env_view env) - msg_Gas msg * msg_GasPrice msg"
        using ex(3) m3 by (simp add: moves_def)
      show thesis
      proof (cases res)
        case (Inl e)
        with S have e: "e = InvalidTxErr (VmError (the vmerr))" "tx_env_ok b (st_env st')"
          "total_balance (env_view (st_env st')) = total_balance (env_view env')" by simp_all
        from s Inl have "st_gp st' = gp - msg_Gas msg" by (auto simp: st_settle_def Let_def split: if_splits)
        with invalid [OF run [unfolded Inl e(1)]] e(2,3) bal pay show thesis by simp
      next
        case (Inr x)
        obtain out' used failed where x: "x = (out', used, failed)" by (cases x)
        with S Inr have r: "tx_env_ok b (st_env st')" "intrinsic env msg \<le> 2 * used" "used \<le> msg_Gas msg - gas"
          "st_gp st' = gp - msg_Gas msg + (msg_Gas msg - used)"
          "total_balance (env_view (st_env st')) = total_balance (env_view env') + msg_Gas msg * msg_GasPrice msg"
          by simp_all
        with applied [OF run [unfolded Inr x]] ex(5) *(3) bal show thesis by simp
      qed
    qed
  qed
qed


definition rich_env :: "StateDB Environment" where
  "rich_env = ex_env\<lparr>env_Db := sdb_AddBalance ex_state 1 1000000\<rparr>"

definition ex_msg :: Message where
  "ex_msg = \<lparr>msg_From = Inr 1, msg_To = Some 2, msg_GasPrice = 3, msg_Gas = 30000, msg_Value = 10, msg_Nonce = 0,
     msg_Data = []\<rparr>"

lemma rich_env_ok: "tx_env_ok ex_backend rich_env"
proof -
  have "tx_env_ok ex_backend ex_env"
    using ex_env_ok by (simp add: tx_env_ok_def ex_env_def ex_state_def state_New_def sdb_view_def)
  moreover have "moves ex_backend (env_Db ex_env) (sdb_AddBalance ex_state 1 1000000) 1000000"
    using sdb_writes(1) [OF db_env_good [OF ex_env_ok], of 1000000 1] by (simp add: ex_env_def)
  ultimately show ?thesis unfolding rich_env_def by (rule tx_env_set)
qed


text \<open>
  \<^verbatim>\<open>refundGas\<close> overwrites the refund counter of the state, although the result of \<^verbatim>\<open>GetRefund\<close> must not be modified:
  when the counter is below half of the gas used, it is multiplied by the gas price in place. \<^verbatim>\<open>Finalise\<close> clears the
  counter before it is read again.
\<close>

lemma refundGas_overwrites_counter:
  assumes d: "db_good b (st_state st)" and "0 \<le> st_gas st" "0 \<le> st_gasPrice st" "msg_From (st_msg st) = Inr a"
    and c: "c = w_refund (sdb_view (st_state st))" "0 \<le> c" "c < st_gasUsed st div 2"
  shows "w_refund (sdb_view (st_state (refundGas st))) = c * st_gasPrice st"
proof -
  let ?d1 = "sdb_AddBalance (st_state st) a (st_gas st * st_gasPrice st)"
  have m1: "moves b (st_state st) ?d1 (st_gas st * st_gasPrice st)" using d assms(2,3) by (intro sdb_writes) simp_all
  then have "sdb_GetRefund ?d1 = c" by (simp add: moves_def c(1) sdb_GetRefund_def sdb_view_def)
  note g2 = set_refund_good [OF moves_good [OF m1], of "c * st_gasPrice st"]
  have "moves b (?d1\<lparr>refund := c * st_gasPrice st\<rparr>)
      (sdb_AddBalance (?d1\<lparr>refund := c * st_gasPrice st\<rparr>) a (c * st_gasPrice st)) (c * st_gasPrice st)"
    using g2(1) c(2) assms(3) by (intro sdb_writes) simp_all
  with g2(3) \<open>sdb_GetRefund ?d1 = c\<close> assms(4) c(3) show ?thesis
    by (simp add: refundGas_def Let_def big_Div_def BigMin_min moves_def min_def)
qed

end
