(* ===== verification/Block_Types.thy ===== *)
theory Block_Types
  imports Transaction Vm_Types
begin

text \<open>
  \<^verbatim>\<open>core/types/block.go\<close>, \<^verbatim>\<open>receipt.go\<close> and \<^verbatim>\<open>bloom9.go\<close>: headers and blocks, receipts and the bloom filter over their
  logs. The numbers of a header are never nil here, as they are in a header that was decoded or copied. A bloom
  filter and a block nonce are words, read big-endian from the byte arrays of the source.
\<close>

unbundle bit_operations_syntax

section \<open>Headers\<close>

type_synonym Bloom = "2048 word"

definition Bloom_Bytes :: "Bloom \<Rightarrow> bytes" where
  "Bloom_Bytes b = LeftPadBytes (big_Bytes (uint b)) 256"

text \<open>\<^verbatim>\<open>SetBytes\<close> writes to the end of the array and keeps what is before it; bytes that do not fit are a panic.\<close>

definition Bloom_SetBytes :: "Bloom \<Rightarrow> bytes \<Rightarrow> Bloom option" where
  "Bloom_SetBytes b d =
     (if 256 < length d then None
      else Some (word_of_int (big_SetBytes (take (256 - length d) (Bloom_Bytes b) @ d))))"

definition BytesToBloom :: "bytes \<Rightarrow> Bloom option" where
  "BytesToBloom b = Bloom_SetBytes 0 b"

definition HeaderExtraMax :: nat where
  "HeaderExtraMax = 32"

text \<open>\<^verbatim>\<open>EncodeNonce\<close> is big-endian.\<close>

definition EncodeNonce :: "uint64 \<Rightarrow> bytes" where
  "EncodeNonce i = LeftPadBytes (big_Bytes (uint i)) 8"

definition BlockNonce_Uint64 :: "bytes \<Rightarrow> uint64" where
  "BlockNonce_Uint64 n = word_of_int (big_SetBytes n)"

record Header =
  ParentHash :: hash
  UncleHash :: hash
  Coinbase :: address
  h_Root :: hash
  h_TxHash :: hash
  ReceiptHash :: hash
  h_Bloom :: Bloom
  h_Difficulty :: int
  h_Number :: int
  h_GasLimit :: int
  h_GasUsed :: int
  h_Time :: int
  h_Extra :: bytes
  h_Nonce :: uint64

definition header_fields :: "Header \<Rightarrow> goval list" where
  "header_fields h =
     [GBytes (Hash_Bytes (ParentHash h)), GBytes (Hash_Bytes (UncleHash h)), GBytes (Address_Bytes (Coinbase h)),
      GBytes (Hash_Bytes (h_Root h)), GBytes (Hash_Bytes (h_TxHash h)), GBytes (Hash_Bytes (ReceiptHash h)),
      GBytes (Bloom_Bytes (h_Bloom h)), GBigInt (Some (h_Difficulty h)), GBigInt (Some (h_Number h)),
      GBigInt (Some (h_GasLimit h)), GBigInt (Some (h_GasUsed h)), GBigInt (Some (h_Time h)), GBytes (h_Extra h)]"

definition Header_value :: "Header \<Rightarrow> goval" where
  "Header_value h = GStruct (header_fields h @ [GBytes (EncodeNonce (h_Nonce h))])"

definition Header_type :: gotype where
  "Header_type =
     TStruct [TByteArray 32, TByteArray 32, TByteArray 20, TByteArray 32, TByteArray 32, TByteArray 32,
       TByteArray 256, TBigInt, TBigInt, TBigInt, TBigInt, TBigInt, TByteSlice, TByteArray 8]"

definition HeaderToBytes :: "Header \<Rightarrow> (rlp_error + bytes) option" where
  "HeaderToBytes h = Encode (Header_value h)"

definition Header_Hash :: "(bytes \<Rightarrow> hash) \<Rightarrow> Header \<Rightarrow> hash option" where
  "Header_Hash K h = rlpHash K (Header_value h)"

definition HashNoNonce :: "(bytes \<Rightarrow> hash) \<Rightarrow> Header \<Rightarrow> hash option" where
  "HashNoNonce K h = rlpHash K (GSlice False (header_fields h))"

definition CalcUncleHash :: "(bytes \<Rightarrow> hash) \<Rightarrow> Header list \<Rightarrow> hash option" where
  "CalcUncleHash K uncles = rlpHash K (GSlice False (map Header_value uncles))"

definition EmptyUncleHash :: "(bytes \<Rightarrow> hash) \<Rightarrow> hash" where
  "EmptyUncleHash K = the (CalcUncleHash K [])"

record Block =
  b_header :: Header
  b_uncles :: "Header list"
  b_transactions :: "Transaction list"

definition Block_Hash :: "(bytes \<Rightarrow> hash) \<Rightarrow> Block \<Rightarrow> hash option" where
  "Block_Hash K b = Header_Hash K (b_header b)"

definition WithMiningResult :: "Block \<Rightarrow> uint64 \<Rightarrow> Block" where
  "WithMiningResult b nonce = b\<lparr>b_header := (b_header b)\<lparr>h_Nonce := nonce\<rparr>\<rparr>"

section \<open>Receipts\<close>

definition TxFailure :: byte where "TxFailure = 0"
definition TxSuccess :: byte where "TxSuccess = 1"
definition TxStatusUnknown :: byte where "TxStatusUnknown = 0xFF"

record Receipt =
  PostState :: bytes
  CumulativeGasUsed :: int
  r_Bloom :: Bloom
  r_Logs :: "Log list"
  r_TxHash :: hash
  ContractAddress :: address
  r_GasUsed :: int
  r_Status :: byte

definition NewReceipt :: "bytes \<Rightarrow> int \<Rightarrow> Receipt" where
  "NewReceipt root cumulativeGasUsed =
     \<lparr>PostState = root, CumulativeGasUsed = cumulativeGasUsed, r_Bloom = 0, r_Logs = [], r_TxHash = 0,
      ContractAddress = 0, r_GasUsed = 0, r_Status = TxStatusUnknown\<rparr>"

definition statusEncoding :: "Receipt \<Rightarrow> bytes" where
  "statusEncoding r =
     (if length (PostState r) = 0 then (if r_Status r = TxFailure then [] else [0x01]) else PostState r)"

text \<open>\<open>None\<close> is the error for a status of another length.\<close>

definition setStatus :: "Receipt \<Rightarrow> bytes \<Rightarrow> Receipt option" where
  "setStatus r postStateOrStatus =
     (if postStateOrStatus = [0x01] then Some (r\<lparr>r_Status := TxSuccess\<rparr>)
      else if postStateOrStatus = [] then Some (r\<lparr>r_Status := TxFailure\<rparr>)
      else if length postStateOrStatus = 32 then Some (r\<lparr>PostState := postStateOrStatus\<rparr>)
      else None)"

section \<open>The bloom filter\<close>

definition bloom9 :: "(bytes \<Rightarrow> hash) \<Rightarrow> bytes \<Rightarrow> int" where
  "bloom9 K d =
     (let b = Hash_Bytes (K d);
          bit_of = (\<lambda>i. (unat (b ! (i + 1)) + push_bit 8 (unat (b ! i))) AND 2047)
      in fold (\<lambda>i r. r OR push_bit (bit_of i) 1) [0, 2, 4] 0)"

definition LogsBloom :: "(bytes \<Rightarrow> hash) \<Rightarrow> Log list \<Rightarrow> int" where
  "LogsBloom K lgs =
     fold (\<lambda>log bin. fold (\<lambda>t bin. bin OR bloom9 K (Hash_Bytes t)) (Topics log)
                       (bin OR bloom9 K (Address_Bytes (Log_Address log)))) lgs 0"

definition CreateBloom :: "(bytes \<Rightarrow> hash) \<Rightarrow> Receipt list \<Rightarrow> Bloom option" where
  "CreateBloom K receipts = BytesToBloom (big_Bytes (fold (\<lambda>r bin. bin OR LogsBloom K (r_Logs r)) receipts 0))"

definition Bloom_Add :: "(bytes \<Rightarrow> hash) \<Rightarrow> Bloom \<Rightarrow> int \<Rightarrow> Bloom option" where
  "Bloom_Add K b d = Bloom_SetBytes b (big_Bytes (big_SetBytes (Bloom_Bytes b) OR bloom9 K (big_Bytes d)))"

definition BloomLookup :: "(bytes \<Rightarrow> hash) \<Rightarrow> Bloom \<Rightarrow> bytes \<Rightarrow> bool" where
  "BloomLookup K bin topic =
     (let cmp = bloom9 K topic in big_SetBytes (Bloom_Bytes bin) AND cmp = cmp)"

section \<open>Byte arrays as words\<close>

lemma LeftPad_SetBytes: "LeftPadBytes (big_Bytes (big_SetBytes b)) (length b) = b"
  using big_Bytes_SetBytes_pad [of b] by (simp add: LeftPadBytes_def)

lemma word_bytes_inverse:
  assumes "LENGTH('a::len) = 8 * length b"
  shows "LeftPadBytes (big_Bytes (uint (word_of_int (big_SetBytes b) :: 'a word))) (length b) = b"
proof -
  have "big_SetBytes b < 2 ^ LENGTH('a)"
    using big_SetBytes_less [of b] by (simp add: assms power_mult)
  then show ?thesis using big_SetBytes_nonneg [of b] LeftPad_SetBytes [of b] by (simp add: uint_of_int_small)
qed

lemma big_SetBytes_pad_word [simp]: "big_SetBytes (LeftPadBytes (big_Bytes (uint w)) n) = uint w"
  by simp

lemma length_pad_word:
  assumes "LENGTH('a::len) = 8 * n"
  shows "length (LeftPadBytes (big_Bytes (uint (w :: 'a word))) n) = n"
proof -
  have "uint w < 256 ^ n" using uint_lt_pow [of w] by (simp add: assms power_mult)
  then have "length (big_Bytes (uint w)) \<le> n" by (intro length_big_Bytes_le) simp
  then show ?thesis by (simp add: length_LeftPadBytes)
qed

lemma length_Bloom_Bytes [simp]: "length (Bloom_Bytes b) = 256"
  unfolding Bloom_Bytes_def by (rule length_pad_word) simp

lemma length_EncodeNonce [simp]: "length (EncodeNonce i) = 8"
  unfolding EncodeNonce_def by (rule length_pad_word) simp

text \<open>\<^verbatim>\<open>Uint64\<close> of a block nonce inverts \<^verbatim>\<open>EncodeNonce\<close>.\<close>

lemma BlockNonce_EncodeNonce [simp]: "BlockNonce_Uint64 (EncodeNonce i) = i"
  by (simp add: BlockNonce_Uint64_def EncodeNonce_def)

section \<open>No false negatives\<close>

definition covers :: "int \<Rightarrow> int \<Rightarrow> bool" where
  "covers a b \<longleftrightarrow> a AND b = b"

lemma covers_or: "covers (a OR b) b" "covers a b \<Longrightarrow> covers (a OR c) b"
  unfolding covers_def by (auto simp: bit_eq_iff bit_simps)

lemma covers_trans: "covers a b \<Longrightarrow> covers b c \<Longrightarrow> covers a c"
  unfolding covers_def by (metis and.assoc)

lemma fold_or: "fold (\<lambda>x bin. bin OR f x) xs a = a OR fold (\<lambda>x bin. bin OR f x) xs (0 :: int)"
proof (induction xs arbitrary: a)
  case (Cons x xs)
  show ?case by (simp add: Cons.IH [of "a OR f x"] Cons.IH [of "f x"] or.assoc)
qed simp

lemma covers_fold: "covers (fold (\<lambda>x bin. bin OR f x) xs a) b" if "covers a b \<or> (\<exists>x\<in>set xs. covers (f x) b)"
  using that
proof (induction xs arbitrary: a)
  case (Cons x xs)
  have "covers (a OR f x) b" if "covers (f x) b"
    using that covers_or(2) [of "f x" b a] by (simp add: or.commute)
  with Cons.prems Cons.IH [of "a OR f x"] covers_or(2) [of a b] show ?case by auto
qed simp

lemma fold_or_bounds:
  assumes "\<And>x. 0 \<le> f x \<and> f x < 2 ^ n" "0 \<le> a" "a < 2 ^ n"
  shows "0 \<le> fold (\<lambda>x bin. bin OR f x) xs a \<and> fold (\<lambda>x bin. bin OR f x) xs a < (2 :: int) ^ n"
  using assms(2,3)
proof (induction xs arbitrary: a)
  case (Cons x xs)
  have "0 \<le> a OR f x" "a OR f x < 2 ^ n" using Cons.prems assms(1) [of x] by (simp_all add: OR_upper)
  then show ?case using Cons.IH by simp
qed simp

lemma bloom9_bounds: "0 \<le> bloom9 K d \<and> bloom9 K d < 2 ^ 2048"
proof -
  have b: "n AND 2047 < 2048" for n :: nat
    using take_bit_nat_less_exp [of 11 n] by (simp add: take_bit_eq_mask mask_eq_exp_minus_1)
  have "(2::int) ^ (n AND 2047) < 2 ^ 2048" for n using b [of n] by (intro power_strict_increasing) simp_all
  then show ?thesis
    unfolding bloom9_def Let_def by (intro fold_or_bounds) (simp_all add: push_bit_eq_mult)
qed

definition log_bloom :: "(bytes \<Rightarrow> hash) \<Rightarrow> Log \<Rightarrow> int" where
  "log_bloom K l = fold (\<lambda>t bin. bin OR bloom9 K (Hash_Bytes t)) (Topics l) (bloom9 K (Address_Bytes (Log_Address l)))"

lemma LogsBloom_eq: "LogsBloom K lgs = fold (\<lambda>l bin. bin OR log_bloom K l) lgs 0"
proof -
  have "fold (\<lambda>t bin. bin OR bloom9 K (Hash_Bytes t)) ts (a OR b) =
      a OR fold (\<lambda>t bin. bin OR bloom9 K (Hash_Bytes t)) ts b" for ts a b
    using fold_or [of "\<lambda>t. bloom9 K (Hash_Bytes t)" ts "a OR b"] fold_or [of "\<lambda>t. bloom9 K (Hash_Bytes t)" ts b]
    by (simp add: or.assoc)
  then show ?thesis by (simp add: LogsBloom_def log_bloom_def)
qed

lemma log_bloom_bounds: "0 \<le> log_bloom K l \<and> log_bloom K l < 2 ^ 2048"
  unfolding log_bloom_def using bloom9_bounds by (intro fold_or_bounds) auto

lemma LogsBloom_bounds: "0 \<le> LogsBloom K ls \<and> LogsBloom K ls < 2 ^ 2048"
  unfolding LogsBloom_eq using log_bloom_bounds by (intro fold_or_bounds) auto

lemma big_Bytes_0 [simp]: "big_Bytes 0 = []"
  by (simp add: big_Bytes_def)

lemma BytesToBloom_big:
  assumes "0 \<le> v" "v < 2 ^ 2048"
  obtains bl where "BytesToBloom (big_Bytes v) = Some bl" "uint bl = v"
proof -
  have len: "length (big_Bytes v) \<le> 256" using assms by (intro length_big_Bytes_le) simp
  have "Bloom_Bytes 0 = replicate 256 0" by (simp add: Bloom_Bytes_def LeftPadBytes_def)
  then have "big_SetBytes (take (256 - length (big_Bytes v)) (Bloom_Bytes 0) @ big_Bytes v) = v"
    using assms(1) by (simp add: big_SetBytes_append)
  with len have "BytesToBloom (big_Bytes v) = Some (word_of_int v)"
    by (simp add: BytesToBloom_def Bloom_SetBytes_def)
  then show ?thesis using assms by (intro that [of "word_of_int v"]) (simp_all add: uint_of_int_small)
qed

lemma BloomLookup_covers: "BloomLookup K bl d \<longleftrightarrow> covers (uint bl) (bloom9 K d)"
  by (simp add: BloomLookup_def covers_def Bloom_Bytes_def Let_def)

lemma CreateBloom_covers:
  "\<exists>bl. CreateBloom K receipts = Some bl \<and>
    (\<forall>r\<in>set receipts. \<forall>l\<in>set (r_Logs r). BloomLookup K bl (Address_Bytes (Log_Address l)) \<and>
       (\<forall>t\<in>set (Topics l). BloomLookup K bl (Hash_Bytes t)))"
proof -
  let ?v = "fold (\<lambda>r bin. bin OR LogsBloom K (r_Logs r)) receipts 0"
  have "0 \<le> ?v \<and> ?v < 2 ^ 2048" using LogsBloom_bounds by (intro fold_or_bounds) auto
  then obtain bl where bl: "CreateBloom K receipts = Some bl" "uint bl = ?v"
    using BytesToBloom_big [of ?v] by (auto simp: CreateBloom_def)
  have "covers ?v b" if "r \<in> set receipts" "l \<in> set (r_Logs r)" "covers (log_bloom K l) b" for r l b
  proof -
    have "covers (LogsBloom K (r_Logs r)) b" unfolding LogsBloom_eq using that(2,3) by (intro covers_fold) auto
    with that(1) show ?thesis by (intro covers_fold) auto
  qed
  moreover have "covers (log_bloom K l) (bloom9 K (Address_Bytes (Log_Address l)))" for l
    unfolding log_bloom_def by (rule covers_fold) (simp add: covers_def)
  moreover have "covers (log_bloom K l) (bloom9 K (Hash_Bytes t))" if "t \<in> set (Topics l)" for l t
    unfolding log_bloom_def using that by (intro covers_fold disjI2 bexI [of _ t]) (simp_all add: covers_def)
  ultimately show ?thesis using bl by (auto simp: BloomLookup_covers)
qed

text \<open>
  C21. The bloom filter of a block has no false negatives: \<^verbatim>\<open>CreateBloom\<close> does not panic, and \<^verbatim>\<open>BloomLookup\<close> finds in its
  result the address and every topic of every log of the receipts, whatever the hash function.
\<close>

theorem bloom_finds_all_logs:
  "\<exists>bl. CreateBloom K receipts = Some bl \<and>
    (\<forall>r\<in>set receipts. \<forall>l\<in>set (r_Logs r). BloomLookup K bl (Address_Bytes (Log_Address l)) \<and>
       (\<forall>t\<in>set (Topics l). BloomLookup K bl (Hash_Bytes t)))"
  by (rule CreateBloom_covers)

definition ex_log :: Log where
  "ex_log = NewLog 5 [7, 9] [] 1"

theorem bloom_finds_all_logs_witness:
  "\<exists>bl. CreateBloom (\<lambda>b. of_nat (length b)) [(NewReceipt [] 21000)\<lparr>r_Logs := [ex_log]\<rparr>] = Some bl \<and>
    BloomLookup (\<lambda>b. of_nat (length b)) bl (Address_Bytes 5) \<and> BloomLookup (\<lambda>b. of_nat (length b)) bl (Hash_Bytes 9)"
  using bloom_finds_all_logs [of "\<lambda>b. of_nat (length b)" "[(NewReceipt [] 21000)\<lparr>r_Logs := [ex_log]\<rparr>]"]
  by (auto simp: ex_log_def NewLog_def)

text \<open>Adding to a filter keeps what it has and does not panic.\<close>

lemma Bloom_Add_covers:
  obtains bl where "Bloom_Add K b d = Some bl" "BloomLookup K bl (big_Bytes d)"
    "\<And>t. BloomLookup K b t \<Longrightarrow> BloomLookup K bl t"
proof -
  let ?v = "uint b OR bloom9 K (big_Bytes d)"
  have v: "0 \<le> ?v" "?v < 2 ^ 2048" "uint b \<le> ?v"
  proof -
    have "uint b < 2 ^ 2048" using uint_lt_pow [of b] by simp
    with bloom9_bounds [of K "big_Bytes d"] show "?v < 2 ^ 2048" by (intro OR_upper) auto
  qed (use bloom9_bounds [of K "big_Bytes d"] in \<open>simp_all add: or_greater_eq\<close>)
  let ?k = "256 - length (big_Bytes ?v)"
  have len: "length (big_Bytes ?v) \<le> 256" using v by (intro length_big_Bytes_le) simp
  have "Bloom_Add K b d = Some (word_of_int (big_SetBytes (take ?k (Bloom_Bytes b) @ big_Bytes ?v)))"
    using len by (simp add: Bloom_Add_def Bloom_SetBytes_def Bloom_Bytes_def)
  moreover have "big_SetBytes (take ?k (Bloom_Bytes b)) = 0"
  proof -
    have "length (drop ?k (Bloom_Bytes b)) = length (big_Bytes ?v)" using len by simp
    then have "uint b = big_SetBytes (take ?k (Bloom_Bytes b)) * 256 ^ length (big_Bytes ?v) +
        big_SetBytes (drop ?k (Bloom_Bytes b))"
      using big_SetBytes_append [of "take ?k (Bloom_Bytes b)" "drop ?k (Bloom_Bytes b)"] by (simp add: Bloom_Bytes_def)
    moreover have "uint b < 256 ^ length (big_Bytes ?v)"
      using v(1,3) big_SetBytes_less [of "big_Bytes ?v"] by simp
    ultimately have "big_SetBytes (take ?k (Bloom_Bytes b)) * 256 ^ length (big_Bytes ?v) < 1 * 256 ^ length (big_Bytes ?v)"
      using big_SetBytes_nonneg [of "drop ?k (Bloom_Bytes b)"] by linarith
    then have "big_SetBytes (take ?k (Bloom_Bytes b)) < 1" by (simp only: mult_less_cancel_right) simp
    then show ?thesis using big_SetBytes_nonneg [of "take ?k (Bloom_Bytes b)"] by linarith
  qed
  ultimately have "Bloom_Add K b d = Some (word_of_int ?v)" using v(1) by (simp add: big_SetBytes_append)
  moreover have "uint (word_of_int ?v :: Bloom) = ?v" using v by (simp add: uint_of_int_small)
  ultimately show ?thesis
    using covers_or by (intro that [of "word_of_int ?v"]) (simp_all add: BloomLookup_covers)
qed

section \<open>Headers on the wire\<close>

definition header_ok :: "Header \<Rightarrow> bool" where
  "header_ok h \<longleftrightarrow> 0 \<le> h_Difficulty h \<and> 0 \<le> h_Number h \<and> 0 \<le> h_GasLimit h \<and> 0 \<le> h_GasUsed h \<and> 0 \<le> h_Time h"

lemma typed_Header: "header_ok h \<Longrightarrow> typed Header_type (Header_value h)"
  by (auto simp: Header_type_def Header_value_def header_fields_def header_ok_def length_Hash_Bytes
      length_Address_Bytes intro!: typed.intros)

lemma Header_value_inject: "Header_value h = Header_value h' \<Longrightarrow> h = h'"
proof -
  assume "Header_value h = Header_value h'"
  then have eqs: "Hash_Bytes (ParentHash h) = Hash_Bytes (ParentHash h')" "Hash_Bytes (UncleHash h) = Hash_Bytes (UncleHash h')"
    "Address_Bytes (Coinbase h) = Address_Bytes (Coinbase h')" "Hash_Bytes (h_Root h) = Hash_Bytes (h_Root h')"
    "Hash_Bytes (h_TxHash h) = Hash_Bytes (h_TxHash h')" "Hash_Bytes (ReceiptHash h) = Hash_Bytes (ReceiptHash h')"
    "Bloom_Bytes (h_Bloom h) = Bloom_Bytes (h_Bloom h')" "EncodeNonce (h_Nonce h) = EncodeNonce (h_Nonce h')"
    "h_Difficulty h = h_Difficulty h'" "h_Number h = h_Number h'" "h_GasLimit h = h_GasLimit h'"
    "h_GasUsed h = h_GasUsed h'" "h_Time h = h_Time h'" "h_Extra h = h_Extra h'"
    by (simp_all add: Header_value_def header_fields_def)
  have H: "x = y" if "Hash_Bytes x = Hash_Bytes y" for x y using that by (metis BytesToHash_Hash_Bytes)
  have A: "x = y" if "Address_Bytes x = Address_Bytes y" for x y using that by (metis BytesToAddress_Address_Bytes)
  have N: "x = y" if "EncodeNonce x = EncodeNonce y" for x y using that by (metis BlockNonce_EncodeNonce)
  have B: "x = y" if "Bloom_Bytes x = Bloom_Bytes y" for x y
    using that unfolding Bloom_Bytes_def by (metis big_SetBytes_pad_word word_uint_eqI)
  from eqs show ?thesis by (cases h; cases h') (simp add: H [OF eqs(1)] H A N B)
qed

text \<open>Every value of the type comes from a header.\<close>

lemma typed_Header_cases:
  assumes "typed Header_type v"
  obtains h where "header_ok h" "v = Header_value h"
proof -
  from assms obtain b1 b2 b3 b4 b5 b6 b7 i1 i2 i3 i4 i5 e n where
    v: "v = GStruct [GBytes b1, GBytes b2, GBytes b3, GBytes b4, GBytes b5, GBytes b6, GBytes b7, GBigInt (Some i1),
      GBigInt (Some i2), GBigInt (Some i3), GBigInt (Some i4), GBigInt (Some i5), GBytes e, GBytes n]"
    and len: "length b1 = 32" "length b2 = 32" "length b3 = 20" "length b4 = 32" "length b5 = 32" "length b6 = 32"
      "length b7 = 256" "length n = 8" "0 \<le> i1" "0 \<le> i2" "0 \<le> i3" "0 \<le> i4" "0 \<le> i5"
    by (auto simp: Header_type_def typed_simps list_all2_Cons1)
  let ?h = "\<lparr>ParentHash = word_of_int (big_SetBytes b1), UncleHash = word_of_int (big_SetBytes b2),
    Coinbase = word_of_int (big_SetBytes b3), h_Root = word_of_int (big_SetBytes b4),
    h_TxHash = word_of_int (big_SetBytes b5), ReceiptHash = word_of_int (big_SetBytes b6),
    h_Bloom = word_of_int (big_SetBytes b7), h_Difficulty = i1, h_Number = i2, h_GasLimit = i3, h_GasUsed = i4,
    h_Time = i5, h_Extra = e, h_Nonce = word_of_int (big_SetBytes n)\<rparr>"
  have H: "Hash_Bytes (word_of_int (big_SetBytes b)) = b" if "length b = 32" for b
    using word_bytes_inverse [where 'a = 256, of b] that by (simp add: Hash_Bytes_def)
  have A: "Address_Bytes (word_of_int (big_SetBytes b)) = b" if "length b = 20" for b
    using word_bytes_inverse [where 'a = 160, of b] that by (simp add: Address_Bytes_def)
  have B: "Bloom_Bytes (word_of_int (big_SetBytes b)) = b" if "length b = 256" for b
    using word_bytes_inverse [where 'a = 2048, of b] that by (simp add: Bloom_Bytes_def)
  have N: "EncodeNonce (word_of_int (big_SetBytes b)) = b" if "length b = 8" for b
    using word_bytes_inverse [where 'a = 64, of b] that by (simp add: EncodeNonce_def)
  have "header_ok ?h" using len by (simp add: header_ok_def)
  moreover have "v = Header_value ?h" using len by (simp add: v Header_value_def header_fields_def H A B N)
  ultimately show ?thesis by (rule that)
qed

text \<open>The fuel that is enough for decoding \<open>n\<close> bytes as a header.\<close>

definition header_fuel :: "nat \<Rightarrow> nat" where
  "header_fuel n = 3 * n + tsize Header_type"

lemma plain_Header [simp]: "plain Header_type"
  by (simp add: Header_type_def)

text \<open>Every header with these sizes is encoded and decoded back.\<close>

lemma Header_round_trip:
  assumes "header_ok h" "length (encoding (Header_value h)) \<le> 2 ^ 48"
  shows "\<exists>b s. HeaderToBytes h = Some (Inr b) \<and> b = encoding (Header_value h) \<and> DecodeBytes (header_fuel (length b)) b Header_type = Ret (Header_value h) s"
proof -
  have "length (encoding (Header_value h)) < 2 ^ 64" using assms(2) by simp
  from writer_emits [OF this, of encbuf_empty] typed_not_negative [OF typed_Header [OF assms(1)]]
  have "HeaderToBytes h = Some (Inr (encoding (Header_value h)))"
    by (auto simp: HeaderToBytes_def Encode_def toBytes_emits)
  moreover have "\<exists>s. DecodeBytes (header_fuel (length (encoding (Header_value h)))) (encoding (Header_value h))
      Header_type = Ret (Header_value h) s"
    using assms(2) by (intro DecodeBytes_cases(2) typed_Header [OF assms(1)])
      (simp_all add: max_alloc_def header_fuel_def)
  ultimately show ?thesis by blast
qed

text \<open>
  C22. Headers on the wire: what decodes as a header is well-typed, that is, the bytes are the encoding of exactly
  one header, whose numbers are not negative and whose hashes, bloom filter and nonce have their sizes; all other
  bytes are refused with an error.
\<close>

theorem decoded_header_typed:
  assumes "length b \<le> 2 ^ 48"
  shows "(\<exists>e s. DecodeBytes (header_fuel (length b)) b Header_type = Fail e s) \<or>
    (\<exists>v s. DecodeBytes (header_fuel (length b)) b Header_type = Ret v s \<and>
      (\<exists>!h. header_ok h \<and> HeaderToBytes h = Some (Inr b) \<and> v = Header_value h))"
proof -
  let ?n = "header_fuel (length b)"
  have len: "length b \<le> max_alloc" "3 * length b + tsize Header_type \<le> ?n"
    using assms by (simp_all add: max_alloc_def header_fuel_def)
  consider e s where "DecodeBytes ?n b Header_type = Fail e s"
    | v s where "DecodeBytes ?n b Header_type = Ret v s" "typed Header_type v" "b = encoding v"
    using DecodeBytes_cases(1) [OF plain_Header len] by blast
  then show ?thesis
  proof cases
    case (2 v s)
    then obtain h where h: "header_ok h" "v = Header_value h" by (auto elim: typed_Header_cases)
    have "length (encoding v) < 2 ^ 64" using assms 2(3) by simp
    from writer_emits [OF this, of encbuf_empty] typed_not_negative [OF 2(2)] 2(3) h(2)
    have "HeaderToBytes h = Some (Inr b)" by (auto simp: HeaderToBytes_def Encode_def toBytes_emits)
    with 2(1) h Header_value_inject show ?thesis by blast
  qed blast
qed

text \<open>The header of an empty block.\<close>

definition ex_header :: Header where
  "ex_header = \<lparr>ParentHash = 1, UncleHash = 2, Coinbase = 3, h_Root = 4, h_TxHash = 5, ReceiptHash = 6, h_Bloom = 0,
     h_Difficulty = 10000, h_Number = 1, h_GasLimit = 5000, h_GasUsed = 0, h_Time = 10, h_Extra = [], h_Nonce = 7\<rparr>"

lemma ex_header_length: "length (encoding (Header_value ex_header)) \<le> 2 ^ 48"
proof -
  have n: "nat_bytes 256 = [1, 0]" "nat_bytes 464 = [1, 0xD0]" "nat_bytes 10000 = [0x27, 0x10]" "nat_bytes 5000 = [0x13, 0x88]"
    "nat_bytes 10 = [10]" "nat_bytes (Suc 0) = [1]"
    by (simp_all add: nat_bytes.simps)
  show ?thesis
    by (simp add: Header_value_def header_fields_def ex_header_def enc_string_def enc_list_def header_def big_Bytes_def n
        length_Hash_Bytes length_Address_Bytes)
qed

theorem decoded_header_typed_witness:
  "\<exists>b v s h. HeaderToBytes ex_header = Some (Inr b) \<and> DecodeBytes (header_fuel (length b)) b Header_type = Ret v s \<and>
     header_ok h \<and> HeaderToBytes h = Some (Inr b) \<and> v = Header_value h"
proof -
  let ?b = "encoding (Header_value ex_header)"
  have "header_ok ex_header" by (simp add: header_ok_def ex_header_def)
  from Header_round_trip [OF this ex_header_length] obtain b s where
    b: "HeaderToBytes ex_header = Some (Inr b)" "b = ?b" "DecodeBytes (header_fuel (length b)) b Header_type = Ret (Header_value ex_header) s"
    by blast
  from ex_header_length decoded_header_typed [of b] b show ?thesis by fastforce
qed

section \<open>The status of a receipt\<close>

text \<open>What \<^verbatim>\<open>setStatus\<close> reads from \<^verbatim>\<open>statusEncoding\<close>: the state root if there is one, else whether the transaction failed.\<close>

lemma setStatus_statusEncoding:
  assumes "length (PostState r) = 32 \<or> PostState r = []"
  shows "setStatus r0 (statusEncoding r) = Some (if PostState r = []
     then r0\<lparr>r_Status := (if r_Status r = TxFailure then TxFailure else TxSuccess)\<rparr> else r0\<lparr>PostState := PostState r\<rparr>)"
proof -
  have "PostState r \<noteq> [0x01]" using assms by auto
  with assms show ?thesis by (auto simp: setStatus_def statusEncoding_def)
qed

end
