(* ===== verification/Rewards.thy ===== *)
theory Rewards
  imports Block_Types
begin

text \<open>
  The rewards of \<^verbatim>\<open>core/state_processor.go\<close>: which era a block is in, what its miner earns, and what the miners of
  its uncles earn.
\<close>

section \<open>The functions\<close>

definition MaximumBlockReward :: int where
  "MaximumBlockReward = 5000000000000000000 * 10"

definition DisinflationRateQuotient :: int where "DisinflationRateQuotient = 249"
definition DisinflationRateDivisor :: int where "DisinflationRateDivisor = 250"

text \<open>The numbers of the eras that the schedule skips.\<close>

definition skip_eras :: "int \<Rightarrow> int" where
  "skip_eras era = (if era \<ge> 45 \<and> era < 50 then era + 475 else if era \<ge> 56 then era + 865 else era)"

function GetBlockWinnerRewardByEra :: "int \<Rightarrow> int" where
  "GetBlockWinnerRewardByEra eraOrig =
     (if eraOrig = 0 then MaximumBlockReward
      else
        (let era = skip_eras eraOrig;
             q = big_Exp DisinflationRateQuotient era 0;
             d = big_Exp DisinflationRateDivisor era 0;
             r = big_Div (MaximumBlockReward * q) d
         in if era \<ge> 36 \<and> era < 45 then
              [2000, 1300, 1200, 1100, 1000, 900, 800, 700, 625] ! nat (era - 36) * 10000000000000000
            else if era \<ge> 50 \<and> era < 56 then
              [500, 400, 300, 225, 160, 125] ! nat (era - 50) * 10000000000000000
            else if era \<ge> 33 \<and> era < 36 then
              (let r = GetBlockWinnerRewardByEra (33 - 1) in r - big_Div r (2 * (45 - 33)) * (era - 33 + 1))
            else r))"
  by pat_completeness auto

termination
  by (relation "measure (\<lambda>era. if 33 \<le> era \<and> era < 36 then 1 else 0)") (auto simp: skip_eras_def split: if_splits)

declare GetBlockWinnerRewardByEra.simps [simp del]

definition getEraUncleBlockReward :: "int \<Rightarrow> int" where
  "getEraUncleBlockReward era = big_Div (GetBlockWinnerRewardByEra era) 32"

definition GetBlockUncleRewardByEra :: "int \<Rightarrow> Header \<Rightarrow> Header \<Rightarrow> int" where
  "GetBlockUncleRewardByEra era hdr uncle = getEraUncleBlockReward era"

definition GetBlockWinnerRewardForUnclesByEra :: "int \<Rightarrow> Header list \<Rightarrow> int" where
  "GetBlockWinnerRewardForUnclesByEra era uncles = fold (\<lambda>_ r. r + getEraUncleBlockReward era) uncles 0"

definition GetBlockEra :: "int \<Rightarrow> int \<Rightarrow> int" where
  "GetBlockEra blockNum eraLength =
     (if big_Sign blockNum < 1 then 0
      else
        (let remainder = big_Mod (blockNum - 1) eraLength;
             start = blockNum - remainder;
             d = big_Div start eraLength;
             dremainder = big_Mod d 1
         in d - dremainder))"

section \<open>Eras\<close>

text \<open>Eras of more than one block are numbered from 0: the era of block \<open>n\<close> is \<open>(n - 1) div L\<close>.\<close>

lemma GetBlockEra_eq:
  assumes "1 < L"
  shows "GetBlockEra n L = (if n < 1 then 0 else (n - 1) div L)"
proof (cases "n < 1")
  case False
  have "n - (n - 1) mod L = 1 + L * ((n - 1) div L)" by (simp add: minus_mod_eq_mult_div [symmetric])
  then have "(n - (n - 1) mod L) div L = (n - 1) div L" using assms by simp
  with False assms show ?thesis
    by (simp add: GetBlockEra_def big_Sign_def big_Mod_def big_Div_def Let_def)
qed (simp add: GetBlockEra_def big_Sign_def sgn_if)

section \<open>The schedule\<close>

text \<open>The reward that is left after \<open>n\<close> eras of disinflation.\<close>

definition disinflated :: "nat \<Rightarrow> int" where
  "disinflated n = (MaximumBlockReward * 249 ^ n) div 250 ^ n"

lemma disinflated_Suc: "disinflated (Suc n) \<le> disinflated n"
proof -
  have "(250 * (MaximumBlockReward * 249 ^ n)) div (250 * 250 ^ n) = disinflated n"
    unfolding disinflated_def by (rule div_mult_mult1) simp
  moreover have "disinflated (Suc n) \<le> (250 * (MaximumBlockReward * 249 ^ n)) div (250 * 250 ^ n)"
    using zdiv_mono1 [of "MaximumBlockReward * 249 ^ Suc n" "250 * (MaximumBlockReward * 249 ^ n)" "250 ^ Suc n"]
    by (simp add: disinflated_def MaximumBlockReward_def)
  ultimately show ?thesis by simp
qed

lemma disinflated_mono: "m \<le> n \<Longrightarrow> disinflated n \<le> disinflated m"
  using lift_Suc_antimono_le [of disinflated m n] disinflated_Suc by simp

lemma disinflated_nonneg: "0 \<le> disinflated n"
  by (simp add: disinflated_def MaximumBlockReward_def pos_imp_zdiv_nonneg_iff)

text \<open>Bounds of \<open>(249 / 250) ^ n\<close>, in units of 1 / 100000000, that are multiplied with rounding.\<close>

definition above :: "nat \<Rightarrow> int \<Rightarrow> bool" where
  "above n x \<longleftrightarrow> 0 \<le> x \<and> 100000000 * 249 ^ n \<le> x * 250 ^ n"

definition below :: "nat \<Rightarrow> int \<Rightarrow> bool" where
  "below n x \<longleftrightarrow> 0 \<le> x \<and> x * 250 ^ n \<le> 100000000 * 249 ^ n"

lemma above_add:
  assumes "above m x" "above n y" "x * y \<le> z * 100000000"
  shows "above (m + n) z"
proof -
  have "(100000000 * 249 ^ m) * (100000000 * 249 ^ n) \<le> (x * 250 ^ m) * (y * 250 ^ n)"
    by (rule mult_mono) (use assms(1,2) in \<open>simp_all add: above_def\<close>)
  also have "\<dots> = x * y * 250 ^ (m + n)" by (simp add: power_add ac_simps)
  also have "\<dots> \<le> z * 100000000 * 250 ^ (m + n)" using assms(3) by (intro mult_right_mono) simp_all
  finally have "100000000 * 249 ^ (m + n) \<le> z * 250 ^ (m + n)" by (simp add: power_add ac_simps)
  moreover have "0 \<le> x * y" using assms(1,2) by (simp add: above_def)
  ultimately show ?thesis using assms(3) by (simp add: above_def)
qed

lemma below_add:
  assumes "below m x" "below n y" "0 \<le> z" "z * 100000000 \<le> x * y"
  shows "below (m + n) z"
proof -
  have "z * 100000000 * 250 ^ (m + n) \<le> x * y * 250 ^ (m + n)" using assms(4) by (intro mult_right_mono) simp_all
  also have "\<dots> = (x * 250 ^ m) * (y * 250 ^ n)" by (simp add: power_add ac_simps)
  also have "\<dots> \<le> (100000000 * 249 ^ m) * (100000000 * 249 ^ n)"
    by (rule mult_mono) (use assms(1,2) in \<open>simp_all add: below_def\<close>)
  finally have "z * 250 ^ (m + n) \<le> 100000000 * 249 ^ (m + n)" by (simp add: power_add ac_simps)
  with assms(3) show ?thesis by (simp add: below_def)
qed

lemma disinflated_above: "above n x \<Longrightarrow> disinflated n \<le> 500000000000 * x"
  unfolding disinflated_def
  using zdiv_mono1 [of "MaximumBlockReward * 249 ^ n" "(500000000000 * x) * 250 ^ n" "250 ^ n"]
  by (simp add: above_def MaximumBlockReward_def)

lemma disinflated_below: "below n x \<Longrightarrow> 500000000000 * x \<le> disinflated n"
  unfolding disinflated_def
  using zdiv_mono1 [of "(500000000000 * x) * 250 ^ n" "MaximumBlockReward * 249 ^ n" "250 ^ n"]
  by (simp add: below_def MaximumBlockReward_def)

lemma disinflated_bounds: "disinflated 520 \<le> 6250000000000000000" "5000000000000000000 \<le> disinflated 524"
    "disinflated 921 \<le> 1250000000000000000" "32000000000000000000 \<le> disinflated 32"
proof -
  have u8: "above 8 96844444" by (simp add: above_def)
  have u16: "above 16 93788464" using above_add [OF u8 u8, of 93788464] by simp
  have u32: "above 32 87962760" using above_add [OF u16 u16, of 87962760] by simp
  have u64: "above 64 77374472" using above_add [OF u32 u32, of 77374472] by simp
  have u128: "above 128 59868090" using above_add [OF u64 u64, of 59868090] by simp
  have u256: "above 256 35841883" using above_add [OF u128 u128, of 35841883] by simp
  have u512: "above 512 12846406" using above_add [OF u256 u256, of 12846406] by simp
  have u520: "above 520 12441031" using above_add [OF u512 u8, of 12441031] by simp
  have u768: "above 768 4604394" using above_add [OF u512 u256, of 4604394] by simp
  have u896: "above 896 2756563" using above_add [OF u768 u128, of 2756563] by simp
  have u912: "above 912 2585339" using above_add [OF u896 u16, of 2585339] by simp
  have u920: "above 920 2503758" using above_add [OF u912 u8, of 2503758] by simp
  have "above 1 99600000" by (simp add: above_def)
  from above_add [OF u920 this, of 2493744] have u921: "above 921 2493744" by simp
  have l4: "below 4 98409574" by (simp add: below_def)
  have l8: "below 8 96844442" using below_add [OF l4 l4, of 96844442] by simp
  have l16: "below 16 93788459" using below_add [OF l8 l8, of 93788459] by simp
  have l32: "below 32 87962750" using below_add [OF l16 l16, of 87962750] by simp
  have l64: "below 64 77374453" using below_add [OF l32 l32, of 77374453] by simp
  have l128: "below 128 59868059" using below_add [OF l64 l64, of 59868059] by simp
  have l256: "below 256 35841844" using below_add [OF l128 l128, of 35841844] by simp
  have l512: "below 512 12846377" using below_add [OF l256 l256, of 12846377] by simp
  have l520: "below 520 12441002" using below_add [OF l512 l8, of 12441002] by simp
  have l524: "below 524 12243137" using below_add [OF l520 l4, of 12243137] by simp
  show "disinflated 520 \<le> 6250000000000000000" using disinflated_above [OF u520] by simp
  show "5000000000000000000 \<le> disinflated 524" using disinflated_below [OF l524] by simp
  show "disinflated 921 \<le> 1250000000000000000"
    using disinflated_above [OF u921] by simp
  show "32000000000000000000 \<le> disinflated 32" using disinflated_below [OF l32] by simp
qed

text \<open>The schedule in closed form.\<close>

lemma reward_eq:
  assumes "0 \<le> era"
  shows "GetBlockWinnerRewardByEra era =
    (if era \<le> 32 then disinflated (nat era)
     else if era < 36 then disinflated 32 - disinflated 32 div 24 * (era - 32)
     else if era < 45 then [2000, 1300, 1200, 1100, 1000, 900, 800, 700, 625] ! nat (era - 36) * 10000000000000000
     else if era < 50 then disinflated (nat (era + 475))
     else if era < 56 then [500, 400, 300, 225, 160, 125] ! nat (era - 50) * 10000000000000000
     else disinflated (nat (era + 865)))"
proof -
  have small: "GetBlockWinnerRewardByEra e = disinflated (nat e)" if "0 \<le> e" "e \<le> 32" for e
    using that by (subst GetBlockWinnerRewardByEra.simps)
      (auto simp: skip_eras_def big_Exp_def big_Div_def disinflated_def DisinflationRateQuotient_def
        DisinflationRateDivisor_def Let_def)
  show ?thesis
  proof (cases "era \<le> 32")
    case False
    then show ?thesis
      by (subst GetBlockWinnerRewardByEra.simps)
        (simp add: small skip_eras_def big_Exp_def big_Div_def disinflated_def DisinflationRateQuotient_def
          DisinflationRateDivisor_def Let_def)
  qed (simp add: small assms)
qed

lemma listed_step:
  "1 \<le> i \<Longrightarrow> i < 9 \<Longrightarrow> [2000, 1300, 1200, 1100, 1000, 900, 800, 700, 625] ! i \<le>
     ([2000, 1300, 1200, 1100, 1000, 900, 800, 700, 625] ! (i - 1) :: int)"
  "1 \<le> i \<Longrightarrow> i < 6 \<Longrightarrow> [500, 400, 300, 225, 160, 125] ! i \<le> ([500, 400, 300, 225, 160, 125] ! (i - 1) :: int)"
  by (auto simp: nth_Cons' less_Suc_eq numeral_eq_Suc)

lemma reward_step:
  assumes "0 \<le> era"
  shows "GetBlockWinnerRewardByEra (era + 1) \<le> GetBlockWinnerRewardByEra era"
proof -
  have r: "0 \<le> disinflated 32 div 24" by (simp add: disinflated_nonneg pos_imp_zdiv_nonneg_iff)
  consider "era < 32" | "32 \<le> era" "era < 35" | "era = 35" | "36 \<le> era" "era < 44" | "era = 44" | "45 \<le> era" "era < 49"
    | "era = 49" | "50 \<le> era" "era < 55" | "era = 55" | "56 \<le> era" by linarith
  then show ?thesis
  proof cases
    case 1
    with assms show ?thesis using disinflated_mono [of "nat era" "nat (era + 1)"] by (simp add: reward_eq)
  next
    case 2
    have "disinflated 32 div 24 * (era - 32) \<le> disinflated 32 div 24 * (era + 1 - 32)"
      using r by (intro mult_left_mono) simp_all
    with 2 show ?thesis by (auto simp: reward_eq)
  next
    case 4
    with listed_step(1) [of "nat (era - 35)"] show ?thesis
      by (simp add: reward_eq nat_diff_distrib algebra_simps)
  next
    case 6
    then show ?thesis using disinflated_mono [of "nat (era + 475)" "nat (476 + era)"] by (simp add: reward_eq)
  next
    case 8
    with listed_step(2) [of "nat (era - 49)"] show ?thesis
      by (simp add: reward_eq nat_diff_distrib algebra_simps)
  next
    case 10
    then show ?thesis using disinflated_mono [of "nat (era + 865)" "nat (866 + era)"] by (simp add: reward_eq)
  qed (use disinflated_bounds in \<open>simp_all add: reward_eq\<close>)
qed

lemma reward_mono:
  assumes "0 \<le> x" "x \<le> y"
  shows "GetBlockWinnerRewardByEra y \<le> GetBlockWinnerRewardByEra x"
  using assms(2)
proof (induction y rule: int_ge_induct)
  case (step i)
  with reward_step [of i] assms(1) show ?case by auto
qed simp

lemma reward_nonneg: "0 \<le> e \<Longrightarrow> 0 \<le> GetBlockWinnerRewardByEra e"
  using reward_mono [of e "e + 56"] disinflated_nonneg [of "nat (e + 56 + 865)"] by (simp add: reward_eq [of "e + 56"])

text \<open>
  C25. The reward of a block never grows from one era to a later one, is never negative and never more than the
  maximum of 50 coins, over the disinflation formula, the listed rewards and the skipped eras together.
\<close>

theorem reward_schedule:
  assumes "0 \<le> e" "e \<le> e'"
  shows "0 \<le> GetBlockWinnerRewardByEra e' \<and> GetBlockWinnerRewardByEra e' \<le> GetBlockWinnerRewardByEra e \<and>
    GetBlockWinnerRewardByEra e \<le> MaximumBlockReward"
proof -
  have "GetBlockWinnerRewardByEra 0 = MaximumBlockReward" by (subst GetBlockWinnerRewardByEra.simps) simp
  then show ?thesis using reward_mono [of 0 e] reward_mono [of e e'] reward_nonneg [of e'] assms by auto
qed

theorem reward_schedule_witness:
  "0 \<le> GetBlockWinnerRewardByEra 56 \<and> GetBlockWinnerRewardByEra 56 \<le> GetBlockWinnerRewardByEra 55 \<and>
   GetBlockWinnerRewardByEra 55 \<le> MaximumBlockReward"
  using reward_schedule [of 55 56] by simp

end
