(* ===== verification/State_Processor.thy ===== *)
theory State_Processor
  imports State_Transition State_Properties Rewards
begin

text \<open>
  \<^verbatim>\<open>core/state_processor.go\<close>: applying the transactions of a block, one after the other, on one state database, and
  paying the rewards. What lies outside of the modelled code is collected in a record: hashing and the recovery of
  public keys, the precompiled contracts, the hash of the state trie, the look-up of earlier blocks and the order in
  which Go iterates the map of dirty accounts. The build without SputnikVM is modelled (\<^verbatim>\<open>UseSputnikVM\<close> not
  \<^verbatim>\<open>"true"\<close>).
\<close>

section \<open>The environment of a transaction\<close>

record Externals =
  x_Keccak256 :: "bytes \<Rightarrow> hash"
  x_Ecrecover :: "bytes \<Rightarrow> bytes \<Rightarrow> string + bytes"
  x_PrecompiledPreAtlantis :: "address \<rightharpoonup> PrecompiledAccount"
  x_PrecompiledAtlantis :: "address \<rightharpoonup> PrecompiledAccount"
  x_TrieHash :: "(address \<rightharpoonup> Account) \<Rightarrow> hash"
  x_GetHash :: "hash \<Rightarrow> uint64 \<Rightarrow> hash"
  x_order :: "(address \<rightharpoonup> int) \<Rightarrow> address list"

text \<open>The error of the encoder is ignored; there is none for these two values.\<close>

definition CreateAddress :: "(bytes \<Rightarrow> hash) \<Rightarrow> address \<Rightarrow> uint64 \<Rightarrow> address" where
  "CreateAddress K b nonce =
     (let data = (case EncodeToBytes (GSlice False [GBytes (Address_Bytes b), GUint nonce]) of
                    Some (Inr data) \<Rightarrow> data | _ \<Rightarrow> [])
      in BytesToAddress (drop 12 (Hash_Bytes (K data))))"

text \<open>A transaction as a message; its methods read its data, and \<^verbatim>\<open>From\<close> recovers the sender.\<close>

definition tx_Message :: "Externals \<Rightarrow> Transaction \<Rightarrow> Message option" where
  "tx_Message X tx = do {
     (from, _) \<leftarrow> tx_From (x_Keccak256 X) (x_Ecrecover X) tx;
     let d = tx_data tx;
     Some \<lparr>msg_From = from, msg_To = Recipient d, msg_GasPrice = tx_Price d, msg_Gas = tx_GasLimit d,
       msg_Value = Amount d, msg_Nonce = AccountNonce d, msg_Data = Payload d\<rparr>
   }"

text \<open>\<^verbatim>\<open>NewEnv\<close> with the methods of \<^verbatim>\<open>VMEnv\<close>; making the virtual machine asks for the gas table.\<close>

definition NewEnv :: "Externals \<Rightarrow> StateDB \<Rightarrow> ChainConfig \<Rightarrow> Message \<Rightarrow> Header \<Rightarrow> StateDB Environment option" where
  "NewEnv X d chainConfig msg hdr = do {
     _ \<leftarrow> config_GasTable chainConfig (Some (h_Number hdr));
     Some \<lparr>env_RuleSet = config_RuleSet chainConfig, env_Ops = stateDB_ops, env_Keccak256 = x_Keccak256 X,
       env_CreateAddress = CreateAddress (x_Keccak256 X), env_PrecompiledPreAtlantis = x_PrecompiledPreAtlantis X,
       env_PrecompiledAtlantis = x_PrecompiledAtlantis X, env_StartingNonce = StartingNonce (sdb_db d),
       env_Origin = (case msg_From msg of Inr f \<Rightarrow> f | Inl _ \<Rightarrow> 0), env_BlockNumber = h_Number hdr,
       env_GetHash = x_GetHash X (ParentHash hdr), env_Coinbase = Coinbase hdr, env_Time = h_Time hdr,
       env_Difficulty = h_Difficulty hdr, env_GasLimit = h_GasLimit hdr, env_Db = d, env_Depth = 0,
       env_ReturnData = [], evm_readOnly = False\<rparr>
   }"

section \<open>Applying a transaction\<close>

definition IntermediateRoot :: "Externals \<Rightarrow> bool \<Rightarrow> StateDB \<Rightarrow> hash \<times> StateDB" where
  "IntermediateRoot X deleteEmptyObjects d =
     (let d = sdb_Finalise (x_order X (dirties d)) deleteEmptyObjects d in (x_TrieHash X (sdb_trie d), d))"

text \<open>What follows a message that was applied: the pending changes are finalised and the receipt is made.\<close>

definition make_receipt ::
  "Externals \<Rightarrow> ChainConfig \<Rightarrow> Header \<Rightarrow> Transaction \<Rightarrow> Message \<Rightarrow> int \<Rightarrow> bool \<Rightarrow> int \<Rightarrow> StateDB \<Rightarrow>
   (Receipt \<times> StateDB) option" where
  "make_receipt X config hdr tx msg gas failed usedGas d =
     (let atlantis = config_IsAtlantis config (Some (h_Number hdr));
          (root, d) = (if atlantis then ([], sdb_Finalise (x_order X (dirties d)) True d)
                       else (let (r, d) = IntermediateRoot X atlantis d in (Hash_Bytes r, d)))
      in do {
        h \<leftarrow> tx_Hash (x_Keccak256 X) tx;
        let receipt = (NewReceipt root usedGas)\<lparr>r_TxHash := h, r_GasUsed := gas\<rparr>;
        let receipt = (if MessageCreatesContract msg
                       then receipt\<lparr>ContractAddress := CreateAddress (x_Keccak256 X)
                              (case msg_From msg of Inr f \<Rightarrow> f | Inl _ \<Rightarrow> 0) (msg_Nonce msg)\<rparr>
                       else receipt);
        let receipt = receipt\<lparr>r_Logs := sdb_GetLogs d h\<rparr>;
        bloom \<leftarrow> CreateBloom (x_Keccak256 X) [receipt];
        Some (receipt\<lparr>r_Bloom := bloom, r_Status := (if failed then TxFailure else TxSuccess)\<rparr>, d)
      })"

text \<open>
  The results of \<^verbatim>\<open>ApplyTransaction\<close>: the receipt with its logs and the gas or an error, and the new values of what
  its pointers refer to: the gas pool, the state database and the gas used by the block.
\<close>

definition ApplyTransaction ::
  "StateDB runner \<Rightarrow> Externals \<Rightarrow> ChainConfig \<Rightarrow> int \<Rightarrow> StateDB \<Rightarrow> Header \<Rightarrow> Transaction \<Rightarrow> int \<Rightarrow>
   ((tx_error + Receipt \<times> Log list \<times> int) \<times> int \<times> StateDB \<times> int) outcome option" where
  "ApplyTransaction run X config gp d hdr tx usedGas = do {
     signer \<leftarrow> GetSigner config (Some (h_Number hdr));
     let tx = SetSigner tx signer;
     msg \<leftarrow> tx_Message X tx;
     env \<leftarrow> NewEnv X d config msg hdr;
     r \<leftarrow> ApplyMessage run env msg gp;
     (case r of
        NoFuel \<Rightarrow> Some NoFuel
      | Done (Inl err, st) \<Rightarrow> Some (Done (Inl err, st_gp st, st_state st, usedGas))
      | Done (Inr (_, gas, failed), st) \<Rightarrow> do {
          (receipt, d) \<leftarrow> make_receipt X config hdr tx msg gas failed (usedGas + gas) (st_state st);
          Some (Done (Inr (receipt, r_Logs receipt, gas), st_gp st, d, usedGas + gas))
        })
   }"

section \<open>Rewards\<close>

definition AccumulateRewards :: "StateDB \<Rightarrow> Header \<Rightarrow> Header list \<Rightarrow> StateDB" where
  "AccumulateRewards d hdr uncles =
     (let eraLen = 100000;
          era = GetBlockEra (h_Number hdr) eraLen;
          wr = GetBlockWinnerRewardByEra era;
          wurs = GetBlockWinnerRewardForUnclesByEra era uncles;
          d = sdb_AddBalance d (Coinbase hdr) (wr + wurs)
      in fold (\<lambda>uncle d. sdb_AddBalance d (Coinbase uncle) (GetBlockUncleRewardByEra era hdr uncle)) uncles d)"

section \<open>Processing a block\<close>

datatype process_error = ChainIdNotSet int int | InvalidTxChainId int int | TxError tx_error

definition check_chain_id :: "ChainConfig \<Rightarrow> int \<Rightarrow> Transaction \<Rightarrow> process_error option" where
  "check_chain_id config number tx =
     (if Protected tx then
        (let chainId = GetChainID config (Some number) in
         if chainId = 0 then Some (ChainIdNotSet number (tx_ChainId tx))
         else if tx_ChainId tx \<noteq> chainId then Some (InvalidTxChainId chainId (tx_ChainId tx))
         else None)
      else None)"

text \<open>The loop over the transactions, with the index, the receipts and the logs so far.\<close>

fun process_txs ::
  "StateDB runner \<Rightarrow> Externals \<Rightarrow> ChainConfig \<Rightarrow> Header \<Rightarrow> hash \<Rightarrow> nat \<Rightarrow> Transaction list \<Rightarrow>
   Receipt list \<Rightarrow> Log list \<Rightarrow> int \<Rightarrow> StateDB \<Rightarrow> int \<Rightarrow>
   ((process_error + Receipt list \<times> Log list \<times> int) \<times> StateDB) outcome option" where
  "process_txs run X config hdr bh i [] receipts allLogs gp d usedGas =
     Some (Done (Inr (receipts, allLogs, usedGas), d))"
| "process_txs run X config hdr bh i (tx # txs) receipts allLogs gp d usedGas =
     (case check_chain_id config (h_Number hdr) tx of
        Some err \<Rightarrow> Some (Done (Inl err, d))
      | None \<Rightarrow> do {
          h \<leftarrow> tx_Hash (x_Keccak256 X) tx;
          r \<leftarrow> ApplyTransaction run X config gp (sdb_StartRecord d h bh i) hdr tx usedGas;
          (case r of
             NoFuel \<Rightarrow> Some NoFuel
           | Done (Inl err, gp, d, usedGas) \<Rightarrow> Some (Done (Inl (TxError err), d))
           | Done (Inr (receipt, lgs, _), gp, d, usedGas) \<Rightarrow>
               process_txs run X config hdr bh (i + 1) txs (receipts @ [receipt]) (allLogs @ lgs) gp d usedGas)
        })"

definition Process ::
  "StateDB runner \<Rightarrow> Externals \<Rightarrow> ChainConfig \<Rightarrow> Block \<Rightarrow> StateDB \<Rightarrow>
   ((process_error + Receipt list \<times> Log list \<times> int) \<times> StateDB) outcome option" where
  "Process run X config block d = do {
     let hdr = b_header block;
     bh \<leftarrow> Block_Hash (x_Keccak256 X) block;
     r \<leftarrow> process_txs run X config hdr bh 0 (b_transactions block) [] [] (AddGas 0 (h_GasLimit hdr)) d 0;
     Some (case r of
             NoFuel \<Rightarrow> NoFuel
           | Done (Inl err, d) \<Rightarrow> Done (Inl err, d)
           | Done (Inr res, d) \<Rightarrow> Done (Inr res, AccumulateRewards d hdr (b_uncles block)))
   }"

section \<open>Finalising keeps the state well-formed\<close>

lemma updateRoot_fields [simp]:
  "Balance (so_data (updateRoot b ob)) = Balance (so_data ob)" "Nonce (so_data (updateRoot b ob)) = Nonce (so_data ob)"
  "acct_CodeHash (so_data (updateRoot b ob)) = acct_CodeHash (so_data ob)" "so_code (updateRoot b ob) = so_code ob"
  "deleted (updateRoot b ob) = deleted ob" "suicided (updateRoot b ob) = suicided ob"
  by (simp_all add: updateRoot_def updateTrie_def Let_def case_prod_unfold)

text \<open>Of every account that is still there, balance, nonce and code are what they were.\<close>

lemma Finalise_accts:
  assumes inv: "sdb_inv b d" and ord: "distinct order" "set order = dom (dirties d)"
    and d': "d' = sdb_Finalise order del d"
  shows "sdb_accts d' a = None \<or> (\<exists>x x'. sdb_accts d a = Some x \<and> sdb_accts d' a = Some x' \<and>
    a_balance x' = a_balance x \<and> a_nonce x' = a_nonce x \<and> a_codeHash x' = a_codeHash x \<and> a_code x' = a_code x)"
    and "sdb_inv b d'" "refund d' = 0"
proof -
  have ok: "objects_ok d" "sdb_db d = b" "backend_ok b"
    using inv by (simp_all add: sdb_inv_def sdb_core_def)
  then have "keyed d" by (auto simp: objects_ok_def keyed_def)
  then have fin: "d' = clearJournalAndRefund (finalise_all del (dom (dirties d)) d)"
    using ord by (simp add: d' sdb_Finalise_def fold_finalise_one)
  have live: "\<not> deleted ob" if "stateObjects d a = Some ob" "a \<in> dom (dirties d)" for a ob
    using that ok(1) by (auto simp: objects_ok_def gone_def)
  have view: "a_code (so_view b (updateRoot b ob)) = a_code (so_view b ob)" for ob
    by (simp add: so_view_def del: a_fields_so_view)
  show "sdb_accts d' a = None \<or> (\<exists>x x'. sdb_accts d a = Some x \<and> sdb_accts d' a = Some x' \<and>
    a_balance x' = a_balance x \<and> a_nonce x' = a_nonce x \<and> a_codeHash x' = a_codeHash x \<and> a_code x' = a_code x)"
  proof (cases "stateObjects d a")
    case None
    then show ?thesis
      by (cases "sdb_trie d a") (auto simp: fin clearJournalAndRefund_def finalise_all_def sdb_accts_def trie_view_def)
  next
    case (Some ob)
    with live [OF Some] view [of ob] ok(2) show ?thesis
      by (cases "a \<in> dom (dirties d)")
        (auto simp: fin clearJournalAndRefund_def finalise_all_def sdb_accts_def final_object_def simp del: a_fields_so_view(6))
  qed
  have trie: "sdb_trie d' a = final_account del b ob" if "stateObjects d a = Some ob" "a \<in> dom (dirties d)" for a ob
    using that ok(2) by (simp add: fin clearJournalAndRefund_def finalise_all_def)
  have same: "sdb_trie d' a = sdb_trie d a" if "a \<notin> dom (dirties d)" for a
    using that by (simp add: fin clearJournalAndRefund_def finalise_all_def split: option.split)
  have cleared: "dirties d' = Map.empty" "entries d' = []" "validRevisions d' = []" "sdb_db d' = b"
    using ok(2) by (simp_all add: fin clearJournalAndRefund_def finalise_all_def)
  have obj: "stateObjects d' a = (if a \<in> dom (dirties d) then map_option (final_object del b) (stateObjects d a)
      else stateObjects d a)" for a
    using ok(2) by (simp add: fin clearJournalAndRefund_def finalise_all_def)
  have "so_address ob' = a \<and> (deleted ob' \<longrightarrow> gone d' a)" if "stateObjects d' a = Some ob'" for a ob'
  proof (cases "a \<in> dom (dirties d)")
    case True
    with that obj obtain ob where ob: "stateObjects d a = Some ob" "ob' = final_object del b ob" by auto
    then have "so_address ob' = a" using ok(1) by (simp add: objects_ok_def)
    moreover have "gone d' a" if "deleted ob'"
      using that live [OF ob(1) True] trie [OF ob(1) True] ob(2) cleared
      by (simp add: gone_def final_object_def final_account_def split: if_splits)
    ultimately show ?thesis by blast
  next
    case False
    with that obj have "stateObjects d a = Some ob'" by simp
    with ok(1) have "so_address ob' = a" "deleted ob' \<Longrightarrow> sdb_trie d a = None"
      unfolding objects_ok_def gone_def by blast+
    with same [OF False] cleared show ?thesis by (simp add: gone_def)
  qed
  then have "objects_ok d'" unfolding objects_ok_def by blast
  with ok(3) cleared show "sdb_inv b d'" by (simp add: sdb_inv_def sdb_core_def revisions_ok_def)
  show "refund d' = 0" by (simp add: fin clearJournalAndRefund_def)
qed

lemma Finalise_good:
  assumes d: "db_good b d" and ord: "distinct order" "set order = dom (dirties d)"
  shows "db_good b (sdb_Finalise order del d)"
    "total_balance (sdb_view (sdb_Finalise order del d)) \<le> total_balance (sdb_view d)"
    "w_refund (sdb_view (sdb_Finalise order del d)) = 0"
proof -
  let ?d = "sdb_Finalise order del d"
  have "sdb_inv b d" using d by (simp add: db_good_def)
  note F = Finalise_accts [OF this ord refl, of del]
  have w: "w_accts (sdb_view e) = sdb_accts e" for e by (simp add: sdb_view_def)
  have ok: "world_ok (Keccak256 b) (sdb_view d)" using d by (simp add: db_good_def)
  have "world_ok (Keccak256 b) (sdb_view ?d)"
    unfolding world_ok_def
  proof (intro allI impI)
    fix a x'
    assume "w_accts (sdb_view ?d) a = Some x'"
    with F(1) [of a] obtain x where "sdb_accts d a = Some x" "a_balance x' = a_balance x"
        "a_codeHash x' = a_codeHash x" "a_code x' = a_code x"
      by (auto simp: w)
    with ok show "0 \<le> a_balance x' \<and> code_ok (Keccak256 b) (a_codeHash x') (a_code x')"
      by (auto simp: world_ok_def w)
  qed
  with F(2) show "db_good b ?d" by (simp add: db_good_def)
  have "w_balance (sdb_view ?d) a \<le> w_balance (sdb_view d) a" for a
    using F(1) [of a] w_balance_nonneg [OF ok, of a] by (auto simp: w_balance_def w split: option.splits)
  then show "total_balance (sdb_view ?d) \<le> total_balance (sdb_view d)"
    unfolding total_balance_def by (intro sum_mono)
  show "w_refund (sdb_view ?d) = 0" using F(3) by (simp add: sdb_view_def)
qed

section \<open>The sender is recovered without a panic\<close>

lemma put_signature_Some:
  assumes "ValidateSignatureValues v r s hs"
  shows "put_signature r s v' \<noteq> None"
proof -
  have "0 < r" "0 < s" "r < secp256k1_N" "s < secp256k1_N"
    using assms by (auto simp: ValidateSignatureValues_def not_le split: if_splits)
  then have "r < 256 ^ 32" "s < 256 ^ 32" "0 \<le> r" "0 \<le> s" by (simp_all add: secp256k1_N_def)
  then have "length (big_Bytes r) \<le> 32" "length (big_Bytes s) \<le> 32" by (simp_all add: length_big_Bytes_le)
  then show ?thesis by (simp add: put_signature_def Let_def)
qed

text \<open>A transaction with possible amounts, and not too long to be encoded.\<close>

definition tx_ok :: "Externals \<Rightarrow> Signer \<Rightarrow> Transaction \<Rightarrow> bool" where
  "tx_ok X signer tx \<longleftrightarrow> 0 \<le> tx_GasLimit (tx_data tx) \<and> 0 \<le> tx_Price (tx_data tx) \<and> 0 \<le> Amount (tx_data tx) \<and>
     small (Payload (tx_data tx)) \<and> tx_Hash (x_Keccak256 X) tx \<noteq> None \<and>
     Signer_Hash (x_Keccak256 X) BasicSigner tx \<noteq> None \<and> Signer_Hash (x_Keccak256 X) signer tx \<noteq> None"

lemma PublicKey_Some:
  assumes "Signer_Hash K BasicSigner tx \<noteq> None" "Signer_Hash K s tx \<noteq> None"
  shows "PublicKey K E s tx \<noteq> None"
proof -
  have rec: "recover_plain E h r s' V \<noteq> None" if "ValidateSignatureValues v r s' hs" "h \<noteq> None" for h r s' V v hs
    using put_signature_Some [OF that(1), of "V - 27"] that(2) by (auto simp: recover_plain_def)
  have basic: "Basic_PublicKey K E tx \<noteq> None"
    using assms(1) rec by (auto simp: Basic_PublicKey_def Let_def)
  show ?thesis
  proof (cases s)
    case (ChainIdSigner c m)
    with assms(2) basic rec show ?thesis by (auto simp: Let_def)
  qed (use basic in simp)
qed

lemma tx_Message_Some:
  assumes "tx_ok X signer tx"
  shows "\<exists>msg. tx_Message X (SetSigner tx signer) = Some msg \<and> msg_ok msg \<and> msg_Gas msg = tx_GasLimit (tx_data tx)"
proof -
  have hash: "Signer_Hash K s (SetSigner tx signer) = Signer_Hash K s tx" for K s by (cases s) (simp_all add: SetSigner_def)
  have "PublicKey (x_Keccak256 X) (x_Ecrecover X) signer (SetSigner tx signer) \<noteq> None"
    using assms by (intro PublicKey_Some) (simp_all add: tx_ok_def hash)
  then have "tx_From (x_Keccak256 X) (x_Ecrecover X) (SetSigner tx signer) \<noteq> None"
    by (auto simp: tx_From_def SetSigner_def Sender_def derive_sender_def split: option.splits)
  with assms show ?thesis by (auto simp: tx_Message_def tx_ok_def msg_ok_def SetSigner_def Let_def)
qed

section \<open>The environment is well-formed\<close>

definition ext_ok :: "Backend \<Rightarrow> Externals \<Rightarrow> bool" where
  "ext_ok b X \<longleftrightarrow> x_Keccak256 X = Keccak256 b \<and> hash_len (Keccak256 b) \<and>
     precompiles_ok (x_PrecompiledPreAtlantis X) \<and> precompiles_ok (x_PrecompiledAtlantis X) \<and>
     (\<forall>m. distinct (x_order X m) \<and> set (x_order X m) = dom m)"

lemma config_GasTable_Default: "config_GasTable c num = Some t \<Longrightarrow> t = DefaultDiehardGasTable"
  by (auto simp: config_GasTable_def Let_def split: prod.splits if_splits elim!: bind_eq_SomeE)

lemma NewEnv_ok:
  assumes X: "ext_ok b X" and d: "db_good b d" "0 \<le> w_refund (sdb_view d)"
    and "config_GasTable c (Some (h_Number hdr)) \<noteq> None"
  shows "\<exists>env. NewEnv X d c msg hdr = Some env \<and> tx_env_ok b env \<and> env_Db env = d \<and>
    isHomestead env = config_IsHomestead c (Some (h_Number hdr))"
proof -
  from assms(4) config_GasTable_Default obtain t where t: "config_GasTable c (Some (h_Number hdr)) = Some t"
      "t = DefaultDiehardGasTable" by blast
  have "gasTable_ok DefaultDiehardGasTable" by (simp add: gasTable_ok_def DefaultDiehardGasTable_def)
  with t X d show ?thesis
    by (simp add: NewEnv_def tx_env_ok_def env_ok_def config_RuleSet_def ext_ok_def db_good_def precompiles_def
        small_def)
qed

section \<open>Applying a transaction\<close>

lemma CreateBloom_Some: "CreateBloom K receipts \<noteq> None"
  using CreateBloom_covers [of K receipts] by blast

lemma make_receipt_good:
  assumes X: "ext_ok b X" and d: "db_good b d" and tx: "tx_Hash (x_Keccak256 X) tx \<noteq> None"
  obtains receipt d' where "make_receipt X c hdr tx msg gas failed used d = Some (receipt, d')" "db_good b d'"
    "total_balance (sdb_view d') \<le> total_balance (sdb_view d)" "w_refund (sdb_view d') = 0"
    "r_GasUsed receipt = gas" "CumulativeGasUsed receipt = used"
proof -
  let ?atl = "config_IsAtlantis c (Some (h_Number hdr))"
  let ?d = "sdb_Finalise (x_order X (dirties d)) ?atl d"
  have F: "db_good b ?d" "total_balance (sdb_view ?d) \<le> total_balance (sdb_view d)" "w_refund (sdb_view ?d) = 0"
    using X by (intro Finalise_good [OF d]; simp add: ext_ok_def)+
  obtain h where h: "tx_Hash (x_Keccak256 X) tx = Some h" using tx by blast
  have bloom: "CreateBloom (x_Keccak256 X) rs = Some (the (CreateBloom (x_Keccak256 X) rs))" for rs
    using CreateBloom_Some by simp
  have "\<exists>receipt. make_receipt X c hdr tx msg gas failed used d = Some (receipt, ?d) \<and>
      r_GasUsed receipt = gas \<and> CumulativeGasUsed receipt = used"
    unfolding make_receipt_def Let_def h
    by (cases ?atl; subst bloom) (simp_all add: IntermediateRoot_def NewReceipt_def Let_def)
  with F that show thesis by blast
qed

lemma ApplyTransaction_good:
  assumes X: "ext_ok b X" and d: "db_good b d" "0 \<le> w_refund (sdb_view d)"
    and c: "config_GasTable c (Some (h_Number hdr)) \<noteq> None" "GetSigner c (Some (h_Number hdr)) = Some signer"
    and tx: "tx_ok X signer tx" "tx_GasLimit (tx_data tx) < int n" and gp: "gp < 2 ^ 63"
  obtains (failed) e gp' d' where
    "ApplyTransaction (evm_Run n) X c gp d hdr tx used = Some (Done (Inl e, gp', d', used))" "db_good b d'"
    "total_balance (sdb_view d') \<le> total_balance (sdb_view d)"
  | (applied) receipt gas d' where
    "ApplyTransaction (evm_Run n) X c gp d hdr tx used =
       Some (Done (Inr (receipt, r_Logs receipt, gas), gp - gas, d', used + gas))" "db_good b d'"
    "total_balance (sdb_view d') \<le> total_balance (sdb_view d)" "w_refund (sdb_view d') = 0"
    "r_GasUsed receipt = gas" "CumulativeGasUsed receipt = used + gas" "TxGas \<le> 2 * gas" "gas \<le> gp"
proof -
  let ?tx = "SetSigner tx signer"
  obtain msg where msg: "tx_Message X ?tx = Some msg" "msg_ok msg" "msg_Gas msg < int n"
    using tx_Message_Some [OF tx(1)] tx(2) by auto
  obtain env where env: "NewEnv X d c msg hdr = Some env" "tx_env_ok b env" "env_Db env = d"
    using NewEnv_ok [OF X d c(1), of msg] by blast
  have eq: "ApplyTransaction (evm_Run n) X c gp d hdr tx used = do {
     r \<leftarrow> ApplyMessage (evm_Run n) env msg gp;
     (case r of
        NoFuel \<Rightarrow> Some NoFuel
      | Done (Inl err, st) \<Rightarrow> Some (Done (Inl err, st_gp st, st_state st, used))
      | Done (Inr (_, gas, failed), st) \<Rightarrow> do {
          (receipt, d) \<leftarrow> make_receipt X c hdr ?tx msg gas failed (used + gas) (st_state st);
          Some (Done (Inr (receipt, r_Logs receipt, gas), st_gp st, d, used + gas))
        })
   }"
    by (simp add: ApplyTransaction_def c(2) msg(1) env(1) Let_def)
  have good: "db_good b (st_state st)" if "tx_env_ok b (st_env st)" for st
    using that by (simp add: tx_env_ok_def db_env_good)
  show thesis
  proof (rule ApplyMessage_good [OF env(2) msg(2) gp msg(3)])
    fix e st'
    assume "ApplyMessage (evm_Run n) env msg gp = Some (Done (Inl e, st'))" "tx_env_ok b (st_env st')"
      "env_view (st_env st') = env_view env"
    with eq env(3) good show thesis by (intro failed [of e "st_gp st'" "st_state st'"]) simp_all
  next
    fix v st'
    assume "ApplyMessage (evm_Run n) env msg gp = Some (Done (Inl (InvalidTxErr (VmError v)), st'))"
      "tx_env_ok b (st_env st')" "total_balance (env_view (st_env st')) \<le> total_balance (env_view env)"
    with eq env(3) good show thesis by (intro failed [of _ "st_gp st'" "st_state st'"]) simp_all
  next
    fix out gas fail' st'
    assume *: "ApplyMessage (evm_Run n) env msg gp = Some (Done (Inr (out, gas, fail'), st'))"
      "tx_env_ok b (st_env st')" "st_gp st' = gp - gas" "gas \<le> msg_Gas msg" "msg_Gas msg \<le> gp"
      "intrinsic env msg \<le> 2 * gas" "total_balance (env_view (st_env st')) \<le> total_balance (env_view env)"
    have "tx_Hash (x_Keccak256 X) ?tx \<noteq> None" using tx(1) by (simp add: tx_ok_def tx_Hash_def SetSigner_def)
    from make_receipt_good [OF X good [OF *(2)] this, of c hdr msg gas fail' "used + gas"] obtain receipt d' where
      r: "make_receipt X c hdr ?tx msg gas fail' (used + gas) (st_state st') = Some (receipt, d')" "db_good b d'"
      "total_balance (sdb_view d') \<le> total_balance (sdb_view (st_state st'))" "w_refund (sdb_view d') = 0"
      "r_GasUsed receipt = gas" "CumulativeGasUsed receipt = used + gas" by blast
    have "TxGas \<le> 2 * gas" using *(6) unfolding intrinsic_def by (rule order_trans [OF IntrinsicGas_pos])
    with eq * r env(3) show thesis by (intro applied [of receipt gas d']) simp_all
  qed
qed

section \<open>Processing a block\<close>

text \<open>The receipts record the gas used so far, starting from \<open>used\<close>; every transaction used some.\<close>

fun cumulative :: "int \<Rightarrow> Receipt list \<Rightarrow> bool" where
  "cumulative used [] \<longleftrightarrow> True"
| "cumulative used (r # rs) \<longleftrightarrow> TxGas \<le> 2 * r_GasUsed r \<and> CumulativeGasUsed r = used + r_GasUsed r \<and>
     cumulative (used + r_GasUsed r) rs"

lemma StartRecord_good:
  assumes "db_good b d"
  shows "db_good b (sdb_StartRecord d th bh ti)"
    "total_balance (sdb_view (sdb_StartRecord d th bh ti)) = total_balance (sdb_view d)"
    "w_refund (sdb_view (sdb_StartRecord d th bh ti)) = w_refund (sdb_view d)"
proof -
  let ?d = "sdb_StartRecord d th bh ti"
  have "sdb_accts ?d = sdb_accts d" by (rule sdb_accts_cong) (simp_all add: sdb_StartRecord_def)
  then have w: "w_accts (sdb_view ?d) = w_accts (sdb_view d)" by (simp add: sdb_view_def)
  have "sdb_inv b ?d"
    using assms by (simp add: db_good_def sdb_inv_def sdb_core_def objects_ok_def gone_def revisions_ok_def
        sdb_StartRecord_def)
  then show "db_good b ?d" using assms w by (simp add: db_good_def world_ok_def)
  show "total_balance (sdb_view ?d) = total_balance (sdb_view d)" using w by (rule total_balance_cong)
  show "w_refund (sdb_view ?d) = w_refund (sdb_view d)" by (simp add: sdb_view_def sdb_StartRecord_def)
qed

lemma process_txs_good:
  assumes X: "ext_ok b X"
    and c: "config_GasTable c (Some (h_Number hdr)) \<noteq> None" "GetSigner c (Some (h_Number hdr)) = Some signer"
    and "\<forall>tx\<in>set txs. tx_ok X signer tx \<and> tx_GasLimit (tx_data tx) < int n"
    and "db_good b d" "0 \<le> w_refund (sdb_view d)" "gp < 2 ^ 63" "0 \<le> gp"
  shows "\<exists>r d'. process_txs (evm_Run n) X c hdr bh i txs receipts lgs gp d used = Some (Done (r, d')) \<and> db_good b d' \<and>
    total_balance (sdb_view d') \<le> total_balance (sdb_view d) \<and>
    (case r of
       Inl e \<Rightarrow> True
     | Inr (rs, ls, u) \<Rightarrow> \<exists>rs'. rs = receipts @ rs' \<and> length rs' = length txs \<and> ls = lgs @ concat (map r_Logs rs') \<and>
         u = used + sum_list (map r_GasUsed rs') \<and> u \<le> used + gp \<and> cumulative used rs')"
  using assms(4-)
proof (induction txs arbitrary: i receipts lgs gp d used)
  case Nil
  then show ?case by simp
next
  case (Cons tx txs)
  show ?case
  proof (cases "check_chain_id c (h_Number hdr) tx")
    case (Some e)
    with Cons.prems show ?thesis by simp
  next
    case None
    from Cons.prems(1) have tx: "tx_ok X signer tx" "tx_GasLimit (tx_data tx) < int n" by simp_all
    then obtain h where h: "tx_Hash (x_Keccak256 X) tx = Some h" by (auto simp: tx_ok_def)
    let ?d = "sdb_StartRecord d h bh i"
    note S = StartRecord_good [OF Cons.prems(2), of h bh i]
    have r0: "0 \<le> w_refund (sdb_view ?d)" using S(3) Cons.prems(3) by simp
    show ?thesis
    proof (rule ApplyTransaction_good [OF X S(1) r0 c tx Cons.prems(4), of used])
      fix e gp' d'
      assume "ApplyTransaction (evm_Run n) X c gp ?d hdr tx used = Some (Done (Inl e, gp', d', used))" "db_good b d'"
        "total_balance (sdb_view d') \<le> total_balance (sdb_view ?d)"
      with None h S(2) show ?thesis by simp
    next
      fix receipt gas d'
      assume *: "ApplyTransaction (evm_Run n) X c gp ?d hdr tx used =
          Some (Done (Inr (receipt, r_Logs receipt, gas), gp - gas, d', used + gas))" "db_good b d'"
        "total_balance (sdb_view d') \<le> total_balance (sdb_view ?d)" "w_refund (sdb_view d') = 0"
        "r_GasUsed receipt = gas" "CumulativeGasUsed receipt = used + gas" "TxGas \<le> 2 * gas" "gas \<le> gp"
      have "gp - gas < 2 ^ 63" "0 \<le> gp - gas" using *(7,8) Cons.prems(4) by (simp_all add: TxGas_def)
      from Cons.IH [OF _ *(2) _ this, of "i + 1" "receipts @ [receipt]" "lgs @ r_Logs receipt" "used + gas"]
        Cons.prems(1) *(4) obtain r d2 where
        IH: "process_txs (evm_Run n) X c hdr bh (i + 1) txs (receipts @ [receipt]) (lgs @ r_Logs receipt) (gp - gas) d'
            (used + gas) = Some (Done (r, d2))" "db_good b d2"
          "total_balance (sdb_view d2) \<le> total_balance (sdb_view d')"
          "case r of
             Inl e \<Rightarrow> True
           | Inr (rs, ls, u) \<Rightarrow> \<exists>rs'. rs = (receipts @ [receipt]) @ rs' \<and> length rs' = length txs \<and>
               ls = (lgs @ r_Logs receipt) @ concat (map r_Logs rs') \<and>
               u = (used + gas) + sum_list (map r_GasUsed rs') \<and> u \<le> used + gas + (gp - gas) \<and> cumulative (used + gas) rs'"
        by auto
      have run: "process_txs (evm_Run n) X c hdr bh i (tx # txs) receipts lgs gp d used = Some (Done (r, d2))"
        using None h *(1) IH(1) by simp
      have "case r of
             Inl e \<Rightarrow> True
           | Inr (rs, ls, u) \<Rightarrow> \<exists>rs'. rs = receipts @ rs' \<and> length rs' = length (tx # txs) \<and>
               ls = lgs @ concat (map r_Logs rs') \<and> u = used + sum_list (map r_GasUsed rs') \<and> u \<le> used + gp \<and>
               cumulative used rs'"
      proof (cases r)
        case (Inr x)
        obtain rs ls u where x: "x = (rs, ls, u)" by (cases x)
        with IH(4) Inr obtain rs' where "rs = receipts @ receipt # rs'" "length rs' = length txs"
          "ls = lgs @ r_Logs receipt @ concat (map r_Logs rs')" "u = used + gas + sum_list (map r_GasUsed rs')"
          "u \<le> used + gp" "cumulative (used + gas) rs'" by auto
        with x Inr *(5-7) show ?thesis by (intro exI [of _ "receipt # rs'"] | simp)+
      qed simp
      with run IH(2,3) *(3) S(2) show ?thesis by (intro exI [of _ r] exI [of _ d2]) simp
    qed
  qed
qed

section \<open>Rewards\<close>

text \<open>All that is paid for a block: to its miner, to its miner for the uncles, and to the miners of the uncles.\<close>

definition block_reward :: "Header \<Rightarrow> Header list \<Rightarrow> int" where
  "block_reward hdr uncles =
     (let wr = GetBlockWinnerRewardByEra (GetBlockEra (h_Number hdr) 100000)
      in wr + 2 * (int (length uncles) * (wr div 32)))"

lemma AccumulateRewards_moves:
  assumes "db_good b d"
  shows "moves b d (AccumulateRewards d hdr uncles) (block_reward hdr uncles)"
proof -
  define era where "era = GetBlockEra (h_Number hdr) 100000"
  define wr where "wr = GetBlockWinnerRewardByEra era"
  have "0 \<le> era" by (simp add: era_def GetBlockEra_eq pos_imp_zdiv_nonneg_iff)
  then have wr: "0 \<le> wr" "0 \<le> wr div 32" by (simp_all add: wr_def reward_nonneg pos_imp_zdiv_nonneg_iff)
  have u: "getEraUncleBlockReward era = wr div 32" by (simp add: getEraUncleBlockReward_def big_Div_def wr_def)
  have winner: "fold (\<lambda>_ r. r + wr div 32) us r = r + int (length us) * (wr div 32)" for us :: "Header list" and r
    by (induction us arbitrary: r) (simp_all add: algebra_simps)
  have pay: "moves b e (fold (\<lambda>uncle d. sdb_AddBalance d (Coinbase uncle) (wr div 32)) us e)
      (int (length us) * (wr div 32))" if "db_good b e" for us e
    using that
  proof (induction us arbitrary: e)
    case (Cons a us)
    note m = sdb_writes(1) [OF Cons.prems wr(2), of "Coinbase a"]
    from moves_trans [OF m Cons.IH [OF moves_good [OF m]]] show ?case by (simp add: algebra_simps)
  qed (simp add: moves_refl)
  let ?wu = "int (length uncles) * (wr div 32)"
  have "0 \<le> wr + ?wu" using wr by simp
  note m = sdb_writes(1) [OF assms this, of "Coinbase hdr"]
  have "AccumulateRewards d hdr uncles = fold (\<lambda>uncle d. sdb_AddBalance d (Coinbase uncle) (wr div 32)) uncles
      (sdb_AddBalance d (Coinbase hdr) (wr + ?wu))"
    using winner [of uncles 0]
    by (simp add: AccumulateRewards_def Let_def GetBlockWinnerRewardForUnclesByEra_def GetBlockUncleRewardByEra_def
        u flip: era_def wr_def)
  moreover have "block_reward hdr uncles = wr + ?wu + ?wu"
    by (simp add: block_reward_def Let_def algebra_simps flip: era_def wr_def)
  ultimately show ?thesis using moves_trans [OF m pay [OF moves_good [OF m], of uncles]] by simp
qed

section \<open>A block\<close>

text \<open>What is asked of a block: gas limits in range, amounts that are possible, and a configuration for its number.\<close>

definition block_ok :: "Externals \<Rightarrow> ChainConfig \<Rightarrow> nat \<Rightarrow> Block \<Rightarrow> bool" where
  "block_ok X c n block \<longleftrightarrow> (let hdr = b_header block in
     Block_Hash (x_Keccak256 X) block \<noteq> None \<and> 0 \<le> h_GasLimit hdr \<and> h_GasLimit hdr < 2 ^ 63 \<and>
     config_GasTable c (Some (h_Number hdr)) \<noteq> None \<and>
     (\<exists>signer. GetSigner c (Some (h_Number hdr)) = Some signer \<and>
        (\<forall>tx\<in>set (b_transactions block). tx_ok X signer tx \<and> tx_GasLimit (tx_data tx) < int n)))"

lemma Process_good:
  assumes "db_good b d" "0 \<le> w_refund (sdb_view d)" "ext_ok b X" "block_ok X c n block"
  shows "\<exists>r d'. Process (evm_Run n) X c block d = Some (Done (r, d')) \<and> db_good b d' \<and>
    (case r of
       Inl e \<Rightarrow> total_balance (sdb_view d') \<le> total_balance (sdb_view d)
     | Inr (receipts, lgs, used) \<Rightarrow>
         length receipts = length (b_transactions block) \<and> lgs = concat (map r_Logs receipts) \<and>
         used = sum_list (map r_GasUsed receipts) \<and> used \<le> h_GasLimit (b_header block) \<and> cumulative 0 receipts \<and>
         total_balance (sdb_view d') \<le>
           total_balance (sdb_view d) + block_reward (b_header block) (b_uncles block))"
proof -
  let ?hdr = "b_header block"
  from assms(4) obtain bh signer where B: "Block_Hash (x_Keccak256 X) block = Some bh" "0 \<le> h_GasLimit ?hdr"
    "h_GasLimit ?hdr < 2 ^ 63" "config_GasTable c (Some (h_Number ?hdr)) \<noteq> None"
    "GetSigner c (Some (h_Number ?hdr)) = Some signer"
    "\<forall>tx\<in>set (b_transactions block). tx_ok X signer tx \<and> tx_GasLimit (tx_data tx) < int n"
    by (auto simp: block_ok_def Let_def)
  obtain r d' where
    P: "process_txs (evm_Run n) X c ?hdr bh 0 (b_transactions block) [] [] (h_GasLimit ?hdr) d 0 = Some (Done (r, d'))"
      "db_good b d'" "total_balance (sdb_view d') \<le> total_balance (sdb_view d)"
      "case r of
         Inl e \<Rightarrow> True
       | Inr (rs, ls, u) \<Rightarrow> \<exists>rs'. rs = [] @ rs' \<and> length rs' = length (b_transactions block) \<and>
           ls = [] @ concat (map r_Logs rs') \<and> u = 0 + sum_list (map r_GasUsed rs') \<and> u \<le> 0 + h_GasLimit ?hdr \<and>
           cumulative 0 rs'"
    using process_txs_good [OF assms(3) B(4-6) assms(1,2) B(3,2), of bh 0 "[]" "[]" 0] by blast
  show ?thesis
  proof (cases r)
    case (Inl e)
    then have "Process (evm_Run n) X c block d = Some (Done (Inl e, d'))" using B(1) P(1) by (simp add: Process_def AddGas_def)
    with P(2,3) show ?thesis by (intro exI [of _ "Inl e"] exI [of _ d']) simp
  next
    case (Inr x)
    obtain rs ls u where x: "x = (rs, ls, u)" by (cases x)
    let ?d = "AccumulateRewards d' ?hdr (b_uncles block)"
    have "Process (evm_Run n) X c block d = Some (Done (Inr x, ?d))"
      using Inr B(1) P(1) by (simp add: Process_def AddGas_def)
    moreover have "moves b d' ?d (block_reward ?hdr (b_uncles block))" by (rule AccumulateRewards_moves [OF P(2)])
    ultimately show ?thesis using P(3,4) Inr x by (intro exI [of _ "Inr x"] exI [of _ ?d]) (simp add: moves_def)
  qed
qed


text \<open>A block with one transaction of an account that cannot pay for it.\<close>

definition ex_X :: Externals where
  "ex_X = \<lparr>x_Keccak256 = Keccak256 ex_backend, x_Ecrecover = (\<lambda>_ _. Inr [4]), x_PrecompiledPreAtlantis = Map.empty,
     x_PrecompiledAtlantis = Map.empty, x_TrieHash = (\<lambda>_. 0), x_GetHash = (\<lambda>_ _. 0),
     x_order = (\<lambda>m. sorted_list_of_set (dom m))\<rparr>"

definition ex_block :: Block where
  "ex_block = \<lparr>b_header = ex_header, b_uncles = [], b_transactions =
     [(NewTransaction 0 2 (Some 10) (Some 5000) (Some 1) [])
        \<lparr>tx_data := (tx_data (NewTransaction 0 2 (Some 10) (Some 5000) (Some 1) []))\<lparr>tx_V := 27, tx_R := 1, tx_S := 1\<rparr>\<rparr>]\<rparr>"

lemma ex_block_ok: "block_ok ex_X ex_config 5001 ex_block"
proof -
  let ?tx = "hd (b_transactions ex_block)"
  have n: "nat_bytes 5000 = [0x13, 0x88]" "nat_bytes 10 = [10]" "nat_bytes (Suc 0) = [1]" "nat_bytes 27 = [27]"
    "nat_bytes 101 = [101]"
    by (simp_all add: nat_bytes.simps)
  note defs = ex_block_def NewTransaction_def signed_fields_def txdata_value_def Recipient_value_def enc_string_def
    enc_list_def header_def big_Bytes_def n length_Address_Bytes
  have "length (encoding (txdata_value (tx_data ?tx))) < 2 ^ 64"
    "length (encoding (GSlice False (signed_fields (tx_data ?tx)))) < 2 ^ 64"
    "length (encoding (GSlice False (signed_fields (tx_data ?tx) @ [GBigInt (Some 101), GUint 0, GUint 0]))) < 2 ^ 64"
    using length_Address_Bytes [of 2] by (simp_all add: defs)
  then have "tx_Hash K ?tx \<noteq> None" "Signer_Hash K BasicSigner ?tx \<noteq> None"
      "Signer_Hash K (NewChainIdSigner 101) ?tx \<noteq> None" for K
    by (simp_all add: tx_Hash_def NewChainIdSigner_def rlpHash_eq)
  then have tx: "tx_ok ex_X (NewChainIdSigner 101) ?tx"
    by (simp add: tx_ok_def) (simp add: ex_block_def NewTransaction_def small_def)
  have "length (encoding (Header_value ex_header)) < 2 ^ 64" using ex_header_length by simp
  then have "Block_Hash K ex_block \<noteq> None" for K
    by (simp add: Block_Hash_def Header_Hash_def ex_block_def rlpHash_eq)
  moreover have "GetSigner ex_config (Some 1) = Some (NewChainIdSigner 101)"
    by (simp add: GetSigner_def GetFeature_def ex_config_def pick_fork_def pick_feature_def ex_feature_def GetBigInt_def
        parsed_def read_big_def)
  moreover have "config_GasTable ex_config (Some 1) \<noteq> None"
    by (simp add: config_GasTable_def GetFeature_def ex_config_def pick_fork_def pick_feature_def ex_feature_def)
  moreover have "b_header ex_block = ex_header" "set (b_transactions ex_block) = {?tx}" "tx_GasLimit (tx_data ?tx) = 5000"
    by (simp_all add: ex_block_def NewTransaction_def)
  ultimately show ?thesis using tx by (simp add: block_ok_def Let_def ex_header_def)
qed

lemma ex_X_ok: "ext_ok ex_backend ex_X"
  using ex_hash_len by (simp add: ext_ok_def ex_X_def precompiles_ok_def)


end
