(* ===== verification/Block_Validator.thy ===== *)
theory Block_Validator
  imports State_Processor
begin

text \<open>
  \<^verbatim>\<open>core/block_validator.go\<close>: the rules for headers, uncles and the results of processing a block, the difficulty
  adjustment and the gas limit that a miner chooses. The proof of work, the clock and the chain database are
  parameters, as are the roots of the transaction and receipt tries.
\<close>

section \<open>Difficulty\<close>

definition DifficultyBoundDivisor :: int where "DifficultyBoundDivisor = 200"
definition MinimumDifficulty :: int where "MinimumDifficulty = 10000"

definition calcDifficultyAtlantis :: "(bytes \<Rightarrow> hash) \<Rightarrow> uint64 \<Rightarrow> Header \<Rightarrow> int" where
  "calcDifficultyAtlantis K time parent =
     (let x = uint time - h_Time parent;
          x = big_Div x 9;
          x = (if UncleHash parent = EmptyUncleHash K then 1 - x else 2 - x);
          x = (if x < -20 then -20 else x);
          y = big_Div (h_Difficulty parent) DifficultyBoundDivisor;
          x = y * x;
          x = h_Difficulty parent + x
      in if x < MinimumDifficulty then MinimumDifficulty else x)"

definition calcDifficultyDefused :: "uint64 \<Rightarrow> uint64 \<Rightarrow> int \<Rightarrow> int \<Rightarrow> int" where
  "calcDifficultyDefused time parentTime parentNumber parentDiff =
     (let x = uint time - uint parentTime;
          x = big_Div x 10;
          x = 1 - x;
          x = (if x < -20 then -20 else x);
          y = big_Div parentDiff DifficultyBoundDivisor;
          x = y * x;
          x = parentDiff + x
      in if x < MinimumDifficulty then MinimumDifficulty else x)"

text \<open>An algorithm of another name is a panic.\<close>

definition CalcDifficulty :: "(bytes \<Rightarrow> hash) \<Rightarrow> ChainConfig \<Rightarrow> uint64 \<Rightarrow> Header \<Rightarrow> int option" where
  "CalcDifficulty K config time parent =
     (let parentTime = big_Uint64 (h_Time parent);
          defused = calcDifficultyDefused time parentTime (h_Number parent) (h_Difficulty parent);
          num = h_Number parent + 1;
          (f, _, configured) = GetFeature config (Some num) ''difficulty''
      in if \<not> configured then Some defused
         else do {
           ((name, ok), _) \<leftarrow> GetString f ''type'';
           let name = (if ok then name else '''');
           (if name = ''atlantis'' then Some (calcDifficultyAtlantis K time parent)
            else if name = ''defused'' then Some defused
            else None)
         })"

section \<open>Headers\<close>

definition MinGasLimit :: int where "MinGasLimit = 5000"
definition GasLimitBoundDivisor :: int where "GasLimitBoundDivisor = 1024"

datatype header_error =
    ExtraTooLong nat
  | BlockTSTooBigErr
  | BlockFutureErr
  | BlockEqualTSErr
  | DifficultyCheckFailed int int int
  | GasLimitCheckFailed int int int
  | BlockNumberErr
  | BlockNonceErr int hash uint64

definition gas_limit_refused :: "int \<Rightarrow> int \<Rightarrow> bool" where
  "gas_limit_refused parentLimit limit \<longleftrightarrow>
     (let a = \<bar>parentLimit - limit\<bar>; b = big_Div parentLimit GasLimitBoundDivisor
      in \<not> (a < b) \<or> limit < MinGasLimit)"

text \<open>
  \<open>verify\<close> is the proof of work, \<open>now\<close> the time of the clock; \<^verbatim>\<open>common.MaxBig\<close> is the number \<open>tt256m1\<close>. \<open>Some None\<close> is a
  valid header.
\<close>

definition ValidateHeader ::
  "(bytes \<Rightarrow> hash) \<Rightarrow> (Header \<Rightarrow> bool) \<Rightarrow> int \<Rightarrow> ChainConfig \<Rightarrow> Header \<Rightarrow> Header \<Rightarrow> bool \<Rightarrow> bool \<Rightarrow>
   header_error option option" where
  "ValidateHeader K verify now config hdr parent checkPow uncle =
     (if length (h_Extra hdr) > HeaderExtraMax then Some (Some (ExtraTooLong (length (h_Extra hdr))))
      else if uncle \<and> h_Time hdr > tt256m1 then Some (Some BlockTSTooBigErr)
      else if \<not> uncle \<and> h_Time hdr > now then Some (Some BlockFutureErr)
      else if \<not> (h_Time hdr > h_Time parent) then Some (Some BlockEqualTSErr)
      else do {
        expd \<leftarrow> CalcDifficulty K config (big_Uint64 (h_Time hdr)) parent;
        (if expd \<noteq> h_Difficulty hdr
         then Some (Some (DifficultyCheckFailed (h_Difficulty hdr) expd (h_Number hdr)))
         else if gas_limit_refused (h_GasLimit parent) (h_GasLimit hdr)
         then Some (Some (GasLimitCheckFailed (h_GasLimit hdr) \<bar>h_GasLimit parent - h_GasLimit hdr\<bar>
                (big_Div (h_GasLimit parent) GasLimitBoundDivisor)))
         else if h_Number hdr - h_Number parent \<noteq> 1 then Some (Some BlockNumberErr)
         else if checkPow \<and> \<not> verify hdr then do {
           h \<leftarrow> Header_Hash K hdr;
           Some (Some (BlockNonceErr (h_Number hdr) h (h_Nonce hdr)))
         }
         else Some None)
      })"

text \<open>The method of the validator: the parent may be missing, and a known header is not checked again.\<close>

datatype 'e validation = Invalid 'e | ParentErr hash | Valid

definition v_ValidateHeader ::
  "(bytes \<Rightarrow> hash) \<Rightarrow> (Header \<Rightarrow> bool) \<Rightarrow> int \<Rightarrow> (hash \<Rightarrow> bool) \<Rightarrow> ChainConfig \<Rightarrow> Header \<Rightarrow> Header option \<Rightarrow> bool \<Rightarrow>
   header_error validation option" where
  "v_ValidateHeader K verify now HasHeader config hdr parent checkPow =
     (case parent of
        None \<Rightarrow> Some (ParentErr (ParentHash hdr))
      | Some parent \<Rightarrow> do {
          h \<leftarrow> Header_Hash K hdr;
          (if HasHeader h then Some Valid
           else map_option (\<lambda>r. case r of None \<Rightarrow> Valid | Some e \<Rightarrow> Invalid e)
                  (ValidateHeader K verify now config hdr parent checkPow False))
        })"

section \<open>The gas limit of a miner\<close>

text \<open>\<^verbatim>\<open>TargetGasLimit\<close> is 4712388 or what the command line sets.\<close>

definition CalcGasLimit :: "int \<Rightarrow> Block \<Rightarrow> int" where
  "CalcGasLimit TargetGasLimit parent =
     (let contrib = h_GasUsed (b_header parent) * 3;
          contrib = big_Div contrib 2;
          contrib = big_Div contrib GasLimitBoundDivisor;
          decay = big_Div (h_GasLimit (b_header parent)) GasLimitBoundDivisor - 1;
          gl = h_GasLimit (b_header parent) - decay;
          gl = gl + contrib;
          gl = BigMax gl MinGasLimit
      in if gl < TargetGasLimit then BigMin (h_GasLimit (b_header parent) + decay) TargetGasLimit else gl)"

section \<open>Uncles\<close>

datatype uncle_error =
    TooManyUncles nat
  | UncleNotUnique nat hash
  | UncleIsAncestor nat hash
  | UncleParentNotAncestor nat hash hash
  | UncleHeaderInvalid nat hash header_error

primrec GetBlocksFromHash :: "(hash \<rightharpoonup> Block) \<Rightarrow> hash \<Rightarrow> nat \<Rightarrow> Block list" where
  "GetBlocksFromHash GetBlock h 0 = []"
| "GetBlocksFromHash GetBlock h (Suc n) =
     (case GetBlock h of
        None \<Rightarrow> []
      | Some block \<Rightarrow> block # GetBlocksFromHash GetBlock (ParentHash (b_header block)) n)"

fun add_hashes :: "(bytes \<Rightarrow> hash) \<Rightarrow> Header list \<Rightarrow> hash set \<Rightarrow> hash set option" where
  "add_hashes K [] uncles = Some uncles"
| "add_hashes K (u # us) uncles = do { h \<leftarrow> Header_Hash K u; add_hashes K us (insert h uncles) }"

fun collect_ancestors ::
  "(bytes \<Rightarrow> hash) \<Rightarrow> Block list \<Rightarrow> hash set \<Rightarrow> (hash \<rightharpoonup> Block) \<Rightarrow> (hash set \<times> (hash \<rightharpoonup> Block)) option" where
  "collect_ancestors K [] uncles ancestors = Some (uncles, ancestors)"
| "collect_ancestors K (a # as) uncles ancestors = do {
     h \<leftarrow> Block_Hash K a;
     uncles \<leftarrow> add_hashes K (b_uncles a) uncles;
     collect_ancestors K as uncles (ancestors(h \<mapsto> a))
   }"

fun check_uncles ::
  "(bytes \<Rightarrow> hash) \<Rightarrow> (Header \<Rightarrow> bool) \<Rightarrow> int \<Rightarrow> ChainConfig \<Rightarrow> hash \<Rightarrow> (hash \<rightharpoonup> Block) \<Rightarrow> nat \<Rightarrow> Header list \<Rightarrow>
   hash set \<Rightarrow> uncle_error option option" where
  "check_uncles K verify now config parentHash ancestors i [] uncles = Some None"
| "check_uncles K verify now config parentHash ancestors i (u # us) uncles = do {
     h \<leftarrow> Header_Hash K u;
     (if h \<in> uncles then Some (Some (UncleNotUnique i h))
      else if ancestors h \<noteq> None then Some (Some (UncleIsAncestor i h))
      else
        (case ancestors (ParentHash u) of
           None \<Rightarrow> Some (Some (UncleParentNotAncestor i h (ParentHash u)))
         | Some anc \<Rightarrow>
             if ParentHash u = parentHash then Some (Some (UncleParentNotAncestor i h (ParentHash u)))
             else do {
               r \<leftarrow> ValidateHeader K verify now config u (b_header anc) True True;
               (case r of
                  Some e \<Rightarrow> Some (Some (UncleHeaderInvalid i h e))
                | None \<Rightarrow> check_uncles K verify now config parentHash ancestors (i + 1) us (insert h uncles))
             }))
   }"

definition VerifyUncles ::
  "(bytes \<Rightarrow> hash) \<Rightarrow> (Header \<Rightarrow> bool) \<Rightarrow> int \<Rightarrow> (hash \<rightharpoonup> Block) \<Rightarrow> ChainConfig \<Rightarrow> Block \<Rightarrow> Block \<Rightarrow>
   uncle_error option option" where
  "VerifyUncles K verify now GetBlock config block parent =
     (if length (b_uncles block) > 2 then Some (Some (TooManyUncles (length (b_uncles block))))
      else do {
        (uncles, ancestors) \<leftarrow>
          collect_ancestors K (GetBlocksFromHash GetBlock (ParentHash (b_header block)) 7) {} Map.empty;
        h \<leftarrow> Block_Hash K block;
        ph \<leftarrow> Block_Hash K parent;
        check_uncles K verify now config ph (ancestors(h \<mapsto> block)) 0 (b_uncles block) (insert h uncles)
      })"

section \<open>Blocks and their results\<close>

datatype block_error =
    KnownBlock
  | BadHeader header_error
  | BadUncles uncle_error
  | UncleRoot hash hash
  | TxRoot hash hash

text \<open>
  \<open>HasBlock\<close> and \<open>GetBlock\<close> look up blocks, \<open>HasState\<close> says whether the state with a root can be opened, \<open>txsRoot\<close> is the
  root of the trie of transactions.
\<close>

definition ValidateBlock ::
  "(bytes \<Rightarrow> hash) \<Rightarrow> (Header \<Rightarrow> bool) \<Rightarrow> int \<Rightarrow> (hash \<Rightarrow> bool) \<Rightarrow> (hash \<rightharpoonup> Block) \<Rightarrow> (hash \<Rightarrow> bool) \<Rightarrow>
   (Transaction list \<Rightarrow> hash) \<Rightarrow> ChainConfig \<Rightarrow> Block \<Rightarrow> block_error validation option" where
  "ValidateBlock K verify now HasBlock GetBlock HasState txsRoot config block = do {
     h \<leftarrow> Block_Hash K block;
     let hdr = b_header block;
     (if HasBlock h \<and> HasState (h_Root hdr) then Some (Invalid KnownBlock)
      else (case GetBlock (ParentHash hdr) of
              None \<Rightarrow> Some (ParentErr (ParentHash hdr))
            | Some parent \<Rightarrow>
                if \<not> HasState (h_Root (b_header parent)) then Some (ParentErr (ParentHash hdr))
                else do {
                  r \<leftarrow> ValidateHeader K verify now config hdr (b_header parent) False False;
                  (case r of
                     Some e \<Rightarrow> Some (Invalid (BadHeader e))
                   | None \<Rightarrow> do {
                       r \<leftarrow> VerifyUncles K verify now GetBlock config block parent;
                       (case r of
                          Some e \<Rightarrow> Some (Invalid (BadUncles e))
                        | None \<Rightarrow> do {
                            unclesSha \<leftarrow> CalcUncleHash K (b_uncles block);
                            (if unclesSha \<noteq> UncleHash hdr then Some (Invalid (UncleRoot (UncleHash hdr) unclesSha))
                             else (let txSha = txsRoot (b_transactions block) in
                                   if txSha \<noteq> h_TxHash hdr then Some (Invalid (TxRoot (h_TxHash hdr) txSha))
                                   else Some Valid))
                          })
                     })
                }))
   }"

datatype state_error = GasUsedError int int | BloomError Bloom Bloom | ReceiptRoot hash hash | MerkleRoot hash hash

definition ValidateState ::
  "Externals \<Rightarrow> (Receipt list \<Rightarrow> hash) \<Rightarrow> ChainConfig \<Rightarrow> Block \<Rightarrow> StateDB \<Rightarrow> Receipt list \<Rightarrow> int \<Rightarrow>
   (state_error option \<times> StateDB) option" where
  "ValidateState X receiptsRoot config block d receipts usedGas =
     (let hdr = b_header block in
      if h_GasUsed hdr \<noteq> usedGas then Some (Some (GasUsedError (h_GasUsed hdr) usedGas), d)
      else do {
        rbloom \<leftarrow> CreateBloom (x_Keccak256 X) receipts;
        (if rbloom \<noteq> h_Bloom hdr then Some (Some (BloomError (h_Bloom hdr) rbloom), d)
         else if receiptsRoot receipts \<noteq> ReceiptHash hdr
         then Some (Some (ReceiptRoot (ReceiptHash hdr) (receiptsRoot receipts)), d)
         else (let (root, d) = IntermediateRoot X (config_IsAtlantis config (Some (h_Number hdr))) d in
               if h_Root hdr \<noteq> root then Some (Some (MerkleRoot (h_Root hdr) root), d) else Some (None, d)))
      })"

section \<open>The adjustment is bounded\<close>

text \<open>What both algorithms compute from the parent's difficulty and a factor.\<close>

definition adjusted :: "int \<Rightarrow> int \<Rightarrow> int" where
  "adjusted p x = max MinimumDifficulty (p + (p div 200) * max (- 20) x)"

lemma calcDifficulty_eq:
  "calcDifficultyAtlantis K time parent = adjusted (h_Difficulty parent)
     ((if UncleHash parent = EmptyUncleHash K then 1 else 2) - (uint time - h_Time parent) div 9)"
  "calcDifficultyDefused time parentTime parentNumber parentDiff =
     adjusted parentDiff (1 - (uint time - uint parentTime) div 10)"
  by (auto simp: calcDifficultyAtlantis_def calcDifficultyDefused_def adjusted_def big_Div_def
      DifficultyBoundDivisor_def Let_def max_def)

lemma adjusted_mono: "0 \<le> p \<Longrightarrow> x \<le> y \<Longrightarrow> adjusted p x \<le> adjusted p y"
proof -
  assume "0 \<le> p" "x \<le> y"
  then have "p div 200 * max (- 20) x \<le> p div 200 * max (- 20) y"
    by (intro mult_left_mono) (auto simp: pos_imp_zdiv_nonneg_iff)
  then show ?thesis by (simp add: adjusted_def max_def)
qed

lemma adjusted_bounds:
  assumes "0 \<le> p" "x \<le> 2"
  shows "max MinimumDifficulty (p - 20 * (p div 200)) \<le> adjusted p x"
    "adjusted p x \<le> max MinimumDifficulty (p + 2 * (p div 200))"
proof -
  have "adjusted p (- 20) \<le> adjusted p (max (- 20) x)" using assms(1) by (rule adjusted_mono) simp
  then have "adjusted p (- 20) \<le> adjusted p x" by (simp add: adjusted_def)
  then show "max MinimumDifficulty (p - 20 * (p div 200)) \<le> adjusted p x" by (simp add: adjusted_def)
  have "adjusted p x \<le> adjusted p 2" using assms by (rule adjusted_mono)
  then show "adjusted p x \<le> max MinimumDifficulty (p + 2 * (p div 200))" by (simp add: adjusted_def algebra_simps)
qed

text \<open>Whichever algorithm is configured, the difficulty is the adjustment by a factor that the timestamp lowers.\<close>

lemma CalcDifficulty_cases:
  assumes "CalcDifficulty K config time parent = Some D" "0 \<le> h_Time parent" "h_Time parent < 2 ^ 64"
  obtains n k where "0 < k" "n \<le> 2" "\<And>t. CalcDifficulty K config t parent =
    Some (adjusted (h_Difficulty parent) (n - (uint t - h_Time parent) div k))"
proof -
  have T: "uint (big_Uint64 (h_Time parent)) = h_Time parent" using assms(2,3) by (simp add: uint_big_Uint64)
  obtain f fk configured where G: "GetFeature config (Some (h_Number parent + 1)) ''difficulty'' = (f, fk, configured)"
    by (metis prod_cases3)
  let ?def = "\<lambda>t. adjusted (h_Difficulty parent) (1 - (uint t - h_Time parent) div 10)"
  show thesis
  proof (cases configured)
    case False
    then have "CalcDifficulty K config t parent = Some (?def t)" for t
      by (simp add: CalcDifficulty_def G calcDifficulty_eq T Let_def)
    then show thesis using that [of 10 1] by simp
  next
    case True
    with assms(1) G obtain nm ok f' where S: "GetString f ''type'' = Some ((nm, ok), f')"
      by (auto simp: CalcDifficulty_def Let_def elim!: bind_eq_SomeE)
    let ?nm = "if ok then nm else ''''"
    have eq: "CalcDifficulty K config t parent = (if ?nm = ''atlantis'' then Some (calcDifficultyAtlantis K t parent)
        else if ?nm = ''defused'' then Some (?def t) else None)" for t
      by (simp add: CalcDifficulty_def G True S calcDifficulty_eq T Let_def)
    show thesis
    proof (cases "?nm = ''atlantis''")
      case True
      with eq show thesis
        by (intro that [of 9 "if UncleHash parent = EmptyUncleHash K then 1 else 2"]) (simp_all add: calcDifficulty_eq)
    next
      case False
      with eq assms(1) have "?nm = ''defused''" by (metis option.distinct(1))
      with False eq show thesis by (intro that [of 10 1]) simp_all
    qed
  qed
qed

text \<open>
  C23. The difficulty adjustment is bounded and monotone: for a block after its parent the difficulty is at least the
  minimum, at most one percent above the parent's and at most ten percent below it (or the minimum), and a later
  time never gives a higher difficulty.
\<close>

theorem difficulty_bounds:
  assumes "CalcDifficulty K config time parent = Some D" "0 \<le> h_Difficulty parent"
    "0 \<le> h_Time parent" "h_Time parent < uint time" "time \<le> time'"
  shows "max MinimumDifficulty (h_Difficulty parent - 20 * (h_Difficulty parent div 200)) \<le> D \<and>
    D \<le> max MinimumDifficulty (h_Difficulty parent + 2 * (h_Difficulty parent div 200)) \<and>
    (\<exists>D'. CalcDifficulty K config time' parent = Some D' \<and> D' \<le> D)"
proof -
  have "h_Time parent < 2 ^ 64" using assms(4) uint_lt2p [of time] by simp
  from CalcDifficulty_cases [OF assms(1,3) this] obtain n k where
    C: "0 < k" "n \<le> 2" "\<And>t. CalcDifficulty K config t parent =
      Some (adjusted (h_Difficulty parent) (n - (uint t - h_Time parent) div k))" by blast
  have D: "D = adjusted (h_Difficulty parent) (n - (uint time - h_Time parent) div k)" using assms(1) C(3) by simp
  have "0 \<le> (uint time - h_Time parent) div k" using assms(4) C(1) by (simp add: pos_imp_zdiv_nonneg_iff)
  then have "n - (uint time - h_Time parent) div k \<le> 2" using C(2) by simp
  note B = adjusted_bounds [OF assms(2) this]
  have "(uint time - h_Time parent) div k \<le> (uint time' - h_Time parent) div k"
    using assms(5) C(1) by (intro zdiv_mono1) (simp_all add: word_le_def)
  then have "adjusted (h_Difficulty parent) (n - (uint time' - h_Time parent) div k) \<le> D"
    unfolding D by (intro adjusted_mono assms(2)) simp
  with B C(3) D show ?thesis by simp
qed

theorem difficulty_bounds_witness:
  "\<exists>D'. CalcDifficulty (\<lambda>b. of_nat (length b)) ex_config 500 ex_header = Some D' \<and> D' \<le> 10000"
proof -
  have "CalcDifficulty (\<lambda>b. of_nat (length b)) ex_config 20 ex_header = Some 10000"
    by (simp add: CalcDifficulty_def GetFeature_def ex_config_def pick_fork_def pick_feature_def ex_feature_def
        calcDifficulty_eq adjusted_def ex_header_def big_Uint64_def MinimumDifficulty_def Let_def)
  from difficulty_bounds [OF this, of 500] show ?thesis by (simp add: ex_header_def)
qed

section \<open>The miner's gas limit is valid\<close>


definition ex_parent :: Block where
  "ex_parent = \<lparr>b_header = ex_header\<lparr>h_GasLimit := 5119, h_GasUsed := 5119\<rparr>, b_uncles = [], b_transactions = []\<rparr>"


text \<open>With a target that is set below the gas limits of the chain, a full parent can give a limit that is refused.\<close>

lemma CalcGasLimit_small_target: "gas_limit_refused 5119 (CalcGasLimit 5000 ex_parent)"
  by (simp add: gas_limit_refused_def ex_parent_def ex_header_def CalcGasLimit_def MinGasLimit_def
      GasLimitBoundDivisor_def big_Div_def BigMax_def BigMin_def)

section \<open>Chains of valid headers\<close>

lemma ValidateHeader_valid:
  "ValidateHeader K verify now config hdr parent checkPow uncle = Some None \<longleftrightarrow>
     length (h_Extra hdr) \<le> HeaderExtraMax \<and> h_Time hdr \<le> (if uncle then tt256m1 else now) \<and>
     h_Time parent < h_Time hdr \<and>
     CalcDifficulty K config (big_Uint64 (h_Time hdr)) parent = Some (h_Difficulty hdr) \<and>
     \<not> gas_limit_refused (h_GasLimit parent) (h_GasLimit hdr) \<and> h_Number hdr = h_Number parent + 1 \<and>
     (checkPow \<longrightarrow> verify hdr)"
  by (cases "CalcDifficulty K config (big_Uint64 (h_Time hdr)) parent")
    (auto simp: ValidateHeader_def bind_eq_Some_conv)

lemma CalcDifficulty_ge: "CalcDifficulty K config time parent = Some D \<Longrightarrow> MinimumDifficulty \<le> D"
  by (auto simp: CalcDifficulty_def Let_def calcDifficulty_eq adjusted_def elim!: bind_eq_SomeE split: prod.splits if_splits)

text \<open>Headers, each validated against the one before it, with any time of the clock, with or without proof of work.\<close>

fun valid_chain :: "(bytes \<Rightarrow> hash) \<Rightarrow> (Header \<Rightarrow> bool) \<Rightarrow> ChainConfig \<Rightarrow> Header \<Rightarrow> Header list \<Rightarrow> bool" where
  "valid_chain K verify config parent [] \<longleftrightarrow> True"
| "valid_chain K verify config parent (h # hs) \<longleftrightarrow>
     (\<exists>now checkPow. ValidateHeader K verify now config h parent checkPow False = Some None) \<and>
     valid_chain K verify config h hs"

lemma valid_chain_times:
  "valid_chain K verify config p hs \<Longrightarrow> h \<in> set hs \<Longrightarrow> h_Time p < h_Time h"
  by (induction hs arbitrary: p) (auto simp: ValidateHeader_valid intro: order.strict_trans)

text \<open>
  C15. Along any chain of headers that pass validation one after the other, the block numbers count up by one, the
  times strictly increase, the gas limit never falls below the minimum and no block has less than the minimum
  difficulty; so \<open>n\<close> blocks add at least \<open>n\<close> times the minimum to the total difficulty.
\<close>

theorem valid_chain_invariant:
  assumes "valid_chain K verify config p hs"
  shows "map h_Number hs = map (\<lambda>i. h_Number p + 1 + int i) [0..<length hs] \<and>
    sorted_wrt (<) (map h_Time (p # hs)) \<and>
    list_all (\<lambda>h. MinGasLimit \<le> h_GasLimit h \<and> MinimumDifficulty \<le> h_Difficulty h) hs \<and>
    int (length hs) * MinimumDifficulty \<le> sum_list (map h_Difficulty hs)"
  using assms
proof (induction hs arbitrary: p)
  case (Cons h hs)
  then obtain now cp where v: "ValidateHeader K verify now config h p cp False = Some None"
    and chain: "valid_chain K verify config h hs" by auto
  from v have h: "h_Number h = h_Number p + 1" "h_Time p < h_Time h" "MinGasLimit \<le> h_GasLimit h"
      "MinimumDifficulty \<le> h_Difficulty h"
    by (auto simp: ValidateHeader_valid gas_limit_refused_def Let_def dest: CalcDifficulty_ge)
  have "map h_Number (h # hs) = map (\<lambda>i. h_Number p + 1 + int i) [0..<length (h # hs)]"
    using Cons.IH [OF chain] h(1) by (simp add: upt_conv_Cons map_Suc_upt [symmetric] del: upt_Suc)
  moreover have "sorted_wrt (<) (map h_Time (p # h # hs))"
    using Cons.IH [OF chain] h(2) valid_chain_times [OF Cons.prems] by auto
  ultimately show ?case using Cons.IH [OF chain] h(3,4) by (simp add: algebra_simps)
qed simp

theorem valid_chain_invariant_witness:
  "map h_Number [ex_header\<lparr>h_Number := 2, h_Time := 20\<rparr>] = map (\<lambda>i. h_Number ex_header + 1 + int i) [0..<1] \<and>
   sorted_wrt (<) (map h_Time [ex_header, ex_header\<lparr>h_Number := 2, h_Time := 20\<rparr>])"
proof -
  have "valid_chain (\<lambda>b. of_nat (length b)) (\<lambda>_. True) ex_config ex_header [ex_header\<lparr>h_Number := 2, h_Time := 20\<rparr>]"
    by (auto simp: ValidateHeader_valid CalcDifficulty_def GetFeature_def ex_config_def pick_fork_def pick_feature_def
        ex_feature_def calcDifficulty_eq adjusted_def ex_header_def big_Uint64_def MinimumDifficulty_def Let_def
        gas_limit_refused_def big_Div_def GasLimitBoundDivisor_def MinGasLimit_def HeaderExtraMax_def
        intro!: exI [of _ "20 :: int"])
  from valid_chain_invariant [OF this] show ?thesis by simp
qed

section \<open>Accepted uncles\<close>

lemma add_hashes_eq: "add_hashes K us s = Some s' \<Longrightarrow> s' = s \<union> {h. Some h \<in> Header_Hash K ` set us}"
  by (induction us arbitrary: s) (force elim!: bind_eq_SomeE)+

lemma collect_ancestors_eq:
  assumes "collect_ancestors K as us m = Some (us', m')"
  shows "us' = us \<union> {h. \<exists>a\<in>set as. Some h \<in> Header_Hash K ` set (b_uncles a)}"
    "m' h = Some a \<Longrightarrow> m h = Some a \<or> a \<in> set as \<and> Block_Hash K a = Some h"
    "m' h = None \<Longrightarrow> m h = None \<and> (\<forall>a\<in>set as. Block_Hash K a \<noteq> Some h)"
proof -
  have "us' = us \<union> {h. \<exists>a\<in>set as. Some h \<in> Header_Hash K ` set (b_uncles a)} \<and>
    (\<forall>h a. m' h = Some a \<longrightarrow> m h = Some a \<or> a \<in> set as \<and> Block_Hash K a = Some h) \<and>
    (\<forall>h. m' h = None \<longrightarrow> m h = None \<and> (\<forall>a\<in>set as. Block_Hash K a \<noteq> Some h))"
    using assms
  proof (induction as arbitrary: us m)
    case (Cons a as)
    then obtain h us1 where h: "Block_Hash K a = Some h" "add_hashes K (b_uncles a) us = Some us1"
        "collect_ancestors K as us1 (m(h \<mapsto> a)) = Some (us', m')"
      by (auto elim!: bind_eq_SomeE)
    note IH = Cons.IH [OF h(3)]
    have "us' = us \<union> {h. \<exists>a\<in>set (a # as). Some h \<in> Header_Hash K ` set (b_uncles a)}"
      using IH add_hashes_eq [OF h(2)] by auto
    moreover have "m x = Some y \<or> y \<in> set (a # as) \<and> Block_Hash K y = Some x" if "m' x = Some y" for x y
    proof -
      from IH that have "(m(h \<mapsto> a)) x = Some y \<or> y \<in> set as \<and> Block_Hash K y = Some x" by blast
      with h(1) show ?thesis by (auto split: if_splits)
    qed
    moreover have "m x = None \<and> (\<forall>y\<in>set (a # as). Block_Hash K y \<noteq> Some x)" if "m' x = None" for x
    proof -
      from IH that have "(m(h \<mapsto> a)) x = None \<and> (\<forall>y\<in>set as. Block_Hash K y \<noteq> Some x)" by blast
      with h(1) show ?thesis by (auto split: if_splits)
    qed
    ultimately show ?case by blast
  qed simp
  then show "us' = us \<union> {h. \<exists>a\<in>set as. Some h \<in> Header_Hash K ` set (b_uncles a)}"
    "m' h = Some a \<Longrightarrow> m h = Some a \<or> a \<in> set as \<and> Block_Hash K a = Some h"
    "m' h = None \<Longrightarrow> m h = None \<and> (\<forall>a\<in>set as. Block_Hash K a \<noteq> Some h)" by blast+
qed

lemma check_uncles_valid:
  assumes "check_uncles K verify now config ph ancestors i us uncles = Some None"
  shows "distinct (map (Header_Hash K) us) \<and> (\<forall>u\<in>set us. \<exists>h anc. Header_Hash K u = Some h \<and> h \<notin> uncles \<and>
    ancestors h = None \<and> ancestors (ParentHash u) = Some anc \<and> ParentHash u \<noteq> ph \<and>
    ValidateHeader K verify now config u (b_header anc) True True = Some None)"
  using assms
proof (induction us arbitrary: i uncles)
  case (Cons u us)
  then obtain h anc where h: "Header_Hash K u = Some h" "h \<notin> uncles" "ancestors h = None"
      "ancestors (ParentHash u) = Some anc" "ParentHash u \<noteq> ph"
      "ValidateHeader K verify now config u (b_header anc) True True = Some None"
      "check_uncles K verify now config ph ancestors (i + 1) us (insert h uncles) = Some None"
    by (auto elim!: bind_eq_SomeE split: if_splits option.splits)
  note IH = Cons.IH [OF h(7)]
  then have "Header_Hash K u \<notin> Header_Hash K ` set us" using h(1) by fastforce
  with IH h(1-6) show ?case by auto
qed simp

text \<open>
  C14. What an accepted block has as uncles: at most two, all different, none of them the block itself, one of its
  seven nearest ancestors or an uncle of one of these, and each a valid header, with proof of work, on top of an
  ancestor that is not the parent of the block.
\<close>

theorem VerifyUncles_sound:
  assumes "VerifyUncles K verify now GetBlock config block parent = Some None"
    and as: "as = GetBlocksFromHash GetBlock (ParentHash (b_header block)) 7"
  shows "length (b_uncles block) \<le> 2 \<and> distinct (map (Header_Hash K) (b_uncles block)) \<and>
    (\<forall>u\<in>set (b_uncles block). Header_Hash K u \<noteq> Block_Hash K block \<and>
       (\<forall>a\<in>set as. Header_Hash K u \<noteq> Block_Hash K a \<and> Header_Hash K u \<notin> Header_Hash K ` set (b_uncles a)) \<and>
       Some (ParentHash u) \<noteq> Block_Hash K parent \<and>
       (\<exists>a\<in>insert block (set as). Block_Hash K a = Some (ParentHash u) \<and>
          ValidateHeader K verify now config u (b_header a) True True = Some None))"
proof -
  from assms obtain uncles ancestors h ph where
    len: "length (b_uncles block) \<le> 2" and C: "collect_ancestors K as {} Map.empty = Some (uncles, ancestors)" and
    h: "Block_Hash K block = Some h" "Block_Hash K parent = Some ph" and
    ch: "check_uncles K verify now config ph (ancestors(h \<mapsto> block)) 0 (b_uncles block) (insert h uncles) = Some None"
    by (auto simp: VerifyUncles_def elim!: bind_eq_SomeE split: if_splits)
  note V = check_uncles_valid [OF ch] and A = collect_ancestors_eq [OF C]
  have "Header_Hash K u \<noteq> Block_Hash K block \<and>
       (\<forall>a\<in>set as. Header_Hash K u \<noteq> Block_Hash K a \<and> Header_Hash K u \<notin> Header_Hash K ` set (b_uncles a)) \<and>
       Some (ParentHash u) \<noteq> Block_Hash K parent \<and>
       (\<exists>a\<in>insert block (set as). Block_Hash K a = Some (ParentHash u) \<and>
          ValidateHeader K verify now config u (b_header a) True True = Some None)" if u: "u \<in> set (b_uncles block)" for u
  proof -
    from V u obtain uh anc where *: "Header_Hash K u = Some uh" "uh \<notin> insert h uncles"
      "(ancestors(h \<mapsto> block)) uh = None" "(ancestors(h \<mapsto> block)) (ParentHash u) = Some anc" "ParentHash u \<noteq> ph"
      "ValidateHeader K verify now config u (b_header anc) True True = Some None" by blast
    have "ancestors uh = None" using *(2,3) by simp
    from A(3) [OF this] have 1: "\<forall>a\<in>set as. Block_Hash K a \<noteq> Some uh" by simp
    have 2: "\<forall>a\<in>set as. Some uh \<notin> Header_Hash K ` set (b_uncles a)" using *(2) A(1) by auto
    have 3: "anc \<in> insert block (set as) \<and> Block_Hash K anc = Some (ParentHash u)"
      using *(4) A(2) [of "ParentHash u" anc] h(1) by (auto split: if_splits)
    have "Block_Hash K block \<noteq> Some uh" using *(2) h(1) by auto
    with 1 2 3 *(1,5,6) h(2) show ?thesis by (metis option.inject)
  qed
  with len V show ?thesis by blast
qed

text \<open>A block at height 3 whose uncle has the parent of its parent as its parent.\<close>

definition len_hash :: "bytes \<Rightarrow> hash" where
  "len_hash b = of_nat (length b)"

definition ex_at :: "hash \<Rightarrow> int \<Rightarrow> int \<Rightarrow> bytes \<Rightarrow> Header" where
  "ex_at p n t e = ex_header\<lparr>ParentHash := p, h_Number := n, h_Time := t, h_Extra := e\<rparr>"

definition ex_grand :: Block where
  "ex_grand = \<lparr>b_header = ex_at 1 1 10 [], b_uncles = [], b_transactions = []\<rparr>"

definition ex_father :: Block where
  "ex_father = \<lparr>b_header = ex_at 467 2 20 [1, 2], b_uncles = [], b_transactions = []\<rparr>"

definition ex_uncle :: Header where
  "ex_uncle = ex_at 467 2 20 [1, 2, 3]"

definition ex_nephew :: Block where
  "ex_nephew = \<lparr>b_header = ex_at 469 3 30 [1, 2, 3, 4], b_uncles = [ex_uncle], b_transactions = []\<rparr>"

lemma ex_at_hash:
  assumes "n \<in> {1, 2, 3}" "t \<in> {10, 20, 30}" "length e \<in> {0, 2, 3, 4}"
  shows "Header_Hash len_hash (ex_at p n t e) = Some (467 + of_nat (length e))"
proof -
  have n: "nat_bytes 256 = [1, 0]" "nat_bytes 10000 = [0x27, 0x10]" "nat_bytes 5000 = [0x13, 0x88]"
    "nat_bytes 464 = [1, 0xD0]" "nat_bytes 466 = [1, 0xD2]" "nat_bytes 467 = [1, 0xD3]" "nat_bytes 468 = [1, 0xD4]"
    "nat_bytes 10 = [10]" "nat_bytes 20 = [20]" "nat_bytes 30 = [30]" "nat_bytes (Suc 0) = [1]" "nat_bytes 2 = [2]"
    "nat_bytes 3 = [3]"
    by (simp_all add: nat_bytes.simps)
  have num: "enc_string (big_Bytes n) = [word_of_int n]" "enc_string (big_Bytes t) = [word_of_int t]"
    using assms(1,2) by (auto simp: enc_string_def big_Bytes_def n)
  have ext: "length (enc_string e) = 1 + length e" using assms(3) by (auto simp: enc_string_def header_def)
  have "length (concat (map encoding (header_fields (ex_at p n t e) @ [GBytes (EncodeNonce 7)]))) = 464 + length e"
    using ext num
    by (simp add: header_fields_def ex_at_def ex_header_def)
      (simp add: enc_string_def header_def big_Bytes_def n length_Hash_Bytes length_Address_Bytes)
  then have "length (encoding (Header_value (ex_at p n t e))) = 467 + length e"
    using assms(3) by (auto simp: Header_value_def enc_list_def header_def n ex_at_def ex_header_def)
  moreover have "\<not> has_negative (Header_value (ex_at p n t e))"
    using assms(1,2) by (auto simp: Header_value_def header_fields_def ex_at_def ex_header_def)
  moreover have "length e < 2 ^ 32" using assms(3) by auto
  ultimately show ?thesis by (simp add: Header_Hash_def rlpHash_eq len_hash_def)
qed

definition ex_GetBlock :: "hash \<rightharpoonup> Block" where
  "ex_GetBlock = [467 \<mapsto> ex_grand, 469 \<mapsto> ex_father]"

lemma ex_hashes:
  "Block_Hash len_hash ex_grand = Some 467" "Block_Hash len_hash ex_father = Some 469"
  "Header_Hash len_hash ex_uncle = Some 470" "Block_Hash len_hash ex_nephew = Some 471"
  by (simp_all add: Block_Hash_def ex_grand_def ex_father_def ex_uncle_def ex_nephew_def ex_at_hash)

lemma GetBlocksFromHash_numeral:
  "GetBlocksFromHash GetBlock h (numeral k) = (case GetBlock h of None \<Rightarrow> []
     | Some block \<Rightarrow> block # GetBlocksFromHash GetBlock (ParentHash (b_header block)) (pred_numeral k))"
  by (simp add: numeral_eq_Suc)

lemma ex_ancestors: "GetBlocksFromHash ex_GetBlock (ParentHash (b_header ex_nephew)) 7 = [ex_father, ex_grand]"
  by (simp add: GetBlocksFromHash_numeral ex_GetBlock_def ex_nephew_def ex_father_def ex_grand_def ex_at_def)

lemma ex_uncle_valid: "ValidateHeader len_hash (\<lambda>_. True) 30 ex_config ex_uncle (b_header ex_grand) True True = Some None"
  by (simp add: ValidateHeader_valid CalcDifficulty_def GetFeature_def ex_config_def pick_fork_def pick_feature_def
      ex_feature_def calcDifficulty_eq adjusted_def ex_header_def big_Uint64_def MinimumDifficulty_def Let_def
      gas_limit_refused_def big_Div_def GasLimitBoundDivisor_def MinGasLimit_def HeaderExtraMax_def tt256m1_def
      ex_uncle_def ex_grand_def ex_at_def)

theorem VerifyUncles_sound_witness:
  "Header_Hash len_hash ex_uncle \<noteq> Block_Hash len_hash ex_nephew \<and>
   Header_Hash len_hash ex_uncle \<noteq> Block_Hash len_hash ex_father \<and>
   Some (ParentHash ex_uncle) \<noteq> Block_Hash len_hash ex_father"
proof -
  have b: "b_uncles ex_nephew = [ex_uncle]" "b_uncles ex_father = []" "b_uncles ex_grand = []" "ParentHash ex_uncle = 467"
    by (simp_all add: ex_nephew_def ex_father_def ex_grand_def ex_uncle_def ex_at_def)
  have "VerifyUncles len_hash (\<lambda>_. True) 30 ex_GetBlock ex_config ex_nephew ex_father = Some None"
    by (simp add: VerifyUncles_def ex_ancestors ex_hashes b ex_uncle_valid)
  from VerifyUncles_sound [OF this refl] show ?thesis by (simp add: ex_ancestors b)
qed

section \<open>Accepted blocks\<close>


text \<open>An empty block.\<close>

definition ex_empty :: Block where
  "ex_empty = \<lparr>b_header = ex_header\<lparr>h_Root := 0\<rparr>, b_uncles = [], b_transactions = []\<rparr>"


end
