(* ===== verification/Spec2Isabelle.thy ===== *)
theory Spec2Isabelle
  imports Vm_Properties State_Properties Vm_Arith Rlp_Decode Block_Validator
begin

text \<open>
  A verification development for webchaind, the Go implementation of a node of an Ethereum-like network. It
  covers the part of the node on which all nodes must agree: the virtual machine, the message calls that
  start it, the state database it works on, transactions, blocks and their serialisation, the transition of
  the state by a transaction and a block, and the rules for valid blocks.

  \<^bold>\<open>Conventions.\<close> A Go struct is a record, an interface a record of its methods, and a method that changes its
  receiver returns it changed. \<^verbatim>\<open>math/big.Int\<close> is \<^typ>\<open>int\<close>, \<^verbatim>\<open>common.Address\<close> a 160-bit word, \<^verbatim>\<open>common.Hash\<close> a 256-bit
  word, a byte slice a list of 8-bit words, \<^verbatim>\<open>uint64\<close> a 64-bit word where it can wrap around. A Go map is a
  partial function; where the order of iteration could matter it is an argument. A run-time panic is the
  value \<open>None\<close> (or \<open>Panic\<close>), a Go error a value of an error type, and running out of the fuel of a loop that
  might not end is a value of its own. Cryptographic functions and other code outside the repository are
  parameters. Pointers are followed by returning the changed object; aliasing that matters (the caller's
  contract in a nested call, list headers in the encoder) is made explicit by returning or by indices.

  \<^bold>\<open>Numbers and bytes\<close> (\<^verbatim>\<open>Prelude\<close>, \<^verbatim>\<open>Big\<close>): \<^verbatim>\<open>common/big.go\<close>, \<^verbatim>\<open>common/bytes.go\<close>, \<^verbatim>\<open>common/types.go\<close>.

  \<^bold>\<open>The virtual machine\<close> (\<^verbatim>\<open>core/vm\<close>). \<^verbatim>\<open>Opcodes\<close>, \<^verbatim>\<open>Vm_Types\<close>, \<^verbatim>\<open>Vm_Stack\<close>, \<^verbatim>\<open>Vm_Memory\<close>, \<^verbatim>\<open>Vm_Gas\<close> and \<^verbatim>\<open>Vm_Analysis\<close>
  hold the data of the machine in the order of the source files; \<^verbatim>\<open>Vm_Instructions\<close> every instruction function of
  \<^verbatim>\<open>instructions.go\<close>; \<^verbatim>\<open>Vm_Interpreter\<close> the jump table, \<^verbatim>\<open>calculateGasAndSize\<close> and one iteration of the loop of
  \<^verbatim>\<open>EVM.Run\<close>. \<^verbatim>\<open>Execution\<close> has \<^verbatim>\<open>Call\<close>, \<^verbatim>\<open>CallCode\<close>, \<^verbatim>\<open>DelegateCall\<close>, \<^verbatim>\<open>StaticCall\<close> and \<^verbatim>\<open>Create\<close> of \<^verbatim>\<open>core/execution.go\<close>
  and ties the knot: the loop takes fuel, one unit for an instruction and one for entering a nested run. More
  fuel than the contract has gas is always enough, because every instruction that does not end the run costs
  at least one unit of gas.

  \<^bold>\<open>The state\<close> (\<^verbatim>\<open>core/state\<close>). \<^verbatim>\<open>State\<close> has the state objects, the journal and the methods of \<^verbatim>\<open>StateDB\<close>; tries are maps.
  \<^verbatim>\<open>World\<close> is the abstract specification: what a client can read, and how each method changes it, as the locale
  \<open>world_db\<close>. \<^verbatim>\<open>State_Refinement\<close> interprets it on the model: the caches, the dirty marks and the journal implement
  the specification, and undoing the journal restores the world.

  \<^bold>\<open>Safety of the machine.\<close> The locale \<open>evm_world\<close> (\<^verbatim>\<open>Vm_Safety\<close>) assumes of the database only the contract of
  \<open>world_db\<close> and a relation between the worlds before and after that all allowed effects keep. In it every
  instruction is shown to keep a frame well-formed when its stack and memory demands are met (\<^verbatim>\<open>Vm_Wf\<close>, \<^verbatim>\<open>Vm_Safety\<close>),
  \<^verbatim>\<open>calculateGasAndSize\<close> is shown to establish these demands and to charge for them (\<^verbatim>\<open>Vm_Charge\<close>), and both are
  put together for a step (\<^verbatim>\<open>Vm_Run\<close>) and by induction on the fuel for runs and calls (\<^verbatim>\<open>Vm_Calls\<close>). \<^verbatim>\<open>Vm_State\<close>
  interprets the locale on the state database; \<^verbatim>\<open>Vm_Properties\<close> states the results: termination without panic,
  atomicity of calls, static calls, conservation of the total balance. \<^verbatim>\<open>Vm_Arith\<close> shows that the arithmetic
  instructions are the operations of 256-bit words, \<^verbatim>\<open>Vm_Tables\<close> properties of opcodes, memory and jump destinations,
  \<^verbatim>\<open>State_Properties\<close> those of the state database.

  \<^bold>\<open>Serialisation\<close> (\<^verbatim>\<open>rlp\<close>). \<^verbatim>\<open>Rlp_Encode\<close> models the encoder and shows that its two-pass buffer yields the recursive
  definition of RLP; \<^verbatim>\<open>Rlp_Raw\<close> characterises the functions that split values off a slice; \<^verbatim>\<open>Rlp_Stream\<close> models the
  stream decoder with the decoders for Go types, and \<^verbatim>\<open>Rlp_Decode\<close> shows that it inverts the encoder.

  \<^bold>\<open>Transactions, blocks and their application.\<close> \<^verbatim>\<open>Transaction\<close> models \<^verbatim>\<open>core/types/transaction.go\<close> and
  \<^verbatim>\<open>transaction_signing.go\<close>: hashing over the RLP model, both signers, the recovery of the sender and its cache; a
  signature is bound to one chain. \<^verbatim>\<open>Block_Types\<close> has headers, receipts and bloom filters, \<^verbatim>\<open>Chain_Config\<close> the forks and
  features of \<^verbatim>\<open>core/config.go\<close> by block number. \<^verbatim>\<open>State_Transition\<close> (\<^verbatim>\<open>core/state_transition.go\<close>, \<^verbatim>\<open>gaspool.go\<close>) puts the
  virtual machine, the state database and the gas pool together: what applying a message charges, refunds and pays.
  \<^verbatim>\<open>State_Processor\<close> (\<^verbatim>\<open>core/state_processor.go\<close>, \<^verbatim>\<open>vm_env.go\<close>) applies the transactions of a block one after the other and
  pays the rewards of \<^verbatim>\<open>Rewards\<close>; processing a block never panics and never creates more than the rewards. The fuel
  asked for is the largest gas limit of a transaction plus one.

  \<^bold>\<open>Validation\<close> (\<^verbatim>\<open>Block_Validator\<close>, \<^verbatim>\<open>core/block_validator.go\<close>): headers, uncles, blocks and the results of processing,
  the difficulty algorithms and the miner's gas limit. Its lemmas show what accepted headers, uncles and blocks
  satisfy; the one on accepted blocks rests on those of the state processor and of the bloom filter.

  \<^bold>\<open>Not modelled.\<close> The network protocols (\<^verbatim>\<open>p2p\<close>, \<^verbatim>\<open>eth\<close>), the databases, the RPC and command line interfaces,
  account management, mining and the JavaScript console are input and output, concurrency and glue around
  libraries. \<^verbatim>\<open>core/blockchain.go\<close>, \<^verbatim>\<open>headerchain.go\<close> and \<^verbatim>\<open>tx_pool.go\<close> are services whose work is locking, caching, events
  and database batches; the functions they call on blocks are the ones above. Tries are maps with their roots as
  parameters. The bodies of the precompiled contracts, hashing, signing and the proof of work are cryptography
  outside the modelled code. The branch of \<^verbatim>\<open>Process\<close> for builds with SputnikVM is left out. In the modelled packages,
  logging, metrics, printing and JSON are left out.
\<close>

end
